(* ===== verification/Rust_Prelude.thy ===== *)
theory Rust_Prelude
  imports Main "HOL-Library.Word" "HOL-Library.Sublist"
begin

text \<open>
  What the components share: the machine integers of the source as words, the slices
  and vectors of bytes, the result type of fallible calls, and the pieces of the Rust
  standard library the crate uses on them (\<open>to_be_bytes\<close>, \<open>from_be_bytes\<close>, their
  little-endian twins, \<open>checked_add\<close>, \<open>saturating_add\<close>, \<open>saturating_sub\<close>,
  \<open>saturating_mul\<close>, \<open>slice::get\<close>, writing through a \<open>&mut [u8]\<close>).

  A \<open>usize\<close> is a natural number whose 64-bit bound is written out where the code
  checks it; every other integer is kept at its width.

  The collections \<open>wire\<close> and \<open>reader_simps\<close> gather the rewrite rules about the
  bytes a writer has produced and the cursor a reader is at; the component proofs
  are \<open>simp add: wire\<close> or \<open>simp add: reader_simps\<close> over them.
\<close>

unbundle bit_operations_syntax

type_synonym u8 = "8 word"
type_synonym u16 = "16 word"
type_synonym u32 = "32 word"
type_synonym u64 = "64 word"
type_synonym i32 = int
type_synonym i64 = int
type_synonym usize = nat
type_synonym bytes = "u8 list"
type_synonym os_string = bytes

named_theorems wire "what the write operations append"
named_theorems reader_simps "how the read operations move the cursor"

section \<open>Bytes of an integer\<close>

primrec be_encode :: "nat \<Rightarrow> nat \<Rightarrow> bytes" where
  "be_encode 0 x = []"
| "be_encode (Suc n) x = be_encode n (x div 256) @ [of_nat x]"

definition be_decode :: "bytes \<Rightarrow> nat" where
  "be_decode bs = foldl (\<lambda>acc b. acc * 256 + unat b) 0 bs"

definition u32_to_be_bytes :: "u32 \<Rightarrow> bytes" where
  "u32_to_be_bytes v = be_encode 4 (unat v)"

definition u32_from_be_bytes :: "bytes \<Rightarrow> u32" where
  "u32_from_be_bytes bs = of_nat (be_decode bs)"

definition u64_to_be_bytes :: "u64 \<Rightarrow> bytes" where
  "u64_to_be_bytes v = be_encode 8 (unat v)"

definition u64_from_be_bytes :: "bytes \<Rightarrow> u64" where
  "u64_from_be_bytes bs = of_nat (be_decode bs)"

definition u64_to_le_bytes :: "u64 \<Rightarrow> bytes" where
  "u64_to_le_bytes v = rev (u64_to_be_bytes v)"

definition u64_from_le_bytes :: "bytes \<Rightarrow> u64" where
  "u64_from_le_bytes bs = u64_from_be_bytes (rev bs)"

section \<open>Checked and saturating arithmetic\<close>

definition usize_checked_add :: "usize \<Rightarrow> usize \<Rightarrow> usize option" where
  "usize_checked_add a b = (if a + b < 2 ^ 64 then Some (a + b) else None)"

definition u64_saturating_add :: "u64 \<Rightarrow> u64 \<Rightarrow> u64" where
  "u64_saturating_add a b = (if unat a + unat b < 2 ^ 64 then a + b else -1)"

definition u64_saturating_mul :: "u64 \<Rightarrow> u64 \<Rightarrow> u64" where
  "u64_saturating_mul a b = (if unat a * unat b < 2 ^ 64 then a * b else -1)"

definition saturating_sub :: "'a::len word \<Rightarrow> 'a word \<Rightarrow> 'a word" where
  "saturating_sub a b = (if a < b then 0 else a - b)"

section \<open>Slices\<close>

text \<open>\<open>slice.get(a..b)\<close>: the elements from \<open>a\<close> up to \<open>b\<close>, or nothing out of range.\<close>

definition slice_get :: "'a list \<Rightarrow> nat \<Rightarrow> nat \<Rightarrow> 'a list option" where
  "slice_get xs a b = (if a \<le> b \<and> b \<le> length xs then Some (take (b - a) (drop a xs)) else None)"

text \<open>\<open><[u8; N]>::try_from(slice)\<close>: the slice itself when it has exactly \<open>N\<close> elements.\<close>

definition try_into_array :: "nat \<Rightarrow> 'a list \<Rightarrow> 'a list option" where
  "try_into_array n xs = (if length xs = n then Some xs else None)"

text \<open>
  What is left in a \<open>&mut [u8]\<close> after a callee wrote \<open>bs\<close> at its front: the callee
  cannot change the slice's length.
\<close>

definition slice_overwrite :: "bytes \<Rightarrow> bytes \<Rightarrow> bytes" where
  "slice_overwrite buf bs = take (length buf) bs @ drop (length bs) buf"

text \<open>The bytes of an ASCII literal.\<close>

definition ascii :: "string \<Rightarrow> bytes" where
  "ascii s = map of_char s"

text \<open>
  A Rust \<open>str\<close> as its characters, which are Unicode scalar values, and as the UTF-8 bytes
  it is stored as; \<open>chars\<close> is an ASCII literal.
\<close>

type_synonym rust_str = "u32 list"

definition chars :: "string \<Rightarrow> rust_str" where
  "chars s = map of_char s"

definition is_scalar :: "u32 \<Rightarrow> bool" where
  "is_scalar c \<longleftrightarrow> c < 0xD800 \<or> (0xE000 \<le> c \<and> c < 0x110000)"

definition char_utf8 :: "u32 \<Rightarrow> bytes" where
  "char_utf8 c =
     (let n = unat c
      in if n < 0x80 then [of_nat n]
         else if n < 0x800 then [of_nat (0xC0 + n div 64), of_nat (0x80 + n mod 64)]
         else if n < 0x10000 then
           [of_nat (0xE0 + n div 4096), of_nat (0x80 + n div 64 mod 64), of_nat (0x80 + n mod 64)]
         else
           [of_nat (0xF0 + n div 262144), of_nat (0x80 + n div 4096 mod 64),
            of_nat (0x80 + n div 64 mod 64), of_nat (0x80 + n mod 64)])"

definition str_utf8 :: "rust_str \<Rightarrow> bytes" where
  "str_utf8 s = concat (map char_utf8 s)"

section \<open>Round trips of the integer encodings\<close>

lemma unat_below: "unat (w :: 'a::len word) < 2 ^ LENGTH('a)"
  by (rule unsigned_less)

lemma length_be_encode [simp]: "length (be_encode n x) = n"
  by (induction n arbitrary: x) auto

lemma be_decode_Nil [simp]: "be_decode [] = 0"
  by (simp add: be_decode_def)

lemma be_decode_snoc [simp]: "be_decode (bs @ [b]) = be_decode bs * 256 + unat b"
  by (simp add: be_decode_def)

lemma unat_of_nat_u8 [simp]: "unat (of_nat x :: u8) = x mod 256"
  by (simp add: unat_of_nat)

lemma be_decode_encode: "be_decode (be_encode n x) = x mod 256 ^ n"
proof (induction n arbitrary: x)
  case 0
  then show ?case by simp
next
  case (Suc n)
  have "x mod 256 ^ Suc n = x div 256 mod 256 ^ n * 256 + x mod 256"
    using mod_mult2_eq [of x 256 "256 ^ n"] by (simp add: ac_simps)
  with Suc show ?case by simp
qed

lemma be_decode_bound: "be_decode bs < 256 ^ length bs"
proof (induction bs rule: rev_induct)
  case Nil
  then show ?case by simp
next
  case (snoc b bs)
  have "unat b < 256" using unat_below [of b] by simp
  with snoc show ?case by simp
qed

lemma be_encode_decode: "be_encode (length bs) (be_decode bs) = bs"
proof (induction bs rule: rev_induct)
  case Nil
  then show ?case by simp
next
  case (snoc b bs)
  have b: "unat b < 256" using unat_below [of b] by simp
  have "(of_nat (be_decode bs * 256 + unat b) :: u8) = b"
    by (simp only: word_unat_eq_iff unat_of_nat_u8) (use b in simp)
  with snoc b show ?case by simp
qed

lemma length_u32_to_be_bytes [simp]: "length (u32_to_be_bytes v) = 4"
  by (simp add: u32_to_be_bytes_def)

lemma length_u64_to_be_bytes [simp]: "length (u64_to_be_bytes v) = 8"
  by (simp add: u64_to_be_bytes_def)

lemma length_u64_to_le_bytes [simp]: "length (u64_to_le_bytes v) = 8"
  by (simp add: u64_to_le_bytes_def)

lemma u32_be_roundtrip [simp]: "u32_from_be_bytes (u32_to_be_bytes v) = v"
  using unat_below [of v]
  by (simp add: u32_from_be_bytes_def u32_to_be_bytes_def be_decode_encode)

lemma u64_be_roundtrip [simp]: "u64_from_be_bytes (u64_to_be_bytes v) = v"
  using unat_below [of v]
  by (simp add: u64_from_be_bytes_def u64_to_be_bytes_def be_decode_encode)

lemma u64_le_roundtrip [simp]: "u64_from_le_bytes (u64_to_le_bytes v) = v"
  by (simp add: u64_from_le_bytes_def u64_to_le_bytes_def)

lemma u32_be_inverse: "length bs = 4 \<Longrightarrow> u32_to_be_bytes (u32_from_be_bytes bs) = bs"
  using be_decode_bound [of bs] be_encode_decode [of bs]
  by (simp add: u32_to_be_bytes_def u32_from_be_bytes_def unat_of_nat)

lemma u64_be_inverse: "length bs = 8 \<Longrightarrow> u64_to_be_bytes (u64_from_be_bytes bs) = bs"
  using be_decode_bound [of bs] be_encode_decode [of bs]
  by (simp add: u64_to_be_bytes_def u64_from_be_bytes_def unat_of_nat)

lemma u64_le_inverse: "length bs = 8 \<Longrightarrow> u64_to_le_bytes (u64_from_le_bytes bs) = bs"
  by (simp add: u64_to_le_bytes_def u64_from_le_bytes_def u64_be_inverse)

lemma u32_to_be_bytes_eval:
  "u32_to_be_bytes v =
     [of_nat (unat v div 16777216), of_nat (unat v div 65536), of_nat (unat v div 256), of_nat (unat v)]"
proof -
  have four: "4 = Suc (Suc (Suc (Suc 0)))" by simp
  have "be_encode 4 x = [of_nat (x div 16777216), of_nat (x div 65536), of_nat (x div 256), of_nat x]" for x
    unfolding four be_encode.simps by (simp add: div_mult2_eq [symmetric])
  then show ?thesis by (simp add: u32_to_be_bytes_def)
qed

lemma u32_to_be_bytes_ne [simp]: "u32_to_be_bytes v \<noteq> []"
  by (simp add: u32_to_be_bytes_eval)

lemma u32_to_be_bytes_inject [simp]: "u32_to_be_bytes a = u32_to_be_bytes b \<longleftrightarrow> a = b"
  by (metis u32_be_roundtrip)

lemma u64_to_be_bytes_inject [simp]: "u64_to_be_bytes a = u64_to_be_bytes b \<longleftrightarrow> a = b"
  by (metis u64_be_roundtrip)

section \<open>Arithmetic and slices\<close>

lemma unat_saturating_sub: "unat (saturating_sub a b) = unat a - unat b"
  by (auto simp: saturating_sub_def unat_sub word_less_nat_alt word_le_nat_alt not_less)

lemma unat_saturating_add: "unat (u64_saturating_add a b) = min (2 ^ 64 - 1) (unat a + unat b)"
  by (auto simp: u64_saturating_add_def unat_word_ariths unsigned_minus_1_eq_mask mask_eq_exp_minus_1)

lemma unat_saturating_mul: "unat (u64_saturating_mul a b) = min (2 ^ 64 - 1) (unat a * unat b)"
  by (auto simp: u64_saturating_mul_def unat_word_ariths unsigned_minus_1_eq_mask mask_eq_exp_minus_1)

lemma unat_u32_bound: "unat (v :: u32) < 4294967296"
  using unat_below [of v] by simp

lemma unat_u64_bound: "unat (v :: u64) < 18446744073709551616"
  using unat_below [of v] by simp

lemma length_slice_overwrite [simp]: "length (slice_overwrite buf bs) = length buf"
  by (simp add: slice_overwrite_def)

lemma take_slice_overwrite:
  "n \<le> length bs \<Longrightarrow> n \<le> length buf \<Longrightarrow> take n (slice_overwrite buf bs) = take n bs"
  by (simp add: slice_overwrite_def min_absorb1)

lemma length_ascii [simp]: "length (ascii s) = length s"
  by (simp add: ascii_def)

section \<open>Decimal display\<close>

text \<open>\<open>Display\<close> of an unsigned integer, and the value its digits have.\<close>

fun decimal :: "nat \<Rightarrow> string" where
  "decimal n = (if n < 10 then [char_of (48 + n)] else decimal (n div 10) @ [char_of (48 + n mod 10)])"

declare decimal.simps [simp del]

definition decimal_value :: "string \<Rightarrow> nat" where
  "decimal_value cs = foldl (\<lambda>n c. 10 * n + (of_char c - 48)) 0 cs"

lemma decimal_value_decimal [simp]: "decimal_value (decimal n) = n"
  by (induction n rule: decimal.induct)
    (subst decimal.simps, simp add: decimal_value_def of_char_of split: if_splits)

lemma decimal_inject [simp]: "decimal m = decimal n \<longleftrightarrow> m = n"
  by (metis decimal_value_decimal)

end
