(* ===== verification/Xdr.thy ===== *)
theory Xdr
  imports Rust_Prelude
begin

text \<open>
  The XDR primitives of \<open>src/backend/nfs/xdr.rs\<close>: the bounds-checked cursor
  \<open>Reader\<close> and the accumulating \<open>Writer\<close>. A read operation takes the reader and
  returns the optional value together with the reader it leaves behind, so that a
  failure half way through a variable-length item keeps the cursor where the code
  leaves it.

  The locale \<open>xdr_item\<close> is the contract between a write operation and the read
  operation that undoes it; it is interpreted on every such pair of the source, and
  the RPC, MOUNT and NFS layers use only its facts.
\<close>

section \<open>Reader\<close>

record reader =
  reader_buf :: bytes
  reader_pos :: usize

type_synonym 'a reads = "reader \<Rightarrow> 'a option \<times> reader"

definition reader_new :: "bytes \<Rightarrow> reader" where
  "reader_new b = \<lparr>reader_buf = b, reader_pos = 0\<rparr>"

definition reader_take :: "usize \<Rightarrow> bytes reads" where
  "reader_take n r =
     (case usize_checked_add (reader_pos r) n of
        None \<Rightarrow> (None, r)
      | Some fin \<Rightarrow>
          (case slice_get (reader_buf r) (reader_pos r) fin of
             None \<Rightarrow> (None, r)
           | Some sl \<Rightarrow> (Some sl, r\<lparr>reader_pos := fin\<rparr>)))"

definition read_u32 :: "u32 reads" where
  "read_u32 r =
     (case reader_take 4 r of
        (None, r) \<Rightarrow> (None, r)
      | (Some b, r) \<Rightarrow> (map_option u32_from_be_bytes (try_into_array 4 b), r))"

definition read_u64 :: "u64 reads" where
  "read_u64 r =
     (case reader_take 8 r of
        (None, r) \<Rightarrow> (None, r)
      | (Some b, r) \<Rightarrow> (map_option u64_from_be_bytes (try_into_array 8 b), r))"

definition read_bool :: "bool reads" where
  "read_bool r =
     (case read_u32 r of
        (None, r) \<Rightarrow> (None, r)
      | (Some v, r) \<Rightarrow> (Some (v \<noteq> 0), r))"

definition read_opaque_fixed :: "nat \<Rightarrow> bytes reads" where
  "read_opaque_fixed n r =
     (case reader_take n r of
        (None, r) \<Rightarrow> (None, r)
      | (Some b, r) \<Rightarrow> (try_into_array n b, r))"

definition pad_len :: "u32 \<Rightarrow> usize" where
  "pad_len len = unat ((4 - len mod 4) mod 4)"

definition read_opaque_var :: "u32 \<Rightarrow> bytes reads" where
  "read_opaque_var mx r =
     (case read_u32 r of
        (None, r) \<Rightarrow> (None, r)
      | (Some len, r) \<Rightarrow>
          if len > mx then (None, r)
          else (case reader_take (unat len) r of
                  (None, r) \<Rightarrow> (None, r)
                | (Some data, r) \<Rightarrow>
                    (case reader_take (pad_len len) r of
                       (None, r) \<Rightarrow> (None, r)
                     | (Some _, r) \<Rightarrow> (Some data, r))))"

definition read_string :: "u32 \<Rightarrow> os_string reads" where
  "read_string mx r = read_opaque_var mx r"

definition reader_skip :: "usize \<Rightarrow> unit reads" where
  "reader_skip n r = (case reader_take n r of (x, r) \<Rightarrow> (map_option (\<lambda>_. ()) x, r))"

definition skip_opaque_auth :: "unit reads" where
  "skip_opaque_auth r =
     (case read_u32 r of
        (None, r) \<Rightarrow> (None, r)
      | (Some flavor, r) \<Rightarrow>
          (case read_u32 r of
             (None, r) \<Rightarrow> (None, r)
           | (Some len, r) \<Rightarrow>
               if len > 400 then (None, r)
               else (case reader_skip (unat len) r of
                       (None, r) \<Rightarrow> (None, r)
                     | (Some _, r) \<Rightarrow> reader_skip (pad_len len) r)))"

text \<open>\<open>let Some(x) = read(r) else { return alt }\<close> followed by the rest of the body.\<close>

definition let_some :: "'a reads \<Rightarrow> (reader \<Rightarrow> 'b) \<Rightarrow> ('a \<Rightarrow> reader \<Rightarrow> 'b) \<Rightarrow> reader \<Rightarrow> 'b" where
  "let_some f alt k r = (case f r of (None, r) \<Rightarrow> alt r | (Some x, r) \<Rightarrow> k x r)"

section \<open>Writer\<close>

record writer =
  writer_buf :: bytes

definition writer_new :: writer where
  "writer_new = \<lparr>writer_buf = []\<rparr>"

definition writer_len :: "writer \<Rightarrow> usize" where
  "writer_len w = length (writer_buf w)"

definition into_bytes :: "writer \<Rightarrow> bytes" where
  "into_bytes w = writer_buf w"

definition write_u32 :: "u32 \<Rightarrow> writer \<Rightarrow> writer" where
  "write_u32 v w = w\<lparr>writer_buf := writer_buf w @ u32_to_be_bytes v\<rparr>"

definition write_u64 :: "u64 \<Rightarrow> writer \<Rightarrow> writer" where
  "write_u64 v w = w\<lparr>writer_buf := writer_buf w @ u64_to_be_bytes v\<rparr>"

definition write_bool :: "bool \<Rightarrow> writer \<Rightarrow> writer" where
  "write_bool v w = write_u32 (of_bool v) w"

definition write_opaque_fixed :: "bytes \<Rightarrow> writer \<Rightarrow> writer" where
  "write_opaque_fixed data w =
     (let w = w\<lparr>writer_buf := writer_buf w @ data\<rparr>;
          pad = (4 - length data mod 4) mod 4
      in w\<lparr>writer_buf := writer_buf w @ replicate pad 0\<rparr>)"

definition write_opaque_var :: "bytes \<Rightarrow> writer \<Rightarrow> writer" where
  "write_opaque_var data w =
     (let w = write_u32 (of_nat (length data)) w
      in write_opaque_fixed data w)"

definition write_string :: "os_string \<Rightarrow> writer \<Rightarrow> writer" where
  "write_string s w = write_opaque_var s w"

definition extend_from :: "writer \<Rightarrow> writer \<Rightarrow> writer" where
  "extend_from other w = w\<lparr>writer_buf := writer_buf w @ writer_buf other\<rparr>"

section \<open>The cursor\<close>

text \<open>
  \<open>reader_ok\<close> is the reader's invariant: the cursor is inside the buffer, and the buffer
  is one Rust can hold. \<open>reader_rest\<close> is what is still to be read.
\<close>

definition reader_ok :: "reader \<Rightarrow> bool" where
  "reader_ok r \<longleftrightarrow> reader_pos r \<le> length (reader_buf r) \<and> length (reader_buf r) < 2 ^ 63"

definition reader_rest :: "reader \<Rightarrow> bytes" where
  "reader_rest r = drop (reader_pos r) (reader_buf r)"

definition reader_adv :: "nat \<Rightarrow> reader \<Rightarrow> reader" where
  "reader_adv n r = r\<lparr>reader_pos := reader_pos r + n\<rparr>"

lemma reader_ok_new [simp]: "reader_ok (reader_new b) \<longleftrightarrow> length b < 2 ^ 63"
  by (simp add: reader_ok_def reader_new_def)

lemma reader_rest_new [simp]: "reader_rest (reader_new b) = b"
  by (simp add: reader_rest_def reader_new_def)

lemma reader_adv_0 [simp]: "reader_adv 0 r = r"
  by (simp add: reader_adv_def)

lemma reader_adv_add [simp]: "reader_adv m (reader_adv n r) = reader_adv (n + m) r"
  by (simp add: reader_adv_def ac_simps)

lemma reader_rest_adv [simp]: "reader_rest (reader_adv n r) = drop n (reader_rest r)"
  by (simp add: reader_rest_def reader_adv_def ac_simps)

lemma reader_ok_adv [simp]:
  "reader_ok r \<Longrightarrow> n \<le> length (reader_rest r) \<Longrightarrow> reader_ok (reader_adv n r)"
  by (auto simp: reader_ok_def reader_rest_def reader_adv_def)

lemma reader_buf_adv [simp]: "reader_buf (reader_adv n r) = reader_buf r"
  by (simp add: reader_adv_def)

lemma reader_pos_adv [simp]: "reader_pos (reader_adv n r) = reader_pos r + n"
  by (simp add: reader_adv_def)

lemma reader_take_eq [reader_simps]:
  "reader_ok r \<Longrightarrow> reader_take n r =
     (if n \<le> length (reader_rest r) then (Some (take n (reader_rest r)), reader_adv n r)
      else (None, r))"
  by (auto simp: reader_take_def reader_ok_def reader_rest_def reader_adv_def
      usize_checked_add_def slice_get_def)

lemma read_u32_eq [reader_simps]:
  "reader_ok r \<Longrightarrow> read_u32 r =
     (if 4 \<le> length (reader_rest r)
      then (Some (u32_from_be_bytes (take 4 (reader_rest r))), reader_adv 4 r)
      else (None, r))"
  by (simp add: read_u32_def reader_take_eq try_into_array_def)

lemma read_u64_eq [reader_simps]:
  "reader_ok r \<Longrightarrow> read_u64 r =
     (if 8 \<le> length (reader_rest r)
      then (Some (u64_from_be_bytes (take 8 (reader_rest r))), reader_adv 8 r)
      else (None, r))"
  by (simp add: read_u64_def reader_take_eq try_into_array_def)

lemma read_opaque_fixed_eq [reader_simps]:
  "reader_ok r \<Longrightarrow> read_opaque_fixed n r =
     (if n \<le> length (reader_rest r) then (Some (take n (reader_rest r)), reader_adv n r)
      else (None, r))"
  by (simp add: read_opaque_fixed_def reader_take_eq try_into_array_def)

lemma reader_skip_eq [reader_simps]:
  "reader_ok r \<Longrightarrow> reader_skip n r =
     (if n \<le> length (reader_rest r) then (Some (), reader_adv n r) else (None, r))"
  by (simp add: reader_skip_def reader_take_eq)

lemma pad_len_eq: "pad_len len = (4 - unat len mod 4) mod 4"
proof -
  have "unat (len mod 4) = unat len mod 4" by (simp add: unat_mod)
  moreover have "len mod 4 \<le> 4" by (simp add: word_le_nat_alt unat_mod)
  ultimately show ?thesis by (simp add: pad_len_def unat_mod unat_sub)
qed

lemma pad_len_bound: "pad_len len < 4"
  by (simp add: pad_len_eq)

section \<open>What the write operations append\<close>

definition enc_opaque_fixed :: "bytes \<Rightarrow> bytes" where
  "enc_opaque_fixed data = data @ replicate ((4 - length data mod 4) mod 4) 0"

definition enc_opaque_var :: "bytes \<Rightarrow> bytes" where
  "enc_opaque_var data = u32_to_be_bytes (of_nat (length data)) @ enc_opaque_fixed data"

lemma writer_buf_new [simp]: "writer_buf writer_new = []"
  by (simp add: writer_new_def)

lemma into_bytes_eq [wire]: "into_bytes w = writer_buf w"
  by (simp add: into_bytes_def)

lemma buf_write_u32 [wire]: "writer_buf (write_u32 v w) = writer_buf w @ u32_to_be_bytes v"
  by (simp add: write_u32_def)

lemma buf_write_u64 [wire]: "writer_buf (write_u64 v w) = writer_buf w @ u64_to_be_bytes v"
  by (simp add: write_u64_def)

lemma buf_write_bool [wire]:
  "writer_buf (write_bool v w) = writer_buf w @ u32_to_be_bytes (of_bool v)"
  by (simp add: write_bool_def wire)

lemma buf_write_opaque_fixed [wire]:
  "writer_buf (write_opaque_fixed data w) = writer_buf w @ enc_opaque_fixed data"
  by (simp add: write_opaque_fixed_def enc_opaque_fixed_def Let_def)

lemma buf_write_opaque_var [wire]:
  "writer_buf (write_opaque_var data w) = writer_buf w @ enc_opaque_var data"
  by (simp add: write_opaque_var_def enc_opaque_var_def wire Let_def)

lemma buf_write_string [wire]: "writer_buf (write_string s w) = writer_buf w @ enc_opaque_var s"
  by (simp add: write_string_def wire)

lemma buf_extend_from [wire]: "writer_buf (extend_from x w) = writer_buf w @ writer_buf x"
  by (simp add: extend_from_def)

lemma pad_aligned: "4 dvd (k :: nat) + (4 - k mod 4) mod 4"
proof -
  define r where "r = k mod 4"
  have "r < 4" by (simp add: r_def)
  then have "r = 0 \<or> r = 1 \<or> r = 2 \<or> r = 3" by linarith
  then have "(r + (4 - r) mod 4) mod 4 = 0" by auto
  then have "(k + (4 - k mod 4) mod 4) mod 4 = 0" by (simp only: r_def mod_add_left_eq)
  then show ?thesis by (rule mod_0_imp_dvd)
qed

lemma enc_opaque_fixed_aligned: "4 dvd length (enc_opaque_fixed data)"
  using pad_aligned [of "length data"] by (simp only: enc_opaque_fixed_def length_append length_replicate)

lemma enc_opaque_fixed_multiple: "4 dvd length data \<Longrightarrow> enc_opaque_fixed data = data"
  by (simp add: enc_opaque_fixed_def dvd_imp_mod_0)

lemma enc_opaque_var_aligned: "4 dvd length (enc_opaque_var data)"
  using enc_opaque_fixed_aligned [of data]
  by (simp only: enc_opaque_var_def length_append length_u32_to_be_bytes dvd_add_right_iff dvd_refl)

section \<open>The contract of a write operation and the read operation that undoes it\<close>

locale xdr_item =
  fixes put :: "'a \<Rightarrow> writer \<Rightarrow> writer"
    and get :: "'a reads"
    and enc :: "'a \<Rightarrow> bytes"
    and fits :: "'a \<Rightarrow> bool"
  assumes put_appends: "writer_buf (put v w) = writer_buf w @ enc v"
    and get_enc: "fits v \<Longrightarrow> reader_ok r \<Longrightarrow> reader_rest r = enc v @ t \<Longrightarrow>
      get r = (Some v, reader_adv (length (enc v)) r)"
    and enc_aligned: "4 dvd length (enc v)"
begin

lemma get_put:
  assumes "fits v" and "length (writer_buf (put v w)) + length t < 2 ^ 63"
  shows "get (reader_adv (length (writer_buf w)) (reader_new (writer_buf (put v w) @ t))) =
    (Some v, reader_adv (length (writer_buf (put v w))) (reader_new (writer_buf (put v w) @ t)))"
proof -
  let ?r = "reader_adv (length (writer_buf w)) (reader_new (writer_buf (put v w) @ t))"
  have "reader_ok ?r" using assms(2) by (intro reader_ok_adv) (auto simp: put_appends)
  moreover have "reader_rest ?r = enc v @ t" by (simp add: put_appends)
  ultimately have "get ?r = (Some v, reader_adv (length (enc v)) ?r)" using assms(1) by (intro get_enc)
  then show ?thesis by (simp add: put_appends)
qed

lemma get_rest:
  assumes "fits v" "reader_ok r" "reader_rest r = enc v @ t"
  obtains r' where "reader_ok r'" "reader_rest r' = t" "get r = (Some v, r')"
proof
  show "reader_ok (reader_adv (length (enc v)) r)" using assms(2,3) by (intro reader_ok_adv) auto
  show "reader_rest (reader_adv (length (enc v)) r) = t" using assms(3) by simp
  show "get r = (Some v, reader_adv (length (enc v)) r)" by (rule get_enc [OF assms])
qed

lemma prefix_free:
  assumes "fits v" "fits v'" "enc v @ t = enc v' @ t'" "length (enc v @ t) < 2 ^ 63"
  shows "v = v' \<and> t = t'"
proof -
  let ?r = "reader_new (enc v @ t)"
  have "get ?r = (Some v, reader_adv (length (enc v)) ?r)"
    using assms by (intro get_enc [where t = t]) auto
  moreover have "get ?r = (Some v', reader_adv (length (enc v')) ?r)"
    using assms by (intro get_enc [where t = t']) auto
  ultimately show ?thesis using assms(3) by simp
qed

end

lemma read_bool_eq [reader_simps]:
  "reader_ok r \<Longrightarrow> read_bool r =
     (if 4 \<le> length (reader_rest r)
      then (Some (u32_from_be_bytes (take 4 (reader_rest r)) \<noteq> 0), reader_adv 4 r)
      else (None, r))"
  by (simp add: read_bool_def read_u32_eq)

lemma read_opaque_var_enc:
  assumes "length d \<le> unat mx" and ok: "reader_ok r" and rest: "reader_rest r = enc_opaque_var d @ t"
  shows "read_opaque_var mx r = (Some d, reader_adv (length (enc_opaque_var d)) r)"
proof -
  have len: "unat (of_nat (length d) :: u32) = length d"
    using assms(1) unat_u32_bound [of mx] by (simp add: unat_of_nat)
  then have le: "\<not> (of_nat (length d) :: u32) > mx"
    using assms(1) by (simp add: word_less_nat_alt)
  have pad: "pad_len (of_nat (length d)) = (4 - length d mod 4) mod 4"
    by (simp add: pad_len_eq len)
  show ?thesis
    using ok le
    by (simp add: read_opaque_var_def reader_simps rest len pad enc_opaque_var_def
        enc_opaque_fixed_def ac_simps)
qed

interpretation u32_item: xdr_item write_u32 read_u32 u32_to_be_bytes "\<lambda>_. True"
  by unfold_locales (auto simp: wire reader_simps)

interpretation u64_item: xdr_item write_u64 read_u64 u64_to_be_bytes "\<lambda>_. True"
  by unfold_locales (auto simp: wire reader_simps)

interpretation bool_item: xdr_item write_bool read_bool "\<lambda>b. u32_to_be_bytes (of_bool b)" "\<lambda>_. True"
  by unfold_locales (auto simp: wire reader_simps)

interpretation opaque_item: xdr_item write_opaque_var "read_opaque_var mx" enc_opaque_var
  "\<lambda>d. length d \<le> unat mx" for mx
  by unfold_locales (auto simp: wire enc_opaque_var_aligned intro: read_opaque_var_enc)

interpretation string_item: xdr_item write_string "read_string mx" enc_opaque_var
  "\<lambda>d. length d \<le> unat mx" for mx
  by unfold_locales (auto simp: wire read_string_def enc_opaque_var_aligned intro: read_opaque_var_enc)

section \<open>Every read stays inside the buffer\<close>

text \<open>
  A read operation is safe when, from a reader whose cursor is inside its buffer, it only
  moves the cursor forward, by no more than what is left; the buffer is not changed.
\<close>

definition reader_safe :: "'a reads \<Rightarrow> bool" where
  "reader_safe f \<longleftrightarrow>
     (\<forall>r. reader_ok r \<longrightarrow> (\<exists>n \<le> length (reader_rest r). snd (f r) = reader_adv n r))"

lemma reader_safeI:
  "(\<And>r. reader_ok r \<Longrightarrow> \<exists>n \<le> length (reader_rest r). snd (f r) = reader_adv n r) \<Longrightarrow> reader_safe f"
  by (simp add: reader_safe_def)

lemma reader_safeE:
  assumes "reader_safe f" "reader_ok r" "f r = (x, r')"
  obtains n where "n \<le> length (reader_rest r)" "r' = reader_adv n r" "reader_ok r'"
  using assms by (metis reader_safe_def reader_ok_adv snd_conv)

lemma reader_safe_bind:
  assumes f: "reader_safe f" and g: "\<And>x. reader_safe (g x)"
    and h: "\<And>r. h r = (case f r of (None, r) \<Rightarrow> (None, r) | (Some x, r) \<Rightarrow> g x r)"
  shows "reader_safe h"
proof (rule reader_safeI)
  fix r assume ok: "reader_ok r"
  obtain x r' where fr: "f r = (x, r')" by fastforce
  from reader_safeE [OF f ok fr] obtain n
    where n: "n \<le> length (reader_rest r)" "r' = reader_adv n r" "reader_ok r'" .
  show "\<exists>n \<le> length (reader_rest r). snd (h r) = reader_adv n r"
  proof (cases x)
    case None
    with n fr show ?thesis by (auto simp: h)
  next
    case (Some y)
    obtain z r'' where gr: "g y r' = (z, r'')" by fastforce
    from reader_safeE [OF g n(3) gr] obtain m
      where "m \<le> length (reader_rest r')" "r'' = reader_adv m r'" .
    with n fr gr Some show ?thesis by (auto simp: h intro!: exI [of _ "n + m"])
  qed
qed

lemma reader_safe_fail [simp]: "reader_safe (\<lambda>r. (x, r))"
  by (rule reader_safeI) (auto intro!: exI [of _ 0])

lemma reader_safe_if: "reader_safe f \<Longrightarrow> reader_safe g \<Longrightarrow> reader_safe (\<lambda>r. if b then f r else g r)"
  by (cases b) simp_all

lemma reader_safe_take: "reader_safe (reader_take n)"
  by (rule reader_safeI) (auto simp: reader_simps intro: exI [of _ 0])

lemma reader_safe_u32: "reader_safe read_u32"
  by (rule reader_safeI) (auto simp: reader_simps intro: exI [of _ 0])

lemma reader_safe_u64: "reader_safe read_u64"
  by (rule reader_safeI) (auto simp: reader_simps intro: exI [of _ 0])

lemma reader_safe_opaque_fixed: "reader_safe (read_opaque_fixed n)"
  by (rule reader_safeI) (auto simp: reader_simps intro: exI [of _ 0])

lemma reader_safe_bool: "reader_safe read_bool"
  by (rule reader_safeI) (auto simp: reader_simps intro: exI [of _ 0])

lemma reader_safe_skip: "reader_safe (reader_skip n)"
  by (rule reader_safeI) (auto simp: reader_simps intro: exI [of _ 0])

lemma reader_safe_opaque_var: "reader_safe (read_opaque_var mx)"
proof (rule reader_safe_bind [OF reader_safe_u32 _ read_opaque_var_def])
  fix len
  have "reader_safe (\<lambda>r. case reader_take (unat len) r of (None, r) \<Rightarrow> (None, r)
      | (Some data, r) \<Rightarrow> (case reader_take (pad_len len) r of (None, r) \<Rightarrow> (None, r)
          | (Some _, r) \<Rightarrow> (Some data, r)))"
    by (rule reader_safe_bind [OF reader_safe_take _ refl],
        rule reader_safe_bind [OF reader_safe_take _ refl], simp)
  then show "reader_safe (\<lambda>r. if mx < len then (None, r)
      else case reader_take (unat len) r of (None, r) \<Rightarrow> (None, r)
      | (Some data, r) \<Rightarrow> (case reader_take (pad_len len) r of (None, r) \<Rightarrow> (None, r)
          | (Some _, r) \<Rightarrow> (Some data, r)))"
    by (intro reader_safe_if reader_safe_fail)
qed

lemma skip_opaque_auth_read_opaque_var:
  "skip_opaque_auth r =
     (case read_u32 r of
        (None, r) \<Rightarrow> (None, r)
      | (Some flavor, r) \<Rightarrow>
          (case read_opaque_var 400 r of (x, r) \<Rightarrow> (map_option (\<lambda>_. ()) x, r)))"
  by (simp add: skip_opaque_auth_def read_opaque_var_def reader_skip_def
      split: prod.splits option.splits)

lemma reader_safe_auth: "reader_safe skip_opaque_auth"
proof (rule reader_safe_bind [OF reader_safe_u32 _ skip_opaque_auth_read_opaque_var])
  show "reader_safe (\<lambda>r. case read_opaque_var 400 r of (x, r) \<Rightarrow> (map_option (\<lambda>_. ()) x, r))"
    by (rule reader_safe_bind [OF reader_safe_opaque_var [of 400] reader_safe_fail [of "Some ()"]])
      (auto split: prod.splits option.splits)
qed

lemma read_opaque_var_length:
  assumes "reader_ok r" "read_opaque_var mx r = (Some d, r')"
  shows "length d \<le> unat mx"
proof -
  have *: "reader_ok r \<Longrightarrow> reader_take n r = (Some d, r') \<Longrightarrow> length d = n" for r n d r'
    by (auto simp: reader_take_eq split: if_splits)
  from assms obtain len r1 where u: "read_u32 r = (Some len, r1)" "\<not> mx < len"
      and t: "reader_take (unat len) r1 = (Some d, snd (reader_take (unat len) r1))"
    by (auto simp: read_opaque_var_def split: prod.splits option.splits if_splits)
  from reader_safeE [OF reader_safe_u32 assms(1) u(1)] have "reader_ok r1" by blast
  from * [OF this t] u(2) show ?thesis by (simp add: word_less_nat_alt not_less)
qed

section \<open>Properties\<close>

text \<open>
  Reading back what was written. A string of at most \<open>mx\<close> bytes written by
  \<open>write_opaque_var\<close> after anything, and followed by anything, is returned by
  \<open>read_opaque_var mx\<close> exactly, and the cursor is left just past its padding.
\<close>

lemma xdr_opaque_roundtrip:
  assumes "length d \<le> unat mx"
    and "length (writer_buf (write_opaque_var d w)) + length t < 2 ^ 63"
  shows "read_opaque_var mx
      (reader_adv (length (writer_buf w)) (reader_new (writer_buf (write_opaque_var d w) @ t))) =
    (Some d, reader_adv (length (writer_buf (write_opaque_var d w)))
               (reader_new (writer_buf (write_opaque_var d w) @ t)))"
  using assms by (rule opaque_item.get_put)

text \<open>
  No read leaves the buffer. From a reader whose cursor is inside its buffer,
  every public read operation of \<open>Reader\<close> moves the cursor forward by at most what is
  left and does not touch the buffer, whatever the bytes are: a truncated or oversized
  message is a \<open>None\<close>, never an out-of-range access.
\<close>

lemma xdr_reads_in_bounds:
  "reader_safe read_u32 \<and> reader_safe read_u64 \<and> reader_safe read_bool \<and>
   reader_safe (read_opaque_fixed n) \<and> reader_safe (read_opaque_var mx) \<and>
   reader_safe (read_string mx) \<and> reader_safe skip_opaque_auth"
  using reader_safe_opaque_var [of mx]
  by (simp add: reader_safe_u32 reader_safe_u64 reader_safe_bool reader_safe_opaque_fixed
      reader_safe_auth read_string_def [abs_def])

text \<open>
  C40: \<open>skip_opaque_auth\<close> is \<open>read_opaque_var\<close> without the copy: after the flavor word it
  accepts the same bodies, refuses the same ones, and leaves the cursor at the same
  place in every case.
\<close>

theorem skip_opaque_auth_equiv:
  "skip_opaque_auth r =
     (case read_u32 r of
        (None, r) \<Rightarrow> (None, r)
      | (Some flavor, r) \<Rightarrow>
          (case read_opaque_var 400 r of (x, r) \<Rightarrow> (map_option (\<lambda>_. ()) x, r)))"
  by (rule skip_opaque_auth_read_opaque_var)

end
