(* ===== verification/Anymount_Types.thy ===== *)
theory Anymount_Types
  imports Rust_Prelude
begin

text \<open>
  The value types of \<open>src/types.rs\<close>: inode numbers, open-file handles, attributes,
  directory entries and filesystem statistics, with the constructors and orderings the
  source derives for them. A \<open>SystemTime\<close> is its distance from the Unix epoch, in
  seconds (negative before the epoch) and nanoseconds; the process's user and group id
  are parameters, since the source takes them from \<open>libc\<close>.
\<close>

datatype ino = Ino (ino_num: u64)

datatype file_handle = FileHandle (fh_num: u64)

datatype file_kind = File | Directory

record system_time =
  st_secs :: int
  st_nanos :: nat

record duration =
  dur_secs :: u64
  dur_nanos :: u32

record file_attr =
  attr_ino :: ino
  attr_kind :: file_kind
  attr_size :: u64
  attr_perm :: u16
  attr_nlink :: u32
  attr_uid :: u32
  attr_gid :: u32
  attr_atime :: system_time
  attr_mtime :: system_time
  attr_ctime :: system_time

record dir_entry =
  entry_ino :: ino
  entry_name :: os_string
  entry_kind :: file_kind

record stat_fs =
  sf_blocks :: u64
  sf_bfree :: u64
  sf_bavail :: u64
  sf_files :: u64
  sf_ffree :: u64
  sf_bsize :: u32
  sf_namelen :: u32
  sf_frsize :: u32

definition ROOT_INO :: ino where
  "ROOT_INO = Ino 1"

definition UNIX_EPOCH :: system_time where
  "UNIX_EPOCH = \<lparr>st_secs = 0, st_nanos = 0\<rparr>"

text \<open>
  \<open>SystemTime::duration_since(UNIX_EPOCH)\<close>: the time since the epoch, an error for a
  time before it.
\<close>

definition duration_since_epoch :: "system_time \<Rightarrow> duration option" where
  "duration_since_epoch t =
     (if st_secs t < 0 then None
      else Some \<lparr>dur_secs = of_int (st_secs t), dur_nanos = of_nat (st_nanos t)\<rparr>)"

definition duration_default :: duration where
  "duration_default = \<lparr>dur_secs = 0, dur_nanos = 0\<rparr>"

definition file_attr_file :: "u32 \<Rightarrow> u32 \<Rightarrow> ino \<Rightarrow> u64 \<Rightarrow> file_attr" where
  "file_attr_file current_uid current_gid ino sz =
     \<lparr>attr_ino = ino, attr_kind = File, attr_size = sz, attr_perm = 0x124,
      attr_nlink = 1, attr_uid = current_uid, attr_gid = current_gid,
      attr_atime = UNIX_EPOCH, attr_mtime = UNIX_EPOCH, attr_ctime = UNIX_EPOCH\<rparr>"

definition file_attr_dir :: "u32 \<Rightarrow> u32 \<Rightarrow> ino \<Rightarrow> file_attr" where
  "file_attr_dir current_uid current_gid ino =
     \<lparr>attr_ino = ino, attr_kind = Directory, attr_size = 0, attr_perm = 0x16D,
      attr_nlink = 2, attr_uid = current_uid, attr_gid = current_gid,
      attr_atime = UNIX_EPOCH, attr_mtime = UNIX_EPOCH, attr_ctime = UNIX_EPOCH\<rparr>"

definition stat_fs_default :: stat_fs where
  "stat_fs_default =
     \<lparr>sf_blocks = 0, sf_bfree = 0, sf_bavail = 0, sf_files = 0, sf_ffree = 0,
      sf_bsize = 512, sf_namelen = 255, sf_frsize = 512\<rparr>"

text \<open>
  The conversions from and to \<open>u64\<close>, and \<open>Display\<close>, which prints the number alone: inode
  numbers and handles that differ are printed differently.
\<close>

definition ino_from_u64 :: "u64 \<Rightarrow> ino" where
  "ino_from_u64 n = Ino n"

definition u64_from_ino :: "ino \<Rightarrow> u64" where
  "u64_from_ino i = ino_num i"

definition ino_display :: "ino \<Rightarrow> string" where
  "ino_display i = decimal (unat (ino_num i))"

definition file_handle_from_u64 :: "u64 \<Rightarrow> file_handle" where
  "file_handle_from_u64 n = FileHandle n"

definition u64_from_file_handle :: "file_handle \<Rightarrow> u64" where
  "u64_from_file_handle fh = fh_num fh"

definition file_handle_display :: "file_handle \<Rightarrow> string" where
  "file_handle_display fh = decimal (unat (fh_num fh))"

lemma ino_display_inject: "ino_display i = ino_display j \<longleftrightarrow> i = j"
  by (cases i; cases j) (simp add: ino_display_def word_unat_eq_iff)

lemma file_handle_display_inject: "file_handle_display a = file_handle_display b \<longleftrightarrow> a = b"
  by (cases a; cases b) (simp add: file_handle_display_def word_unat_eq_iff)

lemma ino_u64_inverse: "u64_from_ino (ino_from_u64 n) = n" "ino_from_u64 (u64_from_ino i) = i"
  by (simp_all add: u64_from_ino_def ino_from_u64_def)

lemma file_handle_u64_inverse:
  "u64_from_file_handle (file_handle_from_u64 n) = n" "file_handle_from_u64 (u64_from_file_handle fh) = fh"
  by (simp_all add: u64_from_file_handle_def file_handle_from_u64_def)

text \<open>The derived orderings: by number, and files before directories.\<close>

instantiation ino :: linorder
begin

definition less_eq_ino :: "ino \<Rightarrow> ino \<Rightarrow> bool" where
  "less_eq_ino a b \<longleftrightarrow> ino_num a \<le> ino_num b"

definition less_ino :: "ino \<Rightarrow> ino \<Rightarrow> bool" where
  "less_ino a b \<longleftrightarrow> ino_num a < ino_num b"

instance
  by standard (auto simp: less_eq_ino_def less_ino_def ino.expand)

end

instantiation file_kind :: linorder
begin

definition less_eq_file_kind :: "file_kind \<Rightarrow> file_kind \<Rightarrow> bool" where
  "less_eq_file_kind a b \<longleftrightarrow> a = File \<or> b = Directory"

definition less_file_kind :: "file_kind \<Rightarrow> file_kind \<Rightarrow> bool" where
  "less_file_kind a b \<longleftrightarrow> a = File \<and> b = Directory"

instance
proof
  fix x y z :: file_kind
  show "x < y \<longleftrightarrow> x \<le> y \<and> \<not> y \<le> x"
    by (cases x; cases y) (simp_all add: less_eq_file_kind_def less_file_kind_def)
  show "x \<le> x" by (cases x) (simp_all add: less_eq_file_kind_def)
  show "x \<le> y \<Longrightarrow> y \<le> z \<Longrightarrow> x \<le> z"
    by (cases x; cases y; cases z) (simp_all add: less_eq_file_kind_def)
  show "x \<le> y \<Longrightarrow> y \<le> x \<Longrightarrow> x = y"
    by (cases x; cases y) (simp_all add: less_eq_file_kind_def)
  show "x \<le> y \<or> y \<le> x" by (cases x; cases y) (simp_all add: less_eq_file_kind_def)
qed

end

lemma file_attr_file_sel [simp]:
  "attr_ino (file_attr_file u g i n) = i" "attr_kind (file_attr_file u g i n) = File"
  "attr_size (file_attr_file u g i n) = n"
  by (simp_all add: file_attr_file_def)

lemma file_attr_dir_sel [simp]:
  "attr_ino (file_attr_dir u g i) = i" "attr_kind (file_attr_dir u g i) = Directory"
  "attr_size (file_attr_dir u g i) = 0"
  by (simp_all add: file_attr_dir_def)

end
