(* ===== verification/Fs_Error.thy ===== *)
theory Fs_Error
  imports Anymount_Types
begin

text \<open>
  The error type of \<open>src/error.rs\<close> and its mappings onto \<open>nfsstat3\<close>, \<open>NTSTATUS\<close>, the
  POSIX \<open>errno\<close> of each platform and \<open>std::io::Error\<close>. The constants the source takes
  from the \<open>libc\<close> and \<open>windows\<close> crates are parameters.
\<close>

section \<open>std::io::Error\<close>

datatype error_kind =
    EkNotFound | EkPermissionDenied | EkInvalidInput | EkUnsupported | EkOther
  | EkWouldBlock | EkTimedOut | EkUnexpectedEof | EkInterrupted | EkUncategorized

record io_error =
  io_kind :: error_kind
  io_raw_os_error :: "i32 option"
  io_message :: string

definition io_error_new :: "error_kind \<Rightarrow> string \<Rightarrow> io_error" where
  "io_error_new kind msg = \<lparr>io_kind = kind, io_raw_os_error = None, io_message = msg\<rparr>"

definition io_error_other :: "string \<Rightarrow> io_error" where
  "io_error_other msg = io_error_new EkOther msg"

definition io_error_from_kind :: "error_kind \<Rightarrow> io_error" where
  "io_error_from_kind kind = io_error_new kind []"

section \<open>FsError\<close>

datatype fs_error =
    NotFound
  | PermissionDenied
  | NotADirectory
  | IsADirectory
  | InvalidArgument
  | NoXattr
  | ReadOnly
  | Unsupported string
  | Io io_error
  | Other string
  | Context fs_error string

type_synonym 'a fs_result = "fs_error + 'a"

definition fs_context :: "string \<Rightarrow> fs_error \<Rightarrow> fs_error" where
  "fs_context msg e = Context e msg"

fun fs_error_to_string :: "fs_error \<Rightarrow> string" where
  "fs_error_to_string NotFound = ''no such file or directory''"
| "fs_error_to_string PermissionDenied = ''permission denied''"
| "fs_error_to_string NotADirectory = ''not a directory''"
| "fs_error_to_string IsADirectory = ''is a directory''"
| "fs_error_to_string InvalidArgument = ''invalid argument''"
| "fs_error_to_string NoXattr = ''no such extended attribute''"
| "fs_error_to_string ReadOnly = ''read-only filesystem''"
| "fs_error_to_string (Unsupported what) = ''operation not supported: '' @ what"
| "fs_error_to_string (Io e) = ''i/o error: '' @ io_message e"
| "fs_error_to_string (Other msg) = msg"
| "fs_error_to_string (Context e msg) = msg"

fun to_nfsstat3 :: "fs_error \<Rightarrow> u32" where
  "to_nfsstat3 NotFound = 2"
| "to_nfsstat3 PermissionDenied = 13"
| "to_nfsstat3 NotADirectory = 20"
| "to_nfsstat3 IsADirectory = 21"
| "to_nfsstat3 InvalidArgument = 22"
| "to_nfsstat3 NoXattr = 10004"
| "to_nfsstat3 ReadOnly = 30"
| "to_nfsstat3 (Unsupported _) = 10004"
| "to_nfsstat3 (Io _) = 5"
| "to_nfsstat3 (Other _) = 10006"
| "to_nfsstat3 (Context e _) = to_nfsstat3 e"

text \<open>
  The \<open>NTSTATUS\<close> and \<open>HRESULT\<close> constants of the \<open>windows\<close> crate and the \<open>errno\<close>
  constants of \<open>libc\<close> are parameters: the source names them and takes their values
  from those crates.
\<close>

record windows_codes =
  STATUS_OBJECT_NAME_NOT_FOUND :: i32
  STATUS_ACCESS_DENIED :: i32
  STATUS_INVALID_PARAMETER :: i32
  STATUS_NOT_SUPPORTED :: i32
  STATUS_CLOUD_FILE_UNSUCCESSFUL :: i32
  E_ACCESSDENIED :: i32

fun to_ntstatus :: "windows_codes \<Rightarrow> fs_error \<Rightarrow> i32" where
  "to_ntstatus wc NotFound = STATUS_OBJECT_NAME_NOT_FOUND wc"
| "to_ntstatus wc PermissionDenied = STATUS_ACCESS_DENIED wc"
| "to_ntstatus wc InvalidArgument = STATUS_INVALID_PARAMETER wc"
| "to_ntstatus wc (Unsupported _) = STATUS_NOT_SUPPORTED wc"
| "to_ntstatus wc NoXattr = STATUS_NOT_SUPPORTED wc"
| "to_ntstatus wc NotADirectory = STATUS_CLOUD_FILE_UNSUCCESSFUL wc"
| "to_ntstatus wc IsADirectory = STATUS_CLOUD_FILE_UNSUCCESSFUL wc"
| "to_ntstatus wc ReadOnly = STATUS_CLOUD_FILE_UNSUCCESSFUL wc"
| "to_ntstatus wc (Io _) = STATUS_CLOUD_FILE_UNSUCCESSFUL wc"
| "to_ntstatus wc (Other _) = STATUS_CLOUD_FILE_UNSUCCESSFUL wc"
| "to_ntstatus wc (Context e _) = to_ntstatus wc e"

text \<open>
  \<open>to_errno\<close> has one implementation for Unix, whose \<open>NoXattr\<close> arm depends on the
  target, and one for everything else, which spells Linux's numbers out.
\<close>

record libc_codes =
  ENOENT :: i32
  EACCES :: i32
  ENOTDIR :: i32
  EISDIR :: i32
  EINVAL :: i32
  ENODATA :: i32
  ENOATTR :: i32
  ENOTSUP :: i32
  EROFS :: i32
  ENOSYS :: i32
  EIO :: i32

datatype unix_target = Linux | MacOS | OtherUnix

fun errno_noxattr :: "libc_codes \<Rightarrow> unix_target \<Rightarrow> i32" where
  "errno_noxattr lc Linux = ENODATA lc"
| "errno_noxattr lc MacOS = ENOATTR lc"
| "errno_noxattr lc OtherUnix = ENOTSUP lc"

fun to_errno :: "libc_codes \<Rightarrow> unix_target \<Rightarrow> fs_error \<Rightarrow> i32" where
  "to_errno lc os NotFound = ENOENT lc"
| "to_errno lc os PermissionDenied = EACCES lc"
| "to_errno lc os NotADirectory = ENOTDIR lc"
| "to_errno lc os IsADirectory = EISDIR lc"
| "to_errno lc os InvalidArgument = EINVAL lc"
| "to_errno lc os NoXattr = errno_noxattr lc os"
| "to_errno lc os ReadOnly = EROFS lc"
| "to_errno lc os (Unsupported _) = ENOSYS lc"
| "to_errno lc os (Io e) = (case io_raw_os_error e of Some n \<Rightarrow> n | None \<Rightarrow> EIO lc)"
| "to_errno lc os (Other _) = EIO lc"
| "to_errno lc os (Context e _) = to_errno lc os e"

fun to_errno_non_unix :: "fs_error \<Rightarrow> i32" where
  "to_errno_non_unix NotFound = 2"
| "to_errno_non_unix PermissionDenied = 13"
| "to_errno_non_unix NotADirectory = 20"
| "to_errno_non_unix IsADirectory = 21"
| "to_errno_non_unix InvalidArgument = 22"
| "to_errno_non_unix NoXattr = 61"
| "to_errno_non_unix ReadOnly = 30"
| "to_errno_non_unix (Unsupported _) = 38"
| "to_errno_non_unix (Io e) = (case io_raw_os_error e of Some n \<Rightarrow> n | None \<Rightarrow> 5)"
| "to_errno_non_unix (Other _) = 5"
| "to_errno_non_unix (Context e _) = to_errno_non_unix e"

section \<open>Conversions\<close>

fun innermost :: "fs_error \<Rightarrow> fs_error" where
  "innermost (Context e _) = innermost e"
| "innermost other = other"

fun unwrap_io :: "fs_error \<Rightarrow> io_error" where
  "unwrap_io (Io inner) = inner"
| "unwrap_io (Context e _) = unwrap_io e"
| "unwrap_io other = io_error_other (fs_error_to_string other)"

definition io_error_from_fs_error :: "fs_error \<Rightarrow> io_error" where
  "io_error_from_fs_error e =
     (let msg = fs_error_to_string e
      in case innermost e of
           NotFound \<Rightarrow> io_error_new EkNotFound msg
         | PermissionDenied \<Rightarrow> io_error_new EkPermissionDenied msg
         | NotADirectory \<Rightarrow> io_error_new EkInvalidInput msg
         | IsADirectory \<Rightarrow> io_error_new EkInvalidInput msg
         | InvalidArgument \<Rightarrow> io_error_new EkInvalidInput msg
         | ReadOnly \<Rightarrow> io_error_new EkPermissionDenied msg
         | Unsupported _ \<Rightarrow> io_error_new EkUnsupported msg
         | NoXattr \<Rightarrow> io_error_new EkUnsupported msg
         | Io _ \<Rightarrow> unwrap_io e
         | _ \<Rightarrow> io_error_new EkOther msg)"

text \<open>The COM failure the cfapi backend wraps: its \<open>HRESULT\<close> and its message.\<close>

record win_error =
  win_code :: i32
  win_message :: string

definition fs_error_from_win :: "windows_codes \<Rightarrow> win_error \<Rightarrow> fs_error" where
  "fs_error_from_win wc e =
     (if win_code e = E_ACCESSDENIED wc then PermissionDenied else Other (win_message e))"

section \<open>Wrapping with context\<close>

fun context_chain :: "string list \<Rightarrow> fs_error \<Rightarrow> fs_error" where
  "context_chain [] e = e"
| "context_chain (m # ms) e = fs_context m (context_chain ms e)"

lemma innermost_not_context [simp]: "innermost e \<noteq> Context x m"
  by (induction e) simp_all

lemma innermost_context [simp]: "innermost (fs_context m e) = innermost e"
  by (simp add: fs_context_def)

lemma codes_of_innermost:
  "to_nfsstat3 (innermost e) = to_nfsstat3 e"
  "to_ntstatus wc (innermost e) = to_ntstatus wc e"
  "to_errno lc os (innermost e) = to_errno lc os e"
  "to_errno_non_unix (innermost e) = to_errno_non_unix e"
  by (induction e) simp_all

lemma unwrap_io_innermost: "innermost e = Io inner \<Longrightarrow> unwrap_io e = inner"
  by (induction e) simp_all

lemma innermost_chain [simp]: "innermost (context_chain ms e) = innermost e"
  by (induction ms) simp_all

lemma to_nfsstat3_nonzero: "to_nfsstat3 e \<noteq> 0"
  by (induction e) simp_all

text \<open>The \<open>libc\<close> constants of Linux, for the numbers both implementations share.\<close>

definition linux_codes :: libc_codes where
  "linux_codes = \<lparr>ENOENT = 2, EACCES = 13, ENOTDIR = 20, EISDIR = 21, EINVAL = 22, ENODATA = 61,
     ENOATTR = 61, ENOTSUP = 95, EROFS = 30, ENOSYS = 38, EIO = 5\<rparr>"

lemma to_errno_linux_eq: "to_errno linux_codes Linux e = to_errno_non_unix e"
  by (induction e) (simp_all add: linux_codes_def split: option.splits)

section \<open>Properties\<close>

text \<open>
  Adding context never changes what the platform sees. However many times an error is
  wrapped with \<open>context\<close>, its \<open>nfsstat3\<close>, its \<open>NTSTATUS\<close> and both forms of its
  \<open>errno\<close> are those of the error it wraps, and the status is never the success code.
\<close>

lemma context_preserves_codes:
  "to_nfsstat3 (context_chain ms e) = to_nfsstat3 e \<and>
   to_ntstatus wc (context_chain ms e) = to_ntstatus wc e \<and>
   to_errno lc os (context_chain ms e) = to_errno lc os e \<and>
   to_errno_non_unix (context_chain ms e) = to_errno_non_unix e \<and>
   to_nfsstat3 e \<noteq> 0"
  by (metis codes_of_innermost innermost_chain to_nfsstat3_nonzero)

text \<open>
  Converting an error that wraps an I/O failure into \<open>std::io::Error\<close> returns the
  inner failure whole, with its kind and raw OS error; every context message on the
  way is dropped.
\<close>

lemma io_error_drops_context:
  "io_error_from_fs_error (context_chain ms (Io inner)) = inner"
  by (simp add: io_error_from_fs_error_def unwrap_io_innermost Let_def)

end
