(* ===== verification/Read_Only_Fs.thy ===== *)
theory Read_Only_Fs
  imports Fs_Error
begin

text \<open>
  The trait \<open>ReadOnlyFs\<close> of \<open>src/fs.rs\<close>. Its methods take \<open>&self\<close> and lock inside, so an
  implementation is a record of functions over its interior state \<open>'s\<close>: every method takes
  the state last and returns its result with the state it leaves. \<open>read_at\<close> also returns
  what it wrote into the caller's buffer; a caller sees it through \<open>read_at_buf\<close>, which
  keeps the buffer's length, as a \<open>&mut [u8]\<close> does.

  The record makes no promise about an implementation: the theorems of the backends that
  must hold for a hostile implementation quantify over it. What the documentation of the
  trait asks of an implementation is the locale \<open>ro_fs\<close>; the theory \<open>Mem_Fs\<close>
  interprets it on the in-memory filesystem of \<open>examples/memfs.rs\<close>.
\<close>

section \<open>The methods\<close>

record 's read_only_fs =
  fs_lookup :: "ino \<Rightarrow> os_string \<Rightarrow> 's \<Rightarrow> file_attr fs_result \<times> 's"
  fs_getattr :: "ino \<Rightarrow> 's \<Rightarrow> file_attr fs_result \<times> 's"
  fs_readdir :: "ino \<Rightarrow> u64 \<Rightarrow> 's \<Rightarrow> dir_entry list fs_result \<times> 's"
  fs_open :: "ino \<Rightarrow> 's \<Rightarrow> file_handle fs_result \<times> 's"
  fs_read_at :: "file_handle \<Rightarrow> u64 \<Rightarrow> bytes \<Rightarrow> 's \<Rightarrow> (usize fs_result \<times> bytes) \<times> 's"
  fs_release :: "file_handle \<Rightarrow> 's \<Rightarrow> unit fs_result \<times> 's"
  fs_forget :: "ino \<Rightarrow> u64 \<Rightarrow> 's \<Rightarrow> 's"
  fs_listxattr :: "ino \<Rightarrow> 's \<Rightarrow> os_string list fs_result \<times> 's"
  fs_getxattr :: "ino \<Rightarrow> os_string \<Rightarrow> 's \<Rightarrow> bytes fs_result \<times> 's"
  fs_statfs :: "'s \<Rightarrow> stat_fs fs_result \<times> 's"

definition read_at_buf ::
  "'s read_only_fs \<Rightarrow> file_handle \<Rightarrow> u64 \<Rightarrow> bytes \<Rightarrow> 's \<Rightarrow> (usize fs_result \<times> bytes) \<times> 's" where
  "read_at_buf fs fh offset buf s =
     (case fs_read_at fs fh offset buf s of
        ((r, out), s) \<Rightarrow> ((r, slice_overwrite buf out), s))"

text \<open>The bodies the trait provides for the methods an implementation may leave out.\<close>

definition default_forget :: "ino \<Rightarrow> u64 \<Rightarrow> 's \<Rightarrow> 's" where
  "default_forget ino nlookup s = s"

definition default_listxattr :: "ino \<Rightarrow> 's \<Rightarrow> os_string list fs_result \<times> 's" where
  "default_listxattr ino s = (Inr [], s)"

definition default_getxattr :: "ino \<Rightarrow> os_string \<Rightarrow> 's \<Rightarrow> bytes fs_result \<times> 's" where
  "default_getxattr ino name s = (Inl NoXattr, s)"

definition default_statfs :: "'s \<Rightarrow> stat_fs fs_result \<times> 's" where
  "default_statfs s = (Inr stat_fs_default, s)"

section \<open>Recording the calls\<close>

text \<open>
  An implementation that does what another does and records every call in order. A
  backend cannot tell the two apart, so what it calls is what the record shows.
\<close>

datatype fs_call =
    CLookup ino os_string | CGetattr ino | CReaddir ino u64 | COpen ino
  | CReadAt file_handle u64 nat | CRelease file_handle | CForget ino u64
  | CListxattr ino | CGetxattr ino os_string | CStatfs

definition log_call :: "fs_call \<Rightarrow> ('s \<Rightarrow> 'a \<times> 's) \<Rightarrow> 's \<times> fs_call list \<Rightarrow> 'a \<times> 's \<times> fs_call list" where
  "log_call c f st = (case st of (s, tr) \<Rightarrow> (case f s of (r, s) \<Rightarrow> (r, s, tr @ [c])))"

definition traced :: "'s read_only_fs \<Rightarrow> ('s \<times> fs_call list) read_only_fs" where
  "traced fs =
     \<lparr>fs_lookup = (\<lambda>p n. log_call (CLookup p n) (fs_lookup fs p n)),
      fs_getattr = (\<lambda>i. log_call (CGetattr i) (fs_getattr fs i)),
      fs_readdir = (\<lambda>i off. log_call (CReaddir i off) (fs_readdir fs i off)),
      fs_open = (\<lambda>i. log_call (COpen i) (fs_open fs i)),
      fs_read_at = (\<lambda>fh off buf. log_call (CReadAt fh off (length buf)) (fs_read_at fs fh off buf)),
      fs_release = (\<lambda>fh. log_call (CRelease fh) (fs_release fs fh)),
      fs_forget = (\<lambda>i n (s, tr). (fs_forget fs i n s, tr @ [CForget i n])),
      fs_listxattr = (\<lambda>i. log_call (CListxattr i) (fs_listxattr fs i)),
      fs_getxattr = (\<lambda>i n. log_call (CGetxattr i n) (fs_getxattr fs i n)),
      fs_statfs = log_call CStatfs (fs_statfs fs)\<rparr>"

lemma log_call_eq [simp]: "log_call c f (s, tr) = (case f s of (r, s) \<Rightarrow> (r, s, tr @ [c]))"
  by (simp add: log_call_def)

lemma traced_sel [simp]:
  "fs_lookup (traced fs) p n = log_call (CLookup p n) (fs_lookup fs p n)"
  "fs_getattr (traced fs) i = log_call (CGetattr i) (fs_getattr fs i)"
  "fs_readdir (traced fs) i off = log_call (CReaddir i off) (fs_readdir fs i off)"
  "fs_open (traced fs) i = log_call (COpen i) (fs_open fs i)"
  "fs_read_at (traced fs) fh off buf = log_call (CReadAt fh off (length buf)) (fs_read_at fs fh off buf)"
  "fs_release (traced fs) fh = log_call (CRelease fh) (fs_release fs fh)"
  "fs_statfs (traced fs) = log_call CStatfs (fs_statfs fs)"
  by (simp_all add: traced_def)

lemma read_at_buf_traced [simp]:
  "read_at_buf (traced fs) fh off buf (s, tr) =
     (case read_at_buf fs fh off buf s of (r, s) \<Rightarrow> (r, s, tr @ [CReadAt fh off (length buf)]))"
  by (simp add: read_at_buf_def split: prod.splits)

lemma read_at_buf_length: "read_at_buf fs fh off buf s = ((r, buf'), s') \<Longrightarrow> length buf' = length buf"
  by (auto simp: read_at_buf_def split: prod.splits)

section \<open>The contract of an implementation\<close>

text \<open>
  What a mount shows: what every name resolves to, the attributes of every live inode, the
  entries of every directory in order, the bytes of every file. It does not change for the
  life of the mount.
\<close>

record fs_view =
  view_lookup :: "ino \<Rightarrow> os_string \<Rightarrow> file_attr option"
  view_attr :: "ino \<Rightarrow> file_attr option"
  view_list :: "ino \<Rightarrow> dir_entry list option"
  view_data :: "ino \<Rightarrow> bytes option"

text \<open>
  What the documentation of \<open>ReadOnlyFs\<close> asks for: \<open>inv\<close> is the implementation's own
  invariant, \<open>view\<close> what its state shows and \<open>live\<close> the handles open in it.
\<close>

locale ro_fs =
  fixes fs :: "'s read_only_fs"
    and inv :: "'s \<Rightarrow> bool"
    and view :: "'s \<Rightarrow> fs_view"
    and live :: "'s \<Rightarrow> file_handle \<Rightarrow> ino option"
  assumes lookup_eq: "inv s \<Longrightarrow> fs_lookup fs p nm s = (rl, s') \<Longrightarrow>
      inv s' \<and> view s' = view s \<and> live s' = live s \<and>
      view_lookup (view s) p nm = (case rl of Inr a \<Rightarrow> Some a | Inl _ \<Rightarrow> None)"
    and lookup_attr: "inv s \<Longrightarrow> view_lookup (view s) p nm = Some a \<Longrightarrow>
      view_attr (view s) (attr_ino a) = Some a"
    and lookup_listed: "inv s \<Longrightarrow> view_list (view s) p = Some es \<Longrightarrow> e \<in> set es \<Longrightarrow>
      \<exists>a. view_lookup (view s) p (entry_name e) = Some a \<and> attr_ino a = entry_ino e"
    and getattr_eq: "inv s \<Longrightarrow> fs_getattr fs i s = (ra, s') \<Longrightarrow>
      inv s' \<and> view s' = view s \<and> live s' = live s \<and>
      ra = (case view_attr (view s) i of Some a \<Rightarrow> Inr a | None \<Rightarrow> Inl NotFound)"
    and readdir_keeps: "inv s \<Longrightarrow> fs_readdir fs i off s = (rd, s') \<Longrightarrow>
      inv s' \<and> view s' = view s \<and> live s' = live s"
    and readdir_page: "inv s \<Longrightarrow> view_list (view s) i = Some es \<Longrightarrow> fs_readdir fs i off s = (rd, s') \<Longrightarrow>
      \<exists>n. rd = Inr (take n (drop (unat off) es)) \<and> (unat off < length es \<longrightarrow> 0 < n)"
    and open_file: "inv s \<Longrightarrow> view_data (view s) i = Some d \<Longrightarrow> fs_open fs i s = (rh, s') \<Longrightarrow>
      inv s' \<and> view s' = view s \<and> (\<exists>fh. rh = Inr fh \<and> live s' = (live s)(fh \<mapsto> i))"
    and read_at_eq: "inv s \<Longrightarrow> live s fh = Some i \<Longrightarrow> view_data (view s) i = Some d \<Longrightarrow>
      read_at_buf fs fh off buf s = ((rn, buf'), s') \<Longrightarrow>
      inv s' \<and> view s' = view s \<and> live s' = live s \<and>
      rn = Inr (min (length buf) (length d - unat off)) \<and>
      take (min (length buf) (length d - unat off)) buf' =
        take (length buf) (drop (unat off) d)"
    and release_live: "inv s \<Longrightarrow> fs_release fs fh s = (ru, s') \<Longrightarrow>
      inv s' \<and> view s' = view s \<and> live s' = (live s)(fh := None)"
    and list_short: "inv s \<Longrightarrow> view_list (view s) i = Some es \<Longrightarrow> length es < 2 ^ 63"
    and data_size: "inv s \<Longrightarrow> view_data (view s) i = Some d \<Longrightarrow>
      \<exists>a. view_attr (view s) i = Some a \<and> unat (attr_size a) = length d"
begin

lemma getattr_listed:
  assumes "inv s" "view_list (view s) p = Some es" "e \<in> set es"
  shows "\<exists>a. view_attr (view s) (entry_ino e) = Some a \<and> attr_ino a = entry_ino e"
  using lookup_listed [OF assms] lookup_attr [OF assms(1)] by metis

lemma readdir_end:
  assumes "inv s" "view_list (view s) i = Some es" "fs_readdir fs i off s = (r, s')"
  shows "r = Inr [] \<longleftrightarrow> length es \<le> unat off"
  using readdir_page [OF assms] by (auto simp: not_le)

end

text \<open>The states that show what \<open>s\<close> shows, with the same handles open, or with none more.\<close>

definition unchanged ::
  "('s \<Rightarrow> bool) \<Rightarrow> ('s \<Rightarrow> fs_view) \<Rightarrow> ('s \<Rightarrow> file_handle \<Rightarrow> ino option) \<Rightarrow> 's \<Rightarrow> 's \<Rightarrow> bool" where
  "unchanged I view live s s' \<longleftrightarrow> I s' \<and> view s' = view s \<and> live s' = live s"

definition no_more_open ::
  "('s \<Rightarrow> bool) \<Rightarrow> ('s \<Rightarrow> fs_view) \<Rightarrow> ('s \<Rightarrow> file_handle \<Rightarrow> ino option) \<Rightarrow> 's \<Rightarrow> 's \<Rightarrow> bool" where
  "no_more_open I view live s s' \<longleftrightarrow> I s' \<and> view s' = view s \<and> live s' \<subseteq>\<^sub>m live s"

lemma unchanged_refl: "I s \<Longrightarrow> unchanged I view live s s"
  by (simp add: unchanged_def)

lemma no_more_open_refl: "I s \<Longrightarrow> no_more_open I view live s s"
  by (simp add: no_more_open_def)

lemma unchanged_no_more: "unchanged I view live s s' \<Longrightarrow> no_more_open I view live s s'"
  by (simp add: unchanged_def no_more_open_def)

lemma no_more_open_trans:
  "no_more_open I view live s s1 \<Longrightarrow> no_more_open I view live s1 s2 \<Longrightarrow> no_more_open I view live s s2"
  by (auto simp: no_more_open_def intro: map_le_trans)

text \<open>
  The contract of calls that fail: also such a call, or one that reads through a handle that is
  not open, changes nothing that is shown.
\<close>

locale ro_fs_stable = ro_fs fs inv view live
  for fs :: "'s read_only_fs" and inv view live +
  assumes open_keeps: "inv s \<Longrightarrow> fs_open fs i s = (rh, s') \<Longrightarrow>
      inv s' \<and> view s' = view s \<and> live s' = (case rh of Inl _ \<Rightarrow> live s | Inr fh \<Rightarrow> (live s)(fh \<mapsto> i))"
    and read_keeps: "inv s \<Longrightarrow> fs_read_at fs fh off buf s = (rb, s') \<Longrightarrow>
      inv s' \<and> view s' = view s \<and> live s' = live s"
    and statfs_keeps: "inv s \<Longrightarrow> fs_statfs fs s = (rf, s') \<Longrightarrow>
      inv s' \<and> view s' = view s \<and> live s' = live s"
begin

lemma calls_unchanged:
  assumes "unchanged inv view live s0 s"
  shows "fs_lookup fs p nm s = (rl, s') \<Longrightarrow> unchanged inv view live s0 s'"
    and "fs_getattr fs i s = (ra, s') \<Longrightarrow> unchanged inv view live s0 s'"
    and "fs_readdir fs i off s = (rd, s') \<Longrightarrow> unchanged inv view live s0 s'"
    and "fs_statfs fs s = (rf, s') \<Longrightarrow> unchanged inv view live s0 s'"
    and "read_at_buf fs fh off buf s = (rb, s') \<Longrightarrow> unchanged inv view live s0 s'"
  using assms unfolding unchanged_def read_at_buf_def
  by (auto dest: lookup_eq getattr_eq readdir_keeps statfs_keeps read_keeps split: prod.splits)

end

text \<open>Listing what is not a directory fails: a file, or an inode that names nothing.\<close>

locale ro_fs_dirs = ro_fs_stable fs inv view live
  for fs :: "'s read_only_fs" and inv view live +
  assumes readdir_refuses: "inv s \<Longrightarrow> view_list (view s) i = None \<Longrightarrow> fs_readdir fs i off s = (rd, s') \<Longrightarrow> isl rd"

text \<open>Forgetting an inode and reading extended attributes change nothing either.\<close>

locale ro_fs_full = ro_fs_stable fs inv view live
  for fs :: "'s read_only_fs" and inv view live +
  assumes forget_keeps: "inv s \<Longrightarrow>
      inv (fs_forget fs i n s) \<and> view (fs_forget fs i n s) = view s \<and> live (fs_forget fs i n s) = live s"
    and listxattr_keeps: "inv s \<Longrightarrow> fs_listxattr fs i s = (rx, s') \<Longrightarrow>
      inv s' \<and> view s' = view s \<and> live s' = live s"
    and getxattr_keeps: "inv s \<Longrightarrow> fs_getxattr fs i nm s = (rg, s') \<Longrightarrow>
      inv s' \<and> view s' = view s \<and> live s' = live s"

end
