(* ===== verification/Mem_Fs.thy ===== *)
theory Mem_Fs
  imports Read_Only_Fs "HOL-Library.List_Lexorder"
begin

text \<open>
  The in-memory filesystem of \<open>examples/memfs.rs\<close>, the implementation of \<open>ReadOnlyFs\<close> the
  crate ships: its nodes, the handles open on them, and every method it provides. A
  \<open>BTreeMap\<close> is its entries in key order; the \<open>Mutex\<close> around the open files is the map it
  guards and whether a panic has poisoned it. Its contract \<open>ro_fs\<close> is discharged at the
  end, for every well-formed tree and in particular for the one \<open>MemFs::new\<close> builds.
\<close>

section \<open>BTreeMap\<close>

type_synonym 'v btree = "(os_string \<times> 'v) list"

fun btree_insert :: "os_string \<Rightarrow> 'v \<Rightarrow> 'v btree \<Rightarrow> 'v btree" where
  "btree_insert k v [] = [(k, v)]"
| "btree_insert k v ((k', v') # t) =
     (if k < k' then (k, v) # (k', v') # t
      else if k = k' then (k, v) # t
      else (k', v') # btree_insert k v t)"

definition btree_ok :: "'v btree \<Rightarrow> bool" where
  "btree_ok t \<longleftrightarrow> sorted_wrt (<) (map fst t)"

lemma set_btree_insert: "set (map fst (btree_insert k v t)) = insert k (set (map fst t))"
  by (induction k v t rule: btree_insert.induct) auto

lemma btree_ok_insert: "btree_ok t \<Longrightarrow> btree_ok (btree_insert k v t)"
  using set_btree_insert [of k v]
  by (induction k v t rule: btree_insert.induct) (auto simp: btree_ok_def)

lemma map_of_btree_insert: "btree_ok t \<Longrightarrow> map_of (btree_insert k v t) = (map_of t)(k \<mapsto> v)"
  by (induction k v t rule: btree_insert.induct) (auto simp: btree_ok_def fun_eq_iff)

lemma btree_ok_distinct: "btree_ok t \<Longrightarrow> distinct (map fst t)"
  unfolding btree_ok_def by (simp add: strict_sorted_iff)

section \<open>The tree\<close>

datatype node = Dir "ino btree" | FileNode bytes

record mem_fs =
  nodes :: "ino \<Rightarrow> node option"
  parents :: "ino \<Rightarrow> ino option"
  open_files :: "file_handle \<Rightarrow> ino option"
  mutex_poisoned :: bool
  next_handle :: u64

definition numbers_txt :: bytes where
  "numbers_txt = ascii (concat (map (\<lambda>n. decimal n @ [CHR 0x0A]) [1..<101]))"

definition mem_fs_new :: mem_fs where
  "mem_fs_new =
     (let nd = Map.empty;
          nd = nd(Ino 2 \<mapsto> FileNode (ascii (''Hello from anymount!'' @ [CHR 0x0A])));
          nd = nd(Ino 3 \<mapsto> FileNode numbers_txt);
          nd = nd(Ino 5 \<mapsto> FileNode (ascii (''I am nested.'' @ [CHR 0x0A])));
          subdir = [];
          subdir = btree_insert (ascii ''nested.txt'') (Ino 5) subdir;
          nd = nd(Ino 4 \<mapsto> Dir subdir);
          root = [];
          root = btree_insert (ascii ''hello.txt'') (Ino 2) root;
          root = btree_insert (ascii ''numbers.txt'') (Ino 3) root;
          root = btree_insert (ascii ''subdir'') (Ino 4) root;
          nd = nd(ROOT_INO \<mapsto> Dir root);
          ps = Map.empty;
          ps = ps(ROOT_INO \<mapsto> ROOT_INO);
          ps = ps(Ino 4 \<mapsto> ROOT_INO)
      in \<lparr>nodes = nd, parents = ps, open_files = Map.empty, mutex_poisoned = False, next_handle = 1\<rparr>)"

definition mem_node :: "mem_fs \<Rightarrow> ino \<Rightarrow> node fs_result" where
  "mem_node s ino = (case nodes s ino of None \<Rightarrow> Inl NotFound | Some n \<Rightarrow> Inr n)"

definition mem_attr :: "u32 \<Rightarrow> u32 \<Rightarrow> mem_fs \<Rightarrow> ino \<Rightarrow> file_attr fs_result" where
  "mem_attr uid gid s ino =
     (case mem_node s ino of
        Inl e \<Rightarrow> Inl e
      | Inr (Dir _) \<Rightarrow> Inr (file_attr_dir uid gid ino)
      | Inr (FileNode data) \<Rightarrow> Inr (file_attr_file uid gid ino (of_nat (length data))))"

section \<open>The methods\<close>

definition mem_lookup :: "u32 \<Rightarrow> u32 \<Rightarrow> ino \<Rightarrow> os_string \<Rightarrow> mem_fs \<Rightarrow> file_attr fs_result \<times> mem_fs" where
  "mem_lookup uid gid parent name s =
     (if name = ascii ''.'' then (mem_attr uid gid s parent, s)
      else if name = ascii ''..'' then
        (case parents s parent of
           None \<Rightarrow> (Inl NotFound, s)
         | Some p \<Rightarrow> (mem_attr uid gid s p, s))
      else
        (case mem_node s parent of
           Inl e \<Rightarrow> (Inl e, s)
         | Inr (FileNode _) \<Rightarrow> (Inl NotADirectory, s)
         | Inr (Dir children) \<Rightarrow>
             (case map_of children name of
                None \<Rightarrow> (Inl NotFound, s)
              | Some ino \<Rightarrow> (mem_attr uid gid s ino, s))))"

definition mem_getattr :: "u32 \<Rightarrow> u32 \<Rightarrow> ino \<Rightarrow> mem_fs \<Rightarrow> file_attr fs_result \<times> mem_fs" where
  "mem_getattr uid gid ino s = (mem_attr uid gid s ino, s)"

fun mem_entries :: "mem_fs \<Rightarrow> ino btree \<Rightarrow> dir_entry list fs_result" where
  "mem_entries s [] = Inr []"
| "mem_entries s ((name, child) # rest) =
     (case mem_node s child of
        Inl e \<Rightarrow> Inl e
      | Inr n \<Rightarrow>
          (let entry = \<lparr>entry_ino = child, entry_name = name,
                        entry_kind = (case n of Dir _ \<Rightarrow> Directory | FileNode _ \<Rightarrow> File)\<rparr>
           in case mem_entries s rest of Inl e \<Rightarrow> Inl e | Inr es \<Rightarrow> Inr (entry # es)))"

definition mem_readdir :: "ino \<Rightarrow> u64 \<Rightarrow> mem_fs \<Rightarrow> dir_entry list fs_result \<times> mem_fs" where
  "mem_readdir ino offset s =
     (case mem_node s ino of
        Inl e \<Rightarrow> (Inl e, s)
      | Inr (FileNode _) \<Rightarrow> (Inl NotADirectory, s)
      | Inr (Dir children) \<Rightarrow> (mem_entries s (drop (unat offset) children), s))"

definition mutex_error :: fs_error where
  "mutex_error = Other ''open_files mutex poisoned''"

definition mem_open :: "ino \<Rightarrow> mem_fs \<Rightarrow> file_handle fs_result \<times> mem_fs" where
  "mem_open ino s =
     (case mem_node s ino of
        Inl e \<Rightarrow> (Inl e, s)
      | Inr (Dir _) \<Rightarrow> (Inl IsADirectory, s)
      | Inr (FileNode _) \<Rightarrow>
          (let fh = FileHandle (next_handle s);
               s = s\<lparr>next_handle := next_handle s + 1\<rparr>
           in if mutex_poisoned s then (Inl mutex_error, s)
              else (Inr fh, s\<lparr>open_files := (open_files s)(fh \<mapsto> ino)\<rparr>)))"

definition mem_read_at ::
  "file_handle \<Rightarrow> u64 \<Rightarrow> bytes \<Rightarrow> mem_fs \<Rightarrow> (usize fs_result \<times> bytes) \<times> mem_fs" where
  "mem_read_at fh offset buf s =
     (if mutex_poisoned s then ((Inl mutex_error, buf), s)
      else
        (case open_files s fh of
           None \<Rightarrow> ((Inl InvalidArgument, buf), s)
         | Some ino \<Rightarrow>
             (case mem_node s ino of
                Inl e \<Rightarrow> ((Inl e, buf), s)
              | Inr (Dir _) \<Rightarrow> ((Inl IsADirectory, buf), s)
              | Inr (FileNode data) \<Rightarrow>
                  (let start = min (unat offset) (length data);
                       n = min (length buf) (length data - start);
                       buf = take n (drop start data) @ drop n buf
                   in ((Inr n, buf), s)))))"

definition mem_release :: "file_handle \<Rightarrow> mem_fs \<Rightarrow> unit fs_result \<times> mem_fs" where
  "mem_release fh s =
     (if mutex_poisoned s then (Inl mutex_error, s)
      else (Inr (), s\<lparr>open_files := (open_files s)(fh := None)\<rparr>))"

definition mem_impl :: "u32 \<Rightarrow> u32 \<Rightarrow> mem_fs read_only_fs" where
  "mem_impl uid gid =
     \<lparr>fs_lookup = mem_lookup uid gid, fs_getattr = mem_getattr uid gid, fs_readdir = mem_readdir,
      fs_open = mem_open, fs_read_at = mem_read_at, fs_release = mem_release,
      fs_forget = default_forget, fs_listxattr = default_listxattr,
      fs_getxattr = default_getxattr, fs_statfs = default_statfs\<rparr>"

lemma mem_impl_sel [simp]:
  "fs_lookup (mem_impl u g) = mem_lookup u g" "fs_getattr (mem_impl u g) = mem_getattr u g"
  "fs_readdir (mem_impl u g) = mem_readdir" "fs_open (mem_impl u g) = mem_open"
  "fs_read_at (mem_impl u g) = mem_read_at" "fs_release (mem_impl u g) = mem_release"
  "fs_statfs (mem_impl u g) = default_statfs"
  by (simp_all add: mem_impl_def)

section \<open>Well-formed trees\<close>

definition dir_ok :: "mem_fs \<Rightarrow> ino btree \<Rightarrow> bool" where
  "dir_ok s ch \<longleftrightarrow> btree_ok ch \<and> length ch < 2 ^ 63 \<and>
     (\<forall>(name, child) \<in> set ch. name \<noteq> ascii ''.'' \<and> name \<noteq> ascii ''..'' \<and> nodes s child \<noteq> None)"

fun node_ok :: "mem_fs \<Rightarrow> node \<Rightarrow> bool" where
  "node_ok s (Dir ch) \<longleftrightarrow> dir_ok s ch"
| "node_ok s (FileNode d) \<longleftrightarrow> length d < 2 ^ 63"

definition mem_inv :: "mem_fs \<Rightarrow> bool" where
  "mem_inv s \<longleftrightarrow> \<not> mutex_poisoned s \<and> (\<forall>i n. nodes s i = Some n \<longrightarrow> node_ok s n)"

definition mem_entry :: "mem_fs \<Rightarrow> os_string \<times> ino \<Rightarrow> dir_entry" where
  "mem_entry s nc = \<lparr>entry_ino = snd nc, entry_name = fst nc,
     entry_kind = (case nodes s (snd nc) of Some (Dir _) \<Rightarrow> Directory | _ \<Rightarrow> File)\<rparr>"

definition mem_view :: "u32 \<Rightarrow> u32 \<Rightarrow> mem_fs \<Rightarrow> fs_view" where
  "mem_view uid gid s =
     \<lparr>view_lookup = (\<lambda>p nm. case fst (mem_lookup uid gid p nm s) of Inl _ \<Rightarrow> None | Inr a \<Rightarrow> Some a),
      view_attr = (\<lambda>i. case mem_attr uid gid s i of Inl _ \<Rightarrow> None | Inr a \<Rightarrow> Some a),
      view_list = (\<lambda>i. case nodes s i of Some (Dir ch) \<Rightarrow> Some (map (mem_entry s) ch) | _ \<Rightarrow> None),
      view_data = (\<lambda>i. case nodes s i of Some (FileNode d) \<Rightarrow> Some d | _ \<Rightarrow> None)\<rparr>"

lemma mem_entries_eq:
  "\<forall>(name, child) \<in> set ch. nodes s child \<noteq> None \<Longrightarrow>
   mem_entries s ch = Inr (map (mem_entry s) ch)"
  by (induction ch rule: mem_entries.induct)
    (auto simp: mem_entry_def mem_node_def split: option.splits node.splits)

lemma mem_attr_ino: "mem_attr u g s i = Inr a \<Longrightarrow> attr_ino a = i"
  by (auto simp: mem_attr_def split: sum.splits node.splits)

lemma mem_inv_node: "mem_inv s \<Longrightarrow> nodes s i = Some n \<Longrightarrow> node_ok s n"
  by (simp add: mem_inv_def)

lemma mem_view_cong:
  assumes "nodes s' = nodes s" "parents s' = parents s"
  shows "mem_view u g s' = mem_view u g s"
proof -
  have a: "mem_attr u g s' = mem_attr u g s" "mem_entry s' = mem_entry s"
    by (intro ext; simp add: mem_attr_def mem_node_def mem_entry_def assms)+
  have "fst (mem_lookup u g p nm s') = fst (mem_lookup u g p nm s)" for p nm
    unfolding mem_lookup_def mem_node_def a assms by (simp split: option.splits node.splits)
  then show ?thesis unfolding mem_view_def a assms by simp
qed

lemma mem_inv_cong:
  assumes "nodes s' = nodes s" "mutex_poisoned s' = mutex_poisoned s"
  shows "mem_inv s' = mem_inv s"
proof -
  have "node_ok s' n = node_ok s n" for n
    using assms(1) by (cases n) (simp_all add: dir_ok_def)
  with assms show ?thesis by (simp add: mem_inv_def)
qed

lemma mem_inv_lock: "mem_inv s \<Longrightarrow> \<not> mutex_poisoned s"
  by (simp add: mem_inv_def)

section \<open>The contract\<close>

lemma mem_readdir_eq:
  assumes "mem_inv s" "nodes s i = Some (Dir ch)"
  shows "mem_readdir i off s = (Inr (drop (unat off) (map (mem_entry s) ch)), s)"
proof -
  from mem_inv_node [OF assms] have "\<forall>(name, child) \<in> set (drop (unat off) ch). nodes s child \<noteq> None"
    by (auto simp: dir_ok_def dest: in_set_dropD)
  then show ?thesis using assms(2) by (simp add: mem_readdir_def mem_node_def mem_entries_eq drop_map)
qed

lemma mem_view_list:
  "view_list (mem_view u g s) i = Some es \<longleftrightarrow>
     (\<exists>ch. nodes s i = Some (Dir ch) \<and> es = map (mem_entry s) ch)"
  by (auto simp: mem_view_def split: option.splits node.splits)

lemma mem_view_data:
  "view_data (mem_view u g s) i = Some d \<longleftrightarrow> nodes s i = Some (FileNode d)"
  by (auto simp: mem_view_def split: option.splits node.splits)

lemma mem_view_attr:
  "view_attr (mem_view u g s) i = Some a \<longleftrightarrow> mem_attr u g s i = Inr a"
  by (auto simp: mem_view_def split: sum.splits)

lemma mem_lookup_listed:
  assumes inv: "mem_inv s" and p: "nodes s p = Some (Dir ch)" and nc: "(name, child) \<in> set ch"
  shows "\<exists>a. mem_lookup u g p name s = (Inr a, s) \<and> attr_ino a = child"
proof -
  from mem_inv_node [OF inv p] nc
  have ok: "btree_ok ch" "name \<noteq> ascii ''.''" "name \<noteq> ascii ''..''" "nodes s child \<noteq> None"
    by (auto simp: dir_ok_def)
  from ok(1) nc have "map_of ch name = Some child" by (simp add: btree_ok_distinct)
  with ok p show ?thesis
    by (auto simp: mem_lookup_def mem_node_def mem_attr_def split: option.splits node.splits)
qed

lemma mem_lookup_state: "mem_lookup u g p name s = (r, s') \<Longrightarrow> s' = s"
  by (auto simp: mem_lookup_def split: if_splits option.splits sum.splits node.splits)

lemma mem_view_lookup:
  "view_lookup (mem_view u g s) p nm = Some a \<longleftrightarrow> mem_lookup u g p nm s = (Inr a, s)"
  by (auto simp: mem_view_def split: sum.splits dest: mem_lookup_state)
    (metis mem_lookup_state prod.collapse)

lemma mem_lookup_attr: "mem_lookup u g p name s = (Inr a, s') \<Longrightarrow> mem_attr u g s (attr_ino a) = Inr a"
  by (auto simp: mem_lookup_def split: if_splits option.splits sum.splits node.splits
      dest: mem_attr_ino)

lemma mem_attr_not_found: "mem_attr u g s i = Inl e \<Longrightarrow> e = NotFound"
  by (auto simp: mem_attr_def mem_node_def split: option.splits node.splits)

lemma mem_read_at_buf_eq:
  assumes "mem_inv s" "open_files s fh = Some i" "nodes s i = Some (FileNode d)"
  shows "read_at_buf (mem_impl u g) fh off buf s =
    ((Inr (min (length buf) (length d - unat off)),
      take (length buf) (drop (unat off) d) @ drop (length d - unat off) buf), s)"
proof -
  have start: "length d - min (unat off) (length d) = length d - unat off" by simp
  have "drop (min (unat off) (length d)) d = drop (unat off) d" by (simp add: min_def)
  moreover have "take (min (length buf) (length d - unat off)) (drop (unat off) d) =
      take (length buf) (drop (unat off) d)" by (simp add: min_def)
  ultimately show ?thesis using assms
    by (simp add: read_at_buf_def mem_read_at_def mem_node_def mem_inv_def slice_overwrite_def
        start Let_def min_def split: if_splits)
qed

interpretation memfs: ro_fs "mem_impl uid gid" mem_inv "mem_view uid gid" open_files for uid gid
proof (unfold_locales, goal_cases)
  case (1 s p nm rl s')
  then show ?case by (auto simp: mem_view_def dest: mem_lookup_state split: sum.splits)
next
  case (2 s p nm a)
  then show ?case by (simp add: mem_view_attr mem_view_lookup mem_lookup_attr)
next
  case (3 s p es e)
  then show ?case using mem_lookup_listed [OF 3(1)]
    by (fastforce simp: mem_view_list mem_view_lookup mem_entry_def)
next
  case (4 s i ra s')
  then show ?case
    by (auto simp: mem_getattr_def mem_view_def dest: mem_attr_not_found split: sum.splits)
next
  case (5 s i off rd s')
  then show ?case by (auto simp: mem_readdir_def split: sum.splits node.splits)
next
  case (6 s i es off rd s')
  then show ?case by (auto simp: mem_view_list mem_readdir_eq intro!: exI [of _ "length es"])
next
  case (7 s i d rh s')
  then show ?case
    by (auto simp: mem_view_data mem_open_def mem_node_def mem_inv_lock Let_def
        intro: mem_view_cong mem_inv_cong [THEN iffD2])
next
  case (8 s fh i d off buf rn buf' s')
  then show ?case by (auto simp: mem_view_data mem_read_at_buf_eq min_def)
next
  case (9 s fh ru s')
  then show ?case
    by (auto simp: mem_release_def mem_inv_lock
        intro: mem_view_cong mem_inv_cong [THEN iffD2])
next
  case (10 s i es)
  then show ?case by (auto simp: mem_view_list dest!: mem_inv_node simp: dir_ok_def)
next
  case (11 s i d)
  then show ?case
    by (auto simp: mem_view_data mem_view_attr mem_attr_def mem_node_def unat_of_nat
        dest!: mem_inv_node)
qed

interpretation memfs_stable: ro_fs_stable "mem_impl uid gid" mem_inv "mem_view uid gid" open_files for uid gid
proof (unfold_locales, goal_cases)
  case (1 s i rh s')
  then show ?case
    by (auto simp: mem_open_def Let_def mem_inv_lock split: sum.splits node.splits
        intro: mem_view_cong mem_inv_cong [THEN iffD2])
next
  case (2 s fh off buf rb s')
  then show ?case
    by (auto simp: mem_read_at_def mem_inv_lock Let_def split: option.splits sum.splits node.splits)
next
  case (3 s rf s')
  then show ?case by (simp add: default_statfs_def)
qed

interpretation memfs_dirs: ro_fs_dirs "mem_impl uid gid" mem_inv "mem_view uid gid" open_files for uid gid
  by unfold_locales
    (auto simp: mem_view_def mem_readdir_def mem_node_def split: option.splits node.splits)

interpretation memfs_full: ro_fs_full "mem_impl uid gid" mem_inv "mem_view uid gid" open_files for uid gid
  by unfold_locales
    (auto simp: mem_impl_def default_forget_def default_listxattr_def default_getxattr_def)

lemma length_decimal: "length (decimal n) \<le> Suc n"
proof (induction n rule: decimal.induct)
  case (1 n)
  then show ?case by (subst decimal.simps) auto
qed

lemma length_concat_bound: "\<forall>x \<in> set xs. length x \<le> b \<Longrightarrow> length (concat xs) \<le> length xs * b"
  by (induction xs) auto

lemma length_numbers_txt: "length numbers_txt \<le> 100 * 102"
  unfolding numbers_txt_def length_ascii
  by (rule order_trans [OF length_concat_bound [where b = 102]])
    (auto intro: order_trans [OF length_decimal])

lemma mem_fs_new_inv: "mem_inv mem_fs_new"
  using length_numbers_txt
  by (auto simp: mem_inv_def mem_fs_new_def Let_def dir_ok_def btree_ok_def ROOT_INO_def ascii_def
      split: if_splits)

lemma mem_fs_new_nodes:
  "nodes mem_fs_new ROOT_INO =
     Some (Dir [(ascii ''hello.txt'', Ino 2), (ascii ''numbers.txt'', Ino 3), (ascii ''subdir'', Ino 4)])"
  "nodes mem_fs_new (Ino 5) = Some (FileNode (ascii (''I am nested.'' @ [CHR 0x0A])))"
  "open_files mem_fs_new = Map.empty" "next_handle mem_fs_new = 1"
  by (simp_all add: mem_fs_new_def Let_def ROOT_INO_def ascii_def)

text \<open>An entry a directory lists is what \<open>lookup\<close> in that directory returns for its name.\<close>

definition entry_resolves :: "u32 \<Rightarrow> u32 \<Rightarrow> ino \<Rightarrow> mem_fs \<Rightarrow> dir_entry \<Rightarrow> bool" where
  "entry_resolves uid gid dir s e =
     (case mem_lookup uid gid dir (entry_name e) s of
        (Inr a, s') \<Rightarrow> s' = s \<and> attr_ino a = entry_ino e \<and> attr_kind a = entry_kind e
      | (Inl _, _) \<Rightarrow> False)"

section \<open>Properties\<close>

text \<open>
  A handle is never handed out while it is open. As long as every open handle is below
  the counter and the counter has not reached the last 64-bit value, opening a file
  returns a handle that was not open, opens exactly that handle on exactly that file, and
  leaves every open handle below the counter again.
\<close>

lemma mem_open_fresh:
  assumes "mem_inv s" "nodes s i = Some (FileNode d)"
    and "\<forall>fh \<in> dom (open_files s). fh_num fh < next_handle s" "next_handle s \<noteq> - 1"
  shows "\<exists>fh s'. mem_open i s = (Inr fh, s') \<and> open_files s fh = None \<and>
    open_files s' = (open_files s)(fh \<mapsto> i) \<and>
    (\<forall>fh \<in> dom (open_files s'). fh_num fh < next_handle s')"
proof -
  have step: "next_handle s < next_handle s + 1"
    using assms(4) by (simp add: word_less_nat_alt unatSuc word_neq_0_conv add.commute)
      (metis add.commute minus_unique unatSuc lessI)
  have "open_files s (FileHandle (next_handle s)) = None"
    using assms(3) by (force simp: dom_def)
  moreover have "fh_num fh < next_handle s + 1" if "fh \<in> dom (open_files s)" for fh
    using assms(3) that step by force
  ultimately show ?thesis
    using assms(1,2) step by (auto simp: mem_open_def mem_node_def mem_inv_lock Let_def)
qed

text \<open>
  What a directory lists, \<open>lookup\<close> finds. In a well-formed tree, at every offset, every
  entry a directory page returns is resolved by \<open>lookup\<close> in that directory to attributes
  with the same inode and the same kind, and a page at an offset is exactly the rest of the
  directory from there.
\<close>

lemma mem_listed_entries_resolve:
  assumes "mem_inv s" "nodes s i = Some (Dir ch)"
  shows "\<exists>es. mem_readdir i off s = (Inr es, s) \<and> map entry_name es = map fst (drop (unat off) ch) \<and>
    list_all (entry_resolves uid gid i s) es"
proof -
  let ?es = "drop (unat off) (map (mem_entry s) ch)"
  have "entry_resolves uid gid i s e" if "e \<in> set ?es" for e
  proof -
    from in_set_dropD [OF that] obtain name child
      where nc: "(name, child) \<in> set ch" "e = mem_entry s (name, child)" by auto
    from mem_lookup_listed [OF assms nc(1), of uid gid] obtain a where
      a: "mem_lookup uid gid i name s = (Inr a, s)" "attr_ino a = child" by blast
    from mem_lookup_attr [OF a(1)] a(2) have "mem_attr uid gid s child = Inr a" by simp
    then show ?thesis using a nc(2)
      by (auto simp: entry_resolves_def mem_entry_def mem_attr_def mem_node_def
          split: option.splits node.splits)
  qed
  then have "list_all (entry_resolves uid gid i s) ?es" unfolding list_all_iff by blast
  moreover have "map entry_name ?es = map fst (drop (unat off) ch)"
    by (simp add: drop_map comp_def mem_entry_def)
  ultimately show ?thesis using mem_readdir_eq [OF assms] by blast
qed

end
