(* ===== verification/Handle3.thy ===== *)
theory Handle3
  imports Anymount_Types
begin

text \<open>
  The NFS file handles of \<open>src/backend/nfs/handle.rs\<close>: the constant-time comparison, the
  codec of \<open>FileHandle3\<close> (a 16-byte secret followed by the inode number) and the value the
  MOUNT protocol checks. The secrets come from the operating system's random source, so
  they are arbitrary byte arrays of the right length here.

  The locale \<open>handle_codec\<close> is all the protocol layers rely on; its interpretation \<open>fh3\<close>
  discharges it for the codec.
\<close>

section \<open>Comparison\<close>

definition ct_eq :: "bytes \<Rightarrow> bytes \<Rightarrow> bool" where
  "ct_eq a b =
     (if length a \<noteq> length b then False
      else (let diff = fold (\<lambda>(x, y) diff. diff OR (x XOR y)) (zip a b) 0 in diff = 0))"

section \<open>FileHandle3\<close>

definition ENCODED_LEN :: usize where
  "ENCODED_LEN = 24"

definition COOKIEVERF :: bytes where
  "COOKIEVERF = replicate 8 0"

record file_handle3 =
  fh3_secret :: bytes

text \<open>\<open>secret: [u8; 16]\<close>\<close>

definition handle_ok :: "file_handle3 \<Rightarrow> bool" where
  "handle_ok h \<longleftrightarrow> length (fh3_secret h) = 16"

definition handle_from_secret :: "bytes \<Rightarrow> file_handle3" where
  "handle_from_secret secret = \<lparr>fh3_secret = secret\<rparr>"

definition handle_encode :: "file_handle3 \<Rightarrow> ino \<Rightarrow> bytes" where
  "handle_encode h ino =
     (let out = replicate ENCODED_LEN 0;
          out = fh3_secret h @ drop 16 out;
          out = take 16 out @ u64_to_be_bytes (ino_num ino)
      in out)"

definition handle_resolve :: "file_handle3 \<Rightarrow> bytes \<Rightarrow> ino option" where
  "handle_resolve h bs =
     (if length bs \<noteq> ENCODED_LEN \<or> \<not> ct_eq (take 16 bs) (fh3_secret h) then None
      else (case slice_get bs 16 24 of
              None \<Rightarrow> None
            | Some sl \<Rightarrow>
                (case try_into_array 8 sl of
                   None \<Rightarrow> None
                 | Some b \<Rightarrow> Some (Ino (u64_from_be_bytes b)))))"

definition cookieverf :: "file_handle3 \<Rightarrow> bytes" where
  "cookieverf h = COOKIEVERF"

section \<open>ExportSecret\<close>

record export_secret =
  export_hex :: bytes

definition hex_digit :: "u8 \<Rightarrow> u8" where
  "hex_digit d = (if d < 10 then 48 + d else 87 + d)"

definition hex_byte :: "u8 \<Rightarrow> bytes" where
  "hex_byte b = [hex_digit (b div 16), hex_digit (b mod 16)]"

definition export_from_secret :: "bytes \<Rightarrow> export_secret" where
  "export_from_secret secret = \<lparr>export_hex = concat (map hex_byte secret)\<rparr>"

definition export_matches :: "export_secret \<Rightarrow> bytes \<Rightarrow> bool" where
  "export_matches e candidate = ct_eq candidate (export_hex e)"

section \<open>Lemmas\<close>

lemma or_eq_0_iff: "(a :: 'a::len word) OR b = 0 \<longleftrightarrow> a = 0 \<and> b = 0"
  by (metis or.left_idem or.right_neutral or.commute)

lemma xor_eq_0_iff: "(a :: 'a::len word) XOR b = 0 \<longleftrightarrow> a = b"
  by (metis bit.xor_self xor.left_neutral xor.assoc xor.right_neutral)

lemma fold_diff_eq_0:
  "length a = length b \<Longrightarrow>
   fold (\<lambda>(x, y) diff. diff OR (x XOR y)) (zip a b) (d :: u8) = 0 \<longleftrightarrow> d = 0 \<and> a = b"
  by (induction a b arbitrary: d rule: list_induct2) (auto simp: or_eq_0_iff xor_eq_0_iff)

lemma ct_eq_iff: "ct_eq a b \<longleftrightarrow> a = b"
  by (auto simp: ct_eq_def fold_diff_eq_0)

lemma handle_encode_eq: "handle_ok h \<Longrightarrow> handle_encode h i = fh3_secret h @ u64_to_be_bytes (ino_num i)"
  by (simp add: handle_encode_def handle_ok_def ENCODED_LEN_def)

lemma handle_resolve_eq:
  "handle_ok h \<Longrightarrow> handle_resolve h bs =
     (if length bs = 24 \<and> take 16 bs = fh3_secret h
      then Some (Ino (u64_from_be_bytes (drop 16 bs))) else None)"
  by (auto simp: handle_resolve_def ENCODED_LEN_def ct_eq_iff slice_get_def try_into_array_def)

lemma length_cookieverf [simp]: "length (cookieverf h) = 8"
  by (simp add: cookieverf_def COOKIEVERF_def)

section \<open>The codec\<close>

locale handle_codec =
  fixes encode :: "'h \<Rightarrow> ino \<Rightarrow> bytes"
    and resolve :: "'h \<Rightarrow> bytes \<Rightarrow> ino option"
    and good :: "'h \<Rightarrow> bool"
  assumes length_encode: "good h \<Longrightarrow> length (encode h i) = 24"
    and resolve_encode: "good h \<Longrightarrow> resolve h (encode h i) = Some i"
    and resolve_sound: "good h \<Longrightarrow> resolve h bs = Some i \<Longrightarrow> bs = encode h i"
    and encode_inj_key: "good h \<Longrightarrow> good h' \<Longrightarrow> encode h i = encode h' i' \<Longrightarrow> h = h'"
begin

lemma resolve_iff: "good h \<Longrightarrow> resolve h bs = Some i \<longleftrightarrow> bs = encode h i"
  using resolve_encode resolve_sound by blast

lemma encode_inject: "good h \<Longrightarrow> encode h i = encode h j \<longleftrightarrow> i = j"
  by (metis resolve_encode option.inject)

lemma resolve_other: "good h \<Longrightarrow> good h' \<Longrightarrow> h \<noteq> h' \<Longrightarrow> resolve h' (encode h i) = None"
  by (metis encode_inj_key not_None_eq resolve_sound)

lemma resolve_None_iff: "good h \<Longrightarrow> resolve h bs = None \<longleftrightarrow> bs \<notin> range (encode h)"
  using resolve_iff [of h bs] by (cases "resolve h bs") auto

end

interpretation fh3: handle_codec handle_encode handle_resolve handle_ok
proof (unfold_locales, goal_cases)
  case (1 h i)
  then show ?case by (simp add: handle_encode_eq handle_ok_def)
next
  case (2 h i)
  then show ?case by (simp add: handle_encode_eq handle_resolve_eq handle_ok_def)
next
  case (3 h bs i)
  then show ?case
    by (auto simp: handle_encode_eq handle_resolve_eq u64_be_inverse split: if_splits
        dest: append_take_drop_id [of 16, THEN subst])
      (metis append_take_drop_id)
next
  case (4 h h' i i')
  then show ?case by (auto simp: handle_encode_eq handle_ok_def)
qed

section \<open>Rendering a secret\<close>

lemma hex_digit_inj: "a < 16 \<Longrightarrow> b < 16 \<Longrightarrow> hex_digit a = hex_digit b \<Longrightarrow> a = b"
  by (simp add: hex_digit_def word_less_nat_alt word_unat_eq_iff unat_word_ariths split: if_splits)

lemma div_mod_16: "(b :: u8) div 16 < 16" "(b :: u8) mod 16 < 16"
  using unat_below [of b] by (simp_all add: word_less_nat_alt unat_div unat_mod)

lemma hex_byte_inj: "hex_byte a = hex_byte b \<longleftrightarrow> a = b"
proof
  assume "hex_byte a = hex_byte b"
  then have "a div 16 = b div 16" "a mod 16 = b mod 16"
    by (auto simp: hex_byte_def intro: hex_digit_inj div_mod_16)
  then show "a = b" by (metis word_mod_div_equality)
qed simp

lemma length_hex_byte [simp]: "length (hex_byte b) = 2"
  by (simp add: hex_byte_def)

lemma concat_hex_byte_inj: "concat (map hex_byte a) = concat (map hex_byte b) \<Longrightarrow> a = b"
proof (induction a arbitrary: b)
  case Nil
  then show ?case by (cases b) (auto simp: hex_byte_def)
next
  case (Cons x a)
  then obtain y b' where b: "b = y # b'" by (cases b) (auto simp: hex_byte_def)
  with Cons.prems have "hex_byte x = hex_byte y" "concat (map hex_byte a) = concat (map hex_byte b')"
    by (simp_all add: append_eq_append_conv)
  with Cons.IH b show ?case by (simp add: hex_byte_inj)
qed

lemma length_export_hex [simp]: "length (export_hex (export_from_secret s)) = 2 * length s"
  by (simp add: export_from_secret_def length_concat comp_def sum_list_triv)

section \<open>Properties\<close>

text \<open>
  C20: A file handle names exactly one inode of exactly one mount. The handle of an inode
  resolves to that inode under the secret it was made with; any other byte string of any
  length, and any handle of a mount with another secret, resolves to nothing.
\<close>

theorem handle_resolve_exact:
  assumes "handle_ok h" "handle_ok h'"
  shows "(handle_resolve h bs = Some i \<longleftrightarrow> bs = handle_encode h i) \<and>
    handle_resolve h' (handle_encode h i) = (if h' = h then Some i else None)"
  using fh3.resolve_iff [OF assms(1)] fh3.resolve_encode [OF assms(1)] fh3.resolve_other [OF assms] by auto

theorem handle_resolve_exact_witness:
  "(handle_resolve \<lparr>fh3_secret = replicate 16 1\<rparr> [1, 2, 3] = Some (Ino 9) \<longleftrightarrow>
      [1, 2, 3] = handle_encode \<lparr>fh3_secret = replicate 16 1\<rparr> (Ino 9)) \<and>
   handle_resolve \<lparr>fh3_secret = replicate 16 2\<rparr> (handle_encode \<lparr>fh3_secret = replicate 16 1\<rparr> (Ino 9)) = None"
  using handle_resolve_exact [of "\<lparr>fh3_secret = replicate 16 1\<rparr>" "\<lparr>fh3_secret = replicate 16 2\<rparr>" "[1, 2, 3]" "Ino 9"]
  by (simp add: handle_ok_def)

text \<open>
  The constant-time comparison decides equality, for byte strings of any two lengths, and
  the export value of one secret is matched only by the rendering of that secret.
\<close>

lemma export_matches_exactly:
  "(ct_eq a b \<longleftrightarrow> a = b) \<and>
   (export_matches (export_from_secret s) (export_hex (export_from_secret s')) \<longleftrightarrow> s = s')"
  by (auto simp: ct_eq_iff export_matches_def export_from_secret_def dest: concat_hex_byte_inj)

end
