(* ===== verification/Rpc.thy ===== *)
theory Rpc
  imports Xdr Fs_Error
begin

text \<open>
  ONC RPC record marking and call and reply envelopes, \<open>src/backend/nfs/rpc.rs\<close>. A connection
  is what the peer will deliver, split into the pieces single \<open>read\<close> calls return and with
  the errors (a read timeout among them) in between, and what has been sent. The standard
  library's \<open>Read::read_exact\<close> and \<open>Write::write_all\<close> are modelled as the documentation of
  \<open>std::io\<close> describes them.
\<close>

section \<open>Streams\<close>

type_synonym 'a io_result = "io_error + 'a"

datatype chunk = Data bytes | Fail io_error

text \<open>
  \<open>send_limit\<close> is how many more bytes the peer takes before a write fails, \<open>None\<close> when
  writes never fail. What \<open>write_all\<close> and \<open>write_message\<close> give here is what they give when
  they return; a peer that neither reads nor closes keeps the thread in them, which is a matter of
  that thread: the steps of \<open>Nfs_System\<close> have the position in a write and say which writes
  never return.
\<close>

record conn =
  inbox :: "chunk list"
  sent :: bytes
  send_limit :: "nat option"

fun stream_read :: "usize \<Rightarrow> chunk list \<Rightarrow> bytes io_result \<times> chunk list" where
  "stream_read n [] = (Inr [], [])"
| "stream_read n (Fail e # st) = (Inl e, st)"
| "stream_read n (Data bs # st) =
     (if length bs \<le> n then (Inr bs, st) else (Inr (take n bs), Data (drop n bs) # st))"

lemma stream_read_Inl: "(Inl e, st') = stream_read n st \<Longrightarrow> length st' < length st"
  by (cases "(n, st)" rule: stream_read.cases) (auto split: if_splits)

lemma stream_read_Inr: "(Inr bs, st') = stream_read n st \<Longrightarrow> length st' \<le> length st \<and> length bs \<le> n"
  by (cases "(n, st)" rule: stream_read.cases) (auto split: if_splits)

lemma stream_read_progress:
  assumes "(Inr bs, st') = stream_read (len - length buf) st" "bs \<noteq> []" "length buf < len"
  shows "len - length (buf @ bs) + length st' < len - length buf + length st"
proof -
  have "0 < length bs" using assms(2) by simp
  then have "len - length (buf @ bs) < len - length buf"
    using assms(3) unfolding length_append by linarith
  moreover have "length st' \<le> length st" using stream_read_Inr [OF assms(1)] by simp
  ultimately show ?thesis by (rule add_less_le_mono)
qed

text \<open>
  \<open>Read::read_exact\<close>: reads until \<open>len\<close> bytes have arrived, retrying on \<open>Interrupted\<close>.
  \<open>buf\<close> is the part filled so far.
\<close>

function read_exact :: "usize \<Rightarrow> bytes \<Rightarrow> chunk list \<Rightarrow> bytes io_result \<times> chunk list" where
  "read_exact len buf st =
     (if length buf < len then
        (case stream_read (len - length buf) st of
           (Inl e, st') \<Rightarrow>
             if io_kind e = EkInterrupted then read_exact len buf st'
             else (Inl e, st')
         | (Inr bs, st') \<Rightarrow>
             if bs = [] then (Inl (io_error_from_kind EkUnexpectedEof), st')
             else read_exact len (buf @ bs) st')
      else (Inr buf, st))"
  by pat_completeness auto
termination
  by (relation "measure (\<lambda>(len, buf, st). len - length buf + length st)")
    (use stream_read_Inl stream_read_progress in \<open>force+\<close>)

definition write_all :: "bytes \<Rightarrow> conn \<Rightarrow> unit io_result \<times> conn" where
  "write_all data c =
     (case send_limit c of
        None \<Rightarrow> (Inr (), c\<lparr>sent := sent c @ data\<rparr>)
      | Some k \<Rightarrow>
          if length data \<le> k
          then (Inr (), c\<lparr>sent := sent c @ data, send_limit := Some (k - length data)\<rparr>)
          else (Inl (io_error_other ''broken pipe''),
                c\<lparr>sent := sent c @ take k data, send_limit := Some 0\<rparr>))"

section \<open>Record marking\<close>

definition MAX_FRAGMENT_LEN :: u32 where
  "MAX_FRAGMENT_LEN = 256 * 1024"

definition LAST_FRAGMENT_BIT :: u32 where
  "LAST_FRAGMENT_BIT = 0x80000000"

function read_exact_or_eof ::
  "usize \<Rightarrow> bytes \<Rightarrow> chunk list \<Rightarrow> (bool io_result \<times> bytes) \<times> chunk list" where
  "read_exact_or_eof len buf st =
     (if length buf < len then
        (case stream_read (len - length buf) st of
           (Inl e, st) \<Rightarrow> ((Inl e, buf), st)
         | (Inr bs, st) \<Rightarrow>
             if bs = [] then
               ((if buf = [] then Inr False else Inl (io_error_from_kind EkUnexpectedEof), buf), st)
             else read_exact_or_eof len (buf @ bs) st)
      else ((Inr True, buf), st))"
  by pat_completeness auto
termination
  by (relation "measure (\<lambda>(len, buf, st). len - length buf + length st)")
    (use stream_read_Inl stream_read_progress in \<open>force+\<close>)

declare read_exact.simps [simp del] read_exact_or_eof.simps [simp del]

definition read_message :: "conn \<Rightarrow> bytes option io_result \<times> conn" where
  "read_message c =
     (case read_exact_or_eof 4 [] (inbox c) of
        ((Inl e, _), st) \<Rightarrow> (Inl e, c\<lparr>inbox := st\<rparr>)
      | ((Inr False, _), st) \<Rightarrow> (Inr None, c\<lparr>inbox := st\<rparr>)
      | ((Inr True, hdr), st) \<Rightarrow>
          (let hdr = u32_from_be_bytes hdr;
               last = hdr AND LAST_FRAGMENT_BIT \<noteq> 0;
               len = hdr AND NOT LAST_FRAGMENT_BIT
           in if \<not> last then
                (Inl (io_error_other ''multi-fragment RPC message not supported''), c\<lparr>inbox := st\<rparr>)
              else if len > MAX_FRAGMENT_LEN then
                (Inl (io_error_other ''RPC fragment exceeds size limit''), c\<lparr>inbox := st\<rparr>)
              else
                (case read_exact (unat len) [] st of
                   (Inl e, st) \<Rightarrow> (Inl e, c\<lparr>inbox := st\<rparr>)
                 | (Inr body, st) \<Rightarrow> (Inr (Some body), c\<lparr>inbox := st\<rparr>))))"

definition write_message :: "bytes \<Rightarrow> conn \<Rightarrow> unit io_result \<times> conn" where
  "write_message body c =
     (let hdr = LAST_FRAGMENT_BIT OR of_nat (length body)
      in case write_all (u32_to_be_bytes hdr) c of
           (Inl e, c) \<Rightarrow> (Inl e, c)
         | (Inr _, c) \<Rightarrow>
             (case write_all body c of
                (Inl e, c) \<Rightarrow> (Inl e, c)
              | (Inr _, c) \<Rightarrow> (Inr (), c)))"

section \<open>Call header\<close>

record call_header =
  ch_xid :: u32
  ch_prog :: u32
  ch_vers :: u32
  ch_proc :: u32

datatype header_outcome = Call call_header | BadRpcvers u32 | Malformed

definition read_call_header :: "reader \<Rightarrow> header_outcome \<times> reader" where
  "read_call_header =
     (let malformed = (\<lambda>r. (Malformed, r))
      in let_some read_u32 malformed (\<lambda>xid.
         let_some read_u32 malformed (\<lambda>mtype.
         if mtype \<noteq> 0 then malformed
         else let_some read_u32 malformed (\<lambda>rpcvers.
         if rpcvers \<noteq> 2 then (\<lambda>r. (BadRpcvers xid, r))
         else let_some read_u32 malformed (\<lambda>prog.
         let_some read_u32 malformed (\<lambda>vers.
         let_some read_u32 malformed (\<lambda>proc.
         let_some skip_opaque_auth malformed (\<lambda>_.
         let_some skip_opaque_auth malformed (\<lambda>_ r.
           (Call \<lparr>ch_xid = xid, ch_prog = prog, ch_vers = vers, ch_proc = proc\<rparr>, r))))))))))"

section \<open>Replies\<close>

definition SUCCESS :: u32 where "SUCCESS = 0"
definition PROG_UNAVAIL :: u32 where "PROG_UNAVAIL = 1"
definition PROG_MISMATCH :: u32 where "PROG_MISMATCH = 2"
definition PROC_UNAVAIL :: u32 where "PROC_UNAVAIL = 3"
definition GARBAGE_ARGS :: u32 where "GARBAGE_ARGS = 4"

definition rpc_mismatch_reply :: "u32 \<Rightarrow> bytes" where
  "rpc_mismatch_reply xid =
     (let w = writer_new;
          w = write_u32 xid w;
          w = write_u32 1 w;
          w = write_u32 1 w;
          w = write_u32 0 w;
          w = write_u32 2 w;
          w = write_u32 2 w
      in into_bytes w)"

definition write_reply_header :: "u32 \<Rightarrow> u32 \<Rightarrow> writer \<Rightarrow> writer" where
  "write_reply_header xid stat w =
     (let w = write_u32 xid w;
          w = write_u32 1 w;
          w = write_u32 0 w;
          w = write_u32 0 w;
          w = write_u32 0 w
      in write_u32 stat w)"

definition write_prog_mismatch_body :: "u32 \<Rightarrow> u32 \<Rightarrow> writer \<Rightarrow> writer" where
  "write_prog_mismatch_body low high w = write_u32 high (write_u32 low w)"

datatype proc_outcome = Success writer | ProcUnavail | GarbageArgs

definition build_reply :: "u32 \<Rightarrow> proc_outcome \<Rightarrow> bytes" where
  "build_reply xid outcome =
     (let w = writer_new;
          w = (case outcome of
                 Success body \<Rightarrow> extend_from body (write_reply_header xid SUCCESS w)
               | ProcUnavail \<Rightarrow> write_reply_header xid PROC_UNAVAIL w
               | GarbageArgs \<Rightarrow> write_reply_header xid GARBAGE_ARGS w)
      in into_bytes w)"

definition prog_unavail_reply :: "u32 \<Rightarrow> bytes" where
  "prog_unavail_reply xid = into_bytes (write_reply_header xid PROG_UNAVAIL writer_new)"

definition prog_mismatch_reply :: "u32 \<Rightarrow> bytes" where
  "prog_mismatch_reply xid =
     (let w = writer_new;
          w = write_reply_header xid PROG_MISMATCH w;
          w = write_prog_mismatch_body 3 3 w
      in into_bytes w)"

section \<open>Reading a delivered stream\<close>

text \<open>What a stream will deliver, and that it delivers it without an error.\<close>

fun inbox_data :: "chunk list \<Rightarrow> bytes" where
  "inbox_data [] = []"
| "inbox_data (Data bs # st) = bs @ inbox_data st"
| "inbox_data (Fail e # st) = inbox_data st"

fun inbox_clean :: "chunk list \<Rightarrow> bool" where
  "inbox_clean [] \<longleftrightarrow> True"
| "inbox_clean (Data bs # st) \<longleftrightarrow> bs \<noteq> [] \<and> inbox_clean st"
| "inbox_clean (Fail e # st) \<longleftrightarrow> False"

lemma stream_read_clean:
  assumes "inbox_clean st" "stream_read n st = (r, st')" "0 < n"
  shows "\<exists>bs. r = Inr bs \<and> inbox_clean st' \<and> inbox_data st = bs @ inbox_data st' \<and> length bs \<le> n \<and>
    (bs = [] \<longleftrightarrow> inbox_data st = [])"
  using assms by (cases "(n, st)" rule: stream_read.cases) (auto split: if_splits)

lemma stream_read_step:
  assumes "inbox_clean st" "length buf < len" "len - length buf \<le> length (inbox_data st)"
  obtains bs st' where "stream_read (len - length buf) st = (Inr bs, st')" "bs \<noteq> []"
    "inbox_clean st'" "inbox_data st = bs @ inbox_data st'" "length (buf @ bs) \<le> len"
    "len - length (buf @ bs) \<le> length (inbox_data st')"
proof -
  obtain r st' where sr: "stream_read (len - length buf) st = (r, st')" by fastforce
  have "0 < len - length buf" using assms(2) by simp
  from stream_read_clean [OF assms(1) sr this] obtain bs
    where bs: "r = Inr bs" "inbox_clean st'" "inbox_data st = bs @ inbox_data st'"
      "length bs \<le> len - length buf" "bs = [] \<longleftrightarrow> inbox_data st = []" by blast
  have "inbox_data st \<noteq> []" using assms(2,3) by auto
  then have "bs \<noteq> []" using bs(5) by blast
  moreover have "length (buf @ bs) \<le> len"
    using bs(4) assms(2) unfolding length_append by linarith
  moreover have "len - length (buf @ bs) \<le> length (inbox_data st')"
    using bs(3) assms(3) unfolding length_append by simp
  ultimately show thesis using that sr bs by blast
qed

lemma take_step:
  assumes "length (buf @ bs) \<le> len"
  shows "(buf @ bs) @ take (len - length (buf @ bs)) xs = buf @ take (len - length buf) (bs @ xs)"
    and "drop (len - length (buf @ bs)) xs = drop (len - length buf) (bs @ xs)"
proof -
  have "len - length buf = length bs + (len - length (buf @ bs))" using assms by simp
  then show "(buf @ bs) @ take (len - length (buf @ bs)) xs = buf @ take (len - length buf) (bs @ xs)"
    and "drop (len - length (buf @ bs)) xs = drop (len - length buf) (bs @ xs)" by simp_all
qed

lemma read_exact_clean:
  assumes "inbox_clean st" "length buf \<le> len" "len - length buf \<le> length (inbox_data st)"
  shows "\<exists>st'. read_exact len buf st = (Inr (buf @ take (len - length buf) (inbox_data st)), st') \<and>
    inbox_clean st' \<and> inbox_data st' = drop (len - length buf) (inbox_data st)"
  using assms
proof (induction len buf st rule: read_exact.induct)
  case (1 len buf st)
  show ?case
  proof (cases "length buf < len")
    case True
    from stream_read_step [OF 1(3) True 1(5)] obtain bs st1
      where s: "stream_read (len - length buf) st = (Inr bs, st1)" "bs \<noteq> []" "inbox_clean st1"
        "inbox_data st = bs @ inbox_data st1" "length (buf @ bs) \<le> len"
        "len - length (buf @ bs) \<le> length (inbox_data st1)" .
    have "read_exact len buf st = read_exact len (buf @ bs) st1"
      using True s(1,2) by (subst read_exact.simps) simp
    with 1(2) [OF True s(1) [symmetric] refl s(2) s(3) s(5) s(6)] take_step [OF s(5)] s(4)
    show ?thesis by simp
  next
    case False
    with 1(3,4) show ?thesis by (subst read_exact.simps) simp
  qed
qed

lemma read_exact_or_eof_clean:
  assumes "inbox_clean st" "length buf \<le> len" "len - length buf \<le> length (inbox_data st)"
  shows "\<exists>st'. read_exact_or_eof len buf st =
      ((Inr True, buf @ take (len - length buf) (inbox_data st)), st') \<and>
    inbox_clean st' \<and> inbox_data st' = drop (len - length buf) (inbox_data st)"
  using assms
proof (induction len buf st rule: read_exact_or_eof.induct)
  case (1 len buf st)
  show ?case
  proof (cases "length buf < len")
    case True
    from stream_read_step [OF 1(2) True 1(4)] obtain bs st1
      where s: "stream_read (len - length buf) st = (Inr bs, st1)" "bs \<noteq> []" "inbox_clean st1"
        "inbox_data st = bs @ inbox_data st1" "length (buf @ bs) \<le> len"
        "len - length (buf @ bs) \<le> length (inbox_data st1)" .
    have "read_exact_or_eof len buf st = read_exact_or_eof len (buf @ bs) st1"
      using True s(1,2) by (subst read_exact_or_eof.simps) simp
    with 1(1) [OF True s(1) [symmetric] refl s(2) s(3) s(5) s(6)] take_step [OF s(5)] s(4)
    show ?thesis by simp
  next
    case False
    with 1(2,3) show ?thesis by (subst read_exact_or_eof.simps) simp
  qed
qed

section \<open>Frames\<close>

definition frame :: "bytes \<Rightarrow> bytes" where
  "frame body = u32_to_be_bytes (LAST_FRAGMENT_BIT OR of_nat (length body)) @ body"

lemma frame_header:
  assumes "length body \<le> unat MAX_FRAGMENT_LEN"
  shows "(LAST_FRAGMENT_BIT OR of_nat (length body)) AND LAST_FRAGMENT_BIT \<noteq> 0"
    and "(LAST_FRAGMENT_BIT OR of_nat (length body)) AND NOT LAST_FRAGMENT_BIT = of_nat (length body)"
    and "unat (of_nat (length body) :: u32) = length body"
proof -
  have small: "length body < 2 ^ 31" using assms by (simp add: MAX_FRAGMENT_LEN_def)
  have mask: "NOT LAST_FRAGMENT_BIT = mask 31" by (simp add: LAST_FRAGMENT_BIT_def mask_eq_exp_minus_1)
  have "take_bit 31 LAST_FRAGMENT_BIT = 0" by (simp add: LAST_FRAGMENT_BIT_def take_bit_eq_mod)
  moreover have "take_bit 31 (of_nat (length body) :: u32) = of_nat (length body)"
    using small by (simp add: take_bit_of_nat take_bit_nat_eq_self)
  ultimately show "(LAST_FRAGMENT_BIT OR of_nat (length body)) AND NOT LAST_FRAGMENT_BIT = of_nat (length body)"
    by (simp add: mask flip: take_bit_eq_mask)
  show "unat (of_nat (length body) :: u32) = length body"
    using small by (simp add: unat_of_nat)
  have "bit ((LAST_FRAGMENT_BIT OR of_nat (length body)) AND LAST_FRAGMENT_BIT) 31"
    by (simp add: LAST_FRAGMENT_BIT_def bit_simps)
  then show "(LAST_FRAGMENT_BIT OR of_nat (length body)) AND LAST_FRAGMENT_BIT \<noteq> 0"
    by auto
qed

lemma read_message_frame:
  assumes "inbox_clean (inbox c)" "inbox_data (inbox c) = frame body @ rest"
    and "length body \<le> unat MAX_FRAGMENT_LEN"
  shows "\<exists>st. read_message c = (Inr (Some body), c\<lparr>inbox := st\<rparr>) \<and> inbox_clean st \<and> inbox_data st = rest"
proof -
  note hdr = frame_header [OF assms(3)]
  have d: "inbox_data (inbox c) =
      u32_to_be_bytes (LAST_FRAGMENT_BIT OR of_nat (length body)) @ body @ rest"
    using assms(2) by (simp add: frame_def)
  obtain st1 where r1: "read_exact_or_eof 4 [] (inbox c) =
      ((Inr True, u32_to_be_bytes (LAST_FRAGMENT_BIT OR of_nat (length body))), st1)"
    and c1: "inbox_clean st1" "inbox_data st1 = body @ rest"
    using read_exact_or_eof_clean [OF assms(1), of "[]" 4] by (auto simp: d)
  obtain st2 where r2: "read_exact (length body) [] st1 = (Inr body, st2)"
    and c2: "inbox_clean st2" "inbox_data st2 = rest"
    using read_exact_clean [OF c1(1), of "[]" "length body"] by (auto simp: c1)
  have "\<not> MAX_FRAGMENT_LEN < of_nat (length body)"
    using assms(3) hdr(3) by (simp add: word_less_nat_alt)
  then have "read_message c = (Inr (Some body), c\<lparr>inbox := st2\<rparr>)"
    using hdr by (simp add: read_message_def r1 r2 Let_def)
  with c2 show ?thesis by blast
qed

lemma read_exact_length: "read_exact len buf st = (Inr b, st') \<Longrightarrow> length buf \<le> len \<Longrightarrow> length b = len"
proof (induction len buf st rule: read_exact.induct)
  case (1 len buf st)
  show ?case
  proof (cases "length buf < len")
    case False
    with 1(3,4) show ?thesis by (simp add: read_exact.simps [of len buf st])
  next
    case True
    obtain r st1 where sr: "stream_read (len - length buf) st = (r, st1)" by fastforce
    show ?thesis
    proof (cases r)
      case (Inl e)
      with 1(1) [OF True sr [symmetric] Inl] 1(3,4) True sr show ?thesis
        by (simp add: read_exact.simps [of len buf st] split: if_splits)
    next
      case (Inr bs)
      have "length (buf @ bs) \<le> len"
        using stream_read_Inr sr Inr True by (metis add_le_imp_le_diff le_add_diff_inverse
            length_append less_imp_le add.commute le_diff_conv2)
      with 1(2) [OF True sr [symmetric] Inr] 1(3) True sr Inr show ?thesis
        by (simp add: read_exact.simps [of len buf st] split: if_splits)
    qed
  qed
qed

lemma read_message_bound:
  "read_message c = (Inr (Some body), c') \<Longrightarrow> length body \<le> unat MAX_FRAGMENT_LEN"
  by (auto simp: read_message_def Let_def not_less word_le_nat_alt
      dest: read_exact_length split: prod.splits sum.splits bool.splits if_splits)

lemma write_message_sends:
  "send_limit c = None \<Longrightarrow> write_message body c = (Inr (), c\<lparr>sent := sent c @ frame body\<rparr>)"
  by (simp add: write_message_def write_all_def frame_def Let_def)

section \<open>Call headers\<close>

definition enc_call :: "call_header \<Rightarrow> u32 \<Rightarrow> bytes \<Rightarrow> u32 \<Rightarrow> bytes \<Rightarrow> bytes" where
  "enc_call h cf cred vf verf =
     u32_to_be_bytes (ch_xid h) @ u32_to_be_bytes 0 @ u32_to_be_bytes 2 @
     u32_to_be_bytes (ch_prog h) @ u32_to_be_bytes (ch_vers h) @ u32_to_be_bytes (ch_proc h) @
     u32_to_be_bytes cf @ enc_opaque_var cred @ u32_to_be_bytes vf @ enc_opaque_var verf"

lemma skip_opaque_auth_enc:
  assumes "length body \<le> 400" "reader_ok r" "reader_rest r = u32_to_be_bytes f @ enc_opaque_var body @ t"
  shows "skip_opaque_auth r = (Some (), reader_adv (4 + length (enc_opaque_var body)) r)"
proof -
  have "read_opaque_var 400 (reader_adv 4 r) =
      (Some body, reader_adv (length (enc_opaque_var body)) (reader_adv 4 r))"
    using assms by (intro read_opaque_var_enc [where t = t]) auto
  then show ?thesis using assms by (simp add: skip_opaque_auth_read_opaque_var read_u32_eq)
qed

lemma read_call_header_enc:
  assumes "reader_ok r" "reader_rest r = enc_call h cf cred vf verf @ args"
    and "length cred \<le> 400" "length verf \<le> 400"
  shows "read_call_header r = (Call h, reader_adv (length (enc_call h cf cred vf verf)) r)"
proof -
  let ?r = "reader_adv 24 r"
  have ok: "reader_ok ?r" using assms(1,2) by (simp add: enc_call_def)
  have a1: "skip_opaque_auth ?r = (Some (), reader_adv (4 + length (enc_opaque_var cred)) ?r)"
    using assms ok by (intro skip_opaque_auth_enc [where f = cf]) (auto simp: enc_call_def)
  have a2: "skip_opaque_auth (reader_adv (4 + length (enc_opaque_var cred)) ?r) =
      (Some (), reader_adv (4 + length (enc_opaque_var verf)) (reader_adv (4 + length (enc_opaque_var cred)) ?r))"
    using assms ok by (intro skip_opaque_auth_enc [where f = vf]) (auto simp: enc_call_def)
  show ?thesis
    using assms(1,2) a1 a2
    by (simp add: read_call_header_def let_some_def reader_simps enc_call_def Let_def ac_simps)
qed

section \<open>Timeouts inside a message\<close>

lemma read_exact_or_eof_split:
  assumes "0 < length p" "length p < 4"
  shows "read_exact_or_eof 4 [] (Data p # Fail e # st) = ((Inl e, p), st)"
  using assms by (subst read_exact_or_eof.simps, simp) (subst read_exact_or_eof.simps, simp)

lemma read_exact_split:
  assumes "length p < n" "io_kind e \<noteq> EkInterrupted"
  shows "p = [] \<or> read_exact n [] (Data p # Fail e # st) = (Inl e, st)"
    and "read_exact n [] (Fail e # st) = (Inl e, st)"
  using assms by (auto simp: read_exact.simps [of n p] read_exact.simps [of n "[]"])

lemma read_message_split:
  assumes k: "0 < k" "k < length (frame body)" and len: "length body \<le> unat MAX_FRAGMENT_LEN"
    and e: "io_kind e \<noteq> EkInterrupted"
  shows "read_message (c\<lparr>inbox := Data (take k (frame body)) # Fail e # st\<rparr>) = (Inl e, c\<lparr>inbox := st\<rparr>)"
proof (cases "k < 4")
  case True
  have "read_exact_or_eof 4 [] (Data (take k (frame body)) # Fail e # st) =
      ((Inl e, take k (frame body)), st)"
    using True k by (intro read_exact_or_eof_split) (auto simp: frame_def)
  then show ?thesis by (simp add: read_message_def)
next
  case False
  let ?h = "u32_to_be_bytes (LAST_FRAGMENT_BIT OR of_nat (length body))"
  have f: "take k (frame body) = ?h @ take (k - 4) body" using False by (simp add: frame_def)
  have nm: "\<not> MAX_FRAGMENT_LEN < of_nat (length body)"
    using len frame_header(3) [OF len] by (simp add: word_less_nat_alt)
  have sh: "length (take (k - 4) body) < length body" using k False by (auto simp: frame_def)
  have one: "read_exact_or_eof 4 ?h s = ((Inr True, ?h), s)" for s
    by (simp add: read_exact_or_eof.simps [of 4 ?h])
  show ?thesis
  proof (cases "k = 4")
    case True
    then have f4: "take k (frame body) = ?h" using f by simp
    have "read_exact_or_eof 4 [] (Data (take k (frame body)) # Fail e # st) =
        ((Inr True, ?h), Fail e # st)"
      unfolding f4 by (subst read_exact_or_eof.simps) (simp add: one)
    then show ?thesis using nm frame_header [OF len] read_exact_split(2) [OF sh e]
      by (simp add: read_message_def Let_def)
  next
    case False
    with \<open>\<not> k < 4\<close> sh have ne: "take (k - 4) body \<noteq> []" by auto
    have "read_exact_or_eof 4 [] (Data (?h @ p) # Fail e # st) = ((Inr True, ?h), Data p # Fail e # st)"
      if "p \<noteq> []" for p
      using that by (subst read_exact_or_eof.simps) (simp add: one)
    from this [OF ne] have "read_exact_or_eof 4 [] (Data (take k (frame body)) # Fail e # st) =
        ((Inr True, ?h), Data (take (k - 4) body) # Fail e # st)"
      by (simp only: f)
    then show ?thesis using ne nm frame_header [OF len] read_exact_split(1) [OF sh e, of st]
      by (simp add: read_message_def Let_def)
  qed
qed

section \<open>Properties\<close>

text \<open>
  C34: A message sent is the message received, however the transport splits it. What
  \<open>write_message\<close> sends for a body within the fragment limit, arriving in pieces of any
  size and followed by anything, is read back by one \<open>read_message\<close> as that body, and
  the stream is left exactly at what follows.
\<close>

theorem rpc_frame_roundtrip:
  assumes "send_limit out = None" "length body \<le> unat MAX_FRAGMENT_LEN"
    and "write_message body out = (r, out')"
    and "inbox_clean (inbox c)" "sent out @ inbox_data (inbox c) = sent out' @ rest"
  shows "\<exists>st. read_message c = (Inr (Some body), c\<lparr>inbox := st\<rparr>) \<and> inbox_clean st \<and> inbox_data st = rest"
proof -
  from write_message_sends [OF assms(1), of body] assms(3) have "sent out' = sent out @ frame body"
    by auto
  with assms(5) have "inbox_data (inbox c) = frame body @ rest" by simp
  from read_message_frame [OF assms(4) this assms(2)] show ?thesis .
qed

theorem rpc_frame_roundtrip_witness:
  "\<exists>st. read_message \<lparr>inbox = [Data [0x80, 0], Data [0, 3, 7], Data [8, 9, 1, 2]], sent = [], send_limit = None\<rparr> =
     (Inr (Some [7, 8, 9]), \<lparr>inbox = st, sent = [], send_limit = None\<rparr>) \<and>
     inbox_clean st \<and> inbox_data st = [1, 2]"
proof -
  let ?out = "\<lparr>inbox = [], sent = [], send_limit = None\<rparr>"
  have f: "frame [7, 8, 9] = [0x80, 0, 0, 3, 7, 8, 9]"
    by (simp add: frame_def LAST_FRAGMENT_BIT_def u32_to_be_bytes_eval)
  have w: "write_message [7, 8, 9] ?out = (Inr (), ?out\<lparr>sent := frame [7, 8, 9]\<rparr>)"
    by (simp add: write_message_sends)
  show ?thesis
    using rpc_frame_roundtrip [OF _ _ w, where rest = "[1, 2]" and
      c = "\<lparr>inbox = [Data [0x80, 0], Data [0, 3, 7], Data [8, 9, 1, 2]], sent = [], send_limit = None\<rparr>"]
    by (simp add: f MAX_FRAGMENT_LEN_def)
qed

text \<open>
  A client cannot make the server allocate more than the fragment limit. Whatever the
  stream delivers, a message \<open>read_message\<close> returns is at most 256 KiB long.
\<close>

lemma rpc_message_bounded:
  assumes "read_message c = (Inr (Some body), c')"
  shows "length body \<le> 262144"
  using read_message_bound [OF assms] by (simp add: MAX_FRAGMENT_LEN_def)

text \<open>
  C35: A read timeout inside a message loses the bytes already taken off the stream. When
  the first \<open>k\<close> bytes of a message have arrived and the next read fails (other than by an
  interrupt), \<open>read_message\<close> reports the failure with the stream past those bytes: whatever
  is read next starts in the middle of the message. The connection loop retries after a
  timeout, so it then takes the middle of a message for a header.
\<close>

theorem rpc_timeout_drops_bytes:
  assumes "0 < k" "k < length (frame body)" "length body \<le> unat MAX_FRAGMENT_LEN"
    and "io_kind e \<noteq> EkInterrupted"
  shows "read_message (c\<lparr>inbox := Data (take k (frame body)) # Fail e # st\<rparr>) = (Inl e, c\<lparr>inbox := st\<rparr>)"
  using assms by (rule read_message_split)

theorem rpc_timeout_drops_bytes_witness:
  "read_message \<lparr>inbox = [Data [0x80, 0], Fail (io_error_from_kind EkTimedOut), Data [0, 3, 7, 8, 9]],
      sent = [], send_limit = None\<rparr> =
   (Inl (io_error_from_kind EkTimedOut),
    \<lparr>inbox = [Data [0, 3, 7, 8, 9]], sent = [], send_limit = None\<rparr>)"
proof -
  have f: "frame [7, 8, 9] = [0x80, 0, 0, 3, 7, 8, 9]"
    by (simp add: frame_def LAST_FRAGMENT_BIT_def u32_to_be_bytes_eval)
  show ?thesis
    using rpc_timeout_drops_bytes [where k = 2 and body = "[7, 8, 9]" and e = "io_error_from_kind EkTimedOut"
        and c = "\<lparr>inbox = [], sent = [], send_limit = None\<rparr>" and st = "[Data [0, 3, 7, 8, 9]]"]
    by (simp add: f MAX_FRAGMENT_LEN_def io_error_from_kind_def io_error_new_def)
qed

lemma call_header_decoded:
  assumes "length cred \<le> 400" "length verf \<le> 400"
    and "length (enc_call h cf cred vf verf @ args) < 2 ^ 63"
  shows "\<exists>r. read_call_header (reader_new (enc_call h cf cred vf verf @ args)) = (Call h, r) \<and>
    reader_ok r \<and> reader_rest r = args"
proof -
  let ?r = "reader_new (enc_call h cf cred vf verf @ args)"
  have ok: "reader_ok ?r" using assms(3) by simp
  have "read_call_header ?r = (Call h, reader_adv (length (enc_call h cf cred vf verf)) ?r)"
    by (rule read_call_header_enc [OF ok _ assms(1,2)]) simp
  moreover have "reader_ok (reader_adv (length (enc_call h cf cred vf verf)) ?r)"
    using ok by (rule reader_ok_adv) simp
  ultimately show ?thesis by simp
qed

end
