(* ===== verification/Readdir.thy ===== *)
theory Readdir
  imports Mem_Fs
begin

text \<open>
  The directory listing machinery every backend shares, \<open>src/backend/readdir.rs\<close>: the cookie
  arithmetic and the driver \<open>emit\<close>. The sink is a function over its own state \<open>'k\<close> and the
  filesystem's, since a backend's closure may call the filesystem while it encodes an entry.
  \<open>emit\<close> pages until the listing ends or the sink is full, so it need not return for every
  filesystem and every sink: \<open>None\<close> is a listing that never ends. Cookies and offsets are
  64-bit and wrap, as they do in a release build.

  The lemmas give two independent guarantees: \<open>emit\<close> returns for every filesystem, however
  ill behaved, when the sink's capacity is finite; and for a filesystem that keeps its
  contract it offers exactly the entries after the cookie, whatever the page sizes.
\<close>

section \<open>Cookies\<close>

definition DOT :: u64 where "DOT = 1"
definition DOTDOT :: u64 where "DOTDOT = 2"

definition trait_offset :: "u64 \<Rightarrow> u64" where
  "trait_offset resume_after = saturating_sub resume_after DOTDOT"

definition for_entry :: "u64 \<Rightarrow> u64" where
  "for_entry offset = offset + DOTDOT + 1"

section \<open>The driver\<close>

datatype dots = Synthesize | Omit

datatype sink_result = Accepted | Full

record entry =
  en_ino :: ino
  en_name :: os_string
  en_kind :: file_kind
  en_cookie :: u64

type_synonym ('k, 's) sink = "entry \<Rightarrow> 'k \<Rightarrow> 's \<Rightarrow> sink_result \<times> 'k \<times> 's"

definition offered :: "dir_entry \<Rightarrow> u64 \<Rightarrow> entry" where
  "offered e offset =
     \<lparr>en_ino = entry_ino e, en_name = entry_name e, en_kind = entry_kind e, en_cookie = for_entry offset\<rparr>"

text \<open>The inner loop: one page offered in order; \<open>True\<close> when the sink was full.\<close>

fun emit_page :: "('k, 's) sink \<Rightarrow> dir_entry list \<Rightarrow> u64 \<Rightarrow> 'k \<Rightarrow> 's \<Rightarrow> bool \<times> u64 \<times> 'k \<times> 's" where
  "emit_page sink [] offset k s = (False, offset, k, s)"
| "emit_page sink (e # page) offset k s =
     (case sink (offered e offset) k s of
        (Full, k, s) \<Rightarrow> (True, offset, k, s)
      | (Accepted, k, s) \<Rightarrow> emit_page sink page (offset + 1) k s)"

partial_function (option) emit_loop ::
  "'s read_only_fs \<Rightarrow> ino \<Rightarrow> ('k, 's) sink \<Rightarrow> u64 \<Rightarrow> 'k \<Rightarrow> 's \<Rightarrow> (bool fs_result \<times> 'k \<times> 's) option" where
  "emit_loop fs dir sink offset k s =
     (case fs_readdir fs dir offset s of
        (Inl e, s) \<Rightarrow> Some (Inl e, k, s)
      | (Inr page, s) \<Rightarrow>
          if page = [] then Some (Inr True, k, s)
          else (case emit_page sink page offset k s of
                  (full, offset, k, s) \<Rightarrow>
                    if full then Some (Inr False, k, s) else emit_loop fs dir sink offset k s))"

definition dot_entry :: "ino \<Rightarrow> entry" where
  "dot_entry dir = \<lparr>en_ino = dir, en_name = ascii ''.'', en_kind = Directory, en_cookie = DOT\<rparr>"

definition dotdot_entry :: "ino \<Rightarrow> entry" where
  "dotdot_entry parent = \<lparr>en_ino = parent, en_name = ascii ''..'', en_kind = Directory, en_cookie = DOTDOT\<rparr>"

definition emit ::
  "'s read_only_fs \<Rightarrow> ino \<Rightarrow> u64 \<Rightarrow> dots \<Rightarrow> ('k, 's) sink \<Rightarrow> 'k \<Rightarrow> 's \<Rightarrow>
     (bool fs_result \<times> 'k \<times> 's) option" where
  "emit fs dir resume_after dots sink k s =
     (let cookie = resume_after;
          listing = (\<lambda>cookie k s. emit_loop fs dir sink (trait_offset cookie) k s);
          dotdot = (\<lambda>cookie k s.
            if cookie = DOT then
              (case fs_lookup fs dir (ascii ''..'') s of
                 (res, s) \<Rightarrow>
                   (let parent = (case res of Inl _ \<Rightarrow> dir | Inr a \<Rightarrow> attr_ino a)
                    in case sink (dotdot_entry parent) k s of
                         (Full, k, s) \<Rightarrow> Some (Inr False, k, s)
                       | (Accepted, k, s) \<Rightarrow> listing DOTDOT k s))
            else listing cookie k s)
      in if dots = Synthesize then
           (if cookie = 0 then
              (case sink (dot_entry dir) k s of
                 (Full, k, s) \<Rightarrow> Some (Inr False, k, s)
               | (Accepted, k, s) \<Rightarrow> dotdot DOT k s)
            else dotdot cookie k s)
         else listing cookie k s)"

section \<open>A finite sink ends every listing\<close>

text \<open>
  The sink's capacity \<open>m\<close> shrinks with every entry it accepts. Then \<open>emit\<close> returns for
  every filesystem, also one that serves the same page forever.
\<close>

definition sink_finite :: "('k, 's) sink \<Rightarrow> ('k \<Rightarrow> nat) \<Rightarrow> bool" where
  "sink_finite sink m \<longleftrightarrow> (\<forall>e k s k' s'. sink e k s = (Accepted, k', s') \<longrightarrow> m k' < m k)"

lemma emit_page_measure:
  assumes "sink_finite sink m" "emit_page sink page off k s = (False, off', k', s')"
  shows "m k' + length page \<le> m k"
  using assms(2)
proof (induction page arbitrary: off k s)
  case (Cons e page)
  then obtain k1 s1 where s1: "sink (offered e off) k s = (Accepted, k1, s1)"
      and rec: "emit_page sink page (off + 1) k1 s1 = (False, off', k', s')"
    by (auto split: prod.splits sink_result.splits)
  from assms(1) s1 have "m k1 < m k" unfolding sink_finite_def by blast
  with Cons.IH [OF rec] show ?case by simp
qed simp

lemma emit_loop_returns:
  assumes fin: "sink_finite sink m"
  shows "\<exists>y. emit_loop fs dir sink off k s = Some y"
proof (induction "m k" arbitrary: off k s rule: less_induct)
  case less
  obtain r s1 where rd: "fs_readdir fs dir off s = (r, s1)" by fastforce
  show ?case
  proof (cases "\<exists>page. r = Inr page \<and> page \<noteq> []")
    case False
    with rd show ?thesis by (cases r) (auto simp: emit_loop.simps [of fs dir sink off k s])
  next
    case True
    then obtain page where page: "r = Inr page" "page \<noteq> []" by blast
    obtain b off2 k2 s2 where ep: "emit_page sink page off k s1 = (b, off2, k2, s2)"
      by (metis prod.exhaust)
    show ?thesis
    proof (cases b)
      case True
      with rd page ep show ?thesis by (auto simp: emit_loop.simps [of fs dir sink off k s])
    next
      case False
      from page(2) have "0 < length page" by simp
      moreover have "m k2 + length page \<le> m k"
        using ep False by (intro emit_page_measure [OF fin]) simp
      ultimately have "m k2 < m k" by linarith
      from less [OF this] rd page ep False show ?thesis
        by (auto simp: emit_loop.simps [of fs dir sink off k s])
    qed
  qed
qed

lemma emit_returns:
  assumes "sink_finite sink m"
  shows "\<exists>y. emit fs dir resume dots sink k s = Some y"
  using emit_loop_returns [OF assms]
  by (simp add: emit_def Let_def split: prod.splits sink_result.splits)

section \<open>What every sink call keeps, the listing keeps\<close>

definition sink_keeps :: "('k, 's) sink \<Rightarrow> ('k \<Rightarrow> bool) \<Rightarrow> bool" where
  "sink_keeps sink I \<longleftrightarrow> (\<forall>e k s r k' s'. I k \<longrightarrow> sink e k s = (r, k', s') \<longrightarrow> I k')"

lemma sink_keepsD: "sink_keeps sink I \<Longrightarrow> I k \<Longrightarrow> sink e k s = (r, k', s') \<Longrightarrow> I k'"
  unfolding sink_keeps_def by blast

lemma emit_page_inv:
  assumes "sink_keeps sink I"
  shows "I k \<Longrightarrow> emit_page sink page off k s = (b, off', k', s') \<Longrightarrow> I k'"
proof (induction page arbitrary: off k s)
  case (Cons e page)
  obtain r k1 s1 where s1: "sink (offered e off) k s = (r, k1, s1)" by (metis prod.exhaust)
  with Cons assms have "I k1" by (blast intro: sink_keepsD)
  with Cons s1 show ?case by (cases r) auto
qed simp

lemma emit_loop_inv:
  assumes "emit_loop fs dir sink off k s = Some y"
  shows "sink_keeps sink I \<longrightarrow> I k \<longrightarrow> I (fst (snd y))"
proof (rule emit_loop.raw_induct [OF _ assms, where
      P = "\<lambda>fs dir sink off k s y. sink_keeps sink I \<longrightarrow> I k \<longrightarrow> I (fst (snd y))"], goal_cases)
  case (1 f fs dir sink off k s y)
  obtain r s1 where rd: "fs_readdir fs dir off s = (r, s1)" by fastforce
  show ?case
  proof (cases "\<exists>page. r = Inr page \<and> page \<noteq> []")
    case False
    with rd 1(2) show ?thesis by (cases r) auto
  next
    case True
    then obtain page where page: "r = Inr page" "page \<noteq> []" by blast
    obtain b off2 k2 s2 where ep: "emit_page sink page off k s1 = (b, off2, k2, s2)"
      by (metis prod.exhaust)
    have y: "(if b then Some (Inr False, k2, s2) else f fs dir sink off2 k2 s2) = Some y"
      using 1(2) rd page ep by simp
    have "sink_keeps sink I \<Longrightarrow> I k \<Longrightarrow> I k2" using emit_page_inv [OF _ _ ep] by blast
    with y 1(1) show ?thesis by (cases b) auto
  qed
qed

lemma emit_inv:
  assumes "sink_keeps sink I" "I k" "emit fs dir resume dots sink k s = Some (r, k', s')"
  shows "I k'"
proof -
  have l: "I k \<Longrightarrow> emit_loop fs dir sink off k s = Some (r, k', s') \<Longrightarrow> I k'" for off k s
    using emit_loop_inv [of fs dir sink off k s] assms(1) by fastforce
  show ?thesis
    using assms(2,3) l sink_keepsD [OF assms(1)]
    by (auto simp: emit_def Let_def split: prod.splits sink_result.splits if_splits) blast+
qed

section \<open>What a listing keeps of the filesystem's state\<close>

definition keeps_state ::
  "'s read_only_fs \<Rightarrow> ino \<Rightarrow> ('k, 's) sink \<Rightarrow> ('s \<Rightarrow> bool) \<Rightarrow> bool" where
  "keeps_state fs dir sink R \<longleftrightarrow>
     (\<forall>nm s r s'. R s \<longrightarrow> fs_lookup fs dir nm s = (r, s') \<longrightarrow> R s') \<and>
     (\<forall>off s r s'. R s \<longrightarrow> fs_readdir fs dir off s = (r, s') \<longrightarrow> R s') \<and>
     (\<forall>e k s r k' s'. R s \<longrightarrow> sink e k s = (r, k', s') \<longrightarrow> R s')"

lemma keeps_stateD:
  assumes "keeps_state fs dir sink R" "R s"
  shows "fs_lookup fs dir nm s = (ra, s') \<Longrightarrow> R s'"
    and "fs_readdir fs dir off s = (rd, s') \<Longrightarrow> R s'"
    and "sink e k s = (r, k', s') \<Longrightarrow> R s'"
  using assms unfolding keeps_state_def by blast+

lemma emit_page_state:
  assumes K: "keeps_state fs dir sink R"
  shows "R s \<Longrightarrow> emit_page sink page off k s = (b, off', k', s') \<Longrightarrow> R s'"
proof (induction page arbitrary: off k s)
  case (Cons e page)
  obtain r k1 s1 where s1: "sink (offered e off) k s = (r, k1, s1)" by (metis prod.exhaust)
  from keeps_stateD(3) [OF K Cons.prems(1) s1] Cons s1 show ?case by (cases r) auto
qed simp

lemma emit_loop_state:
  assumes "emit_loop fs dir sink off k s = Some y"
  shows "keeps_state fs dir sink R \<longrightarrow> R s \<longrightarrow> R (snd (snd y))"
proof (rule emit_loop.raw_induct [OF _ assms, where
      P = "\<lambda>fs dir sink off k s y. keeps_state fs dir sink R \<longrightarrow> R s \<longrightarrow> R (snd (snd y))"], goal_cases)
  case (1 f fs dir sink off k s y)
  obtain r s1 where rd: "fs_readdir fs dir off s = (r, s1)" by fastforce
  show ?case
  proof (intro impI)
    assume K: "keeps_state fs dir sink R" and "R s"
    from keeps_stateD(2) [OF this rd] have s1: "R s1" .
    show "R (snd (snd y))"
    proof (cases "\<exists>page. r = Inr page \<and> page \<noteq> []")
      case False
      with rd 1(2) s1 show ?thesis by (cases r) auto
    next
      case True
      then obtain page where page: "r = Inr page" "page \<noteq> []" by blast
      obtain b off2 k2 s2 where ep: "emit_page sink page off k s1 = (b, off2, k2, s2)"
        by (metis prod.exhaust)
      have y: "(if b then Some (Inr False, k2, s2) else f fs dir sink off2 k2 s2) = Some y"
        using 1(2) rd page ep by simp
      have "R s2" using emit_page_state [OF K s1 ep] .
      with y 1(1) K show ?thesis by (cases b) auto
    qed
  qed
qed

lemma emit_state:
  assumes K: "keeps_state fs dir sink R" and "R s" "emit fs dir resume dots sink k s = Some (r, k', s')"
  shows "R s'"
proof -
  have l: "R s \<Longrightarrow> emit_loop fs dir sink off k s = Some (r, k', s') \<Longrightarrow> R s'" for off k s
    using emit_loop_state [of fs dir sink off k s] K by fastforce
  define dotdot where "dotdot = (\<lambda>cookie k s.
      if cookie = DOT then
        (case fs_lookup fs dir (ascii ''..'') s of
           (res, s) \<Rightarrow>
             (case sink (dotdot_entry (case res of Inl _ \<Rightarrow> dir | Inr a \<Rightarrow> attr_ino a)) k s of
                (Full, k, s) \<Rightarrow> Some (Inr False, k, s)
              | (Accepted, k, s) \<Rightarrow> emit_loop fs dir sink (trait_offset DOTDOT) k s))
      else emit_loop fs dir sink (trait_offset cookie) k s)"
  have d: "R s'" if "R s" "dotdot cookie k s = Some (r, k', s')" for cookie k s
  proof (cases "cookie = DOT")
    case True
    obtain res s1 where lk: "fs_lookup fs dir (ascii ''..'') s = (res, s1)" by fastforce
    obtain a k2 s2 where sk: "sink (dotdot_entry (case res of Inl _ \<Rightarrow> dir | Inr a \<Rightarrow> attr_ino a)) k s1 = (a, k2, s2)"
      by (metis prod.exhaust)
    from keeps_stateD(3) [OF K keeps_stateD(1) [OF K that(1) lk] sk] have "R s2" .
    then show ?thesis using that(2) True lk sk l by (cases a) (auto simp: dotdot_def)
  next
    case False
    with that l show ?thesis by (simp add: dotdot_def)
  qed
  have e: "emit fs dir resume dots sink k s =
    (if dots = Synthesize then
       (if resume = 0 then
          (case sink (dot_entry dir) k s of
             (Full, k, s) \<Rightarrow> Some (Inr False, k, s)
           | (Accepted, k, s) \<Rightarrow> dotdot DOT k s)
        else dotdot resume k s)
     else emit_loop fs dir sink (trait_offset resume) k s)"
    unfolding emit_def dotdot_def Let_def by (rule refl)
  obtain a k1 s1 where sk: "sink (dot_entry dir) k s = (a, k1, s1)" by (metis prod.exhaust)
  from keeps_stateD(3) [OF K assms(2) sk] have "R s1" .
  then show ?thesis using assms(2,3) sk l d by (cases a) (auto simp: e split: if_splits)
qed

section \<open>What a listing is\<close>

text \<open>
  The whole listing of a directory with the cookies its entries carry, and a sink whose
  answers do not depend on the filesystem's state, fed with entries one by one.
\<close>

fun entries_from :: "u64 \<Rightarrow> dir_entry list \<Rightarrow> entry list" where
  "entries_from off [] = []"
| "entries_from off (e # es) = offered e off # entries_from (off + 1) es"

definition parent_ino :: "fs_view \<Rightarrow> ino \<Rightarrow> ino" where
  "parent_ino v dir = (case view_lookup v dir (ascii ''..'') of Some a \<Rightarrow> attr_ino a | None \<Rightarrow> dir)"

definition full_listing :: "fs_view \<Rightarrow> ino \<Rightarrow> dir_entry list \<Rightarrow> entry list" where
  "full_listing v dir es = dot_entry dir # dotdot_entry (parent_ino v dir) # entries_from 0 es"

fun feed :: "(entry \<Rightarrow> 'k \<Rightarrow> sink_result \<times> 'k) \<Rightarrow> entry list \<Rightarrow> 'k \<Rightarrow> bool \<times> 'k" where
  "feed g [] k = (False, k)"
| "feed g (e # es) k = (case g e k of (Full, k) \<Rightarrow> (True, k) | (Accepted, k) \<Rightarrow> feed g es k)"

definition sink_pure ::
  "('s \<Rightarrow> bool) \<Rightarrow> ('s \<Rightarrow> fs_view) \<Rightarrow> fs_view \<Rightarrow> ('k, 's) sink \<Rightarrow> (entry \<Rightarrow> 'k \<Rightarrow> sink_result \<times> 'k) \<Rightarrow> bool" where
  "sink_pure I view v sink g \<longleftrightarrow>
     (\<forall>e k s. I s \<longrightarrow> view s = v \<longrightarrow>
        (\<exists>s'. sink e k s = (fst (g e k), snd (g e k), s') \<and> I s' \<and> view s' = v))"

lemma sink_pureE:
  assumes "sink_pure I view v sink g" "I s" "view s = v"
  obtains s' where "sink e k s = (fst (g e k), snd (g e k), s')" "I s'" "view s' = v"
  using assms unfolding sink_pure_def by blast

lemma entries_from_append:
  "entries_from off (xs @ ys) = entries_from off xs @ entries_from (off + of_nat (length xs)) ys"
  by (induction xs arbitrary: off) (simp_all add: ac_simps)

lemma drop_entries_from: "drop n (entries_from off es) = entries_from (off + of_nat n) (drop n es)"
proof (induction es arbitrary: n off)
  case (Cons e es)
  then show ?case by (cases n) (simp_all add: ac_simps)
qed simp

lemma length_entries_from [simp]: "length (entries_from off es) = length es"
  by (induction es arbitrary: off) simp_all

lemma length_full_listing [simp]: "length (full_listing v dir es) = length es + 2"
  by (simp add: full_listing_def)

lemma nth_entries_from:
  "i < length es \<Longrightarrow> entries_from off es ! i = offered (es ! i) (off + of_nat i)"
proof (induction es arbitrary: i off)
  case (Cons e es)
  then show ?case by (cases i) (simp_all add: ac_simps)
qed simp

lemma cookie_full_listing:
  "i < length (full_listing v dir es) \<Longrightarrow> en_cookie (full_listing v dir es ! i) = of_nat (i + 1)"
  by (auto simp: full_listing_def nth_Cons nth_entries_from offered_def for_entry_def dot_entry_def
      dotdot_entry_def DOT_def DOTDOT_def split: nat.split)

lemma feed_Cons:
  "feed g (e # es) k =
     (if fst (g e k) = Full then (True, snd (g e k)) else feed g es (snd (g e k)))"
  by (simp split: prod.splits sink_result.splits)

declare feed.simps(2) [simp del]

lemma feed_append:
  "feed g (xs @ ys) k =
     (if fst (feed g xs k) then feed g xs k else feed g ys (snd (feed g xs k)))"
  by (induction xs arbitrary: k) (simp_all add: feed_Cons)

lemma emit_page_feed:
  assumes "sink_pure I view v sink g" "I s" "view s = v"
  shows "\<exists>off' s'. emit_page sink page off k s =
      (fst (feed g (entries_from off page) k), off', snd (feed g (entries_from off page) k), s') \<and>
    (\<not> fst (feed g (entries_from off page) k) \<longrightarrow> off' = off + of_nat (length page)) \<and>
    I s' \<and> view s' = v"
  using assms(2,3)
proof (induction page arbitrary: off k s)
  case (Cons e page)
  from sink_pureE [OF assms(1) Cons.prems] obtain s1
    where s1: "sink (offered e off) k s = (fst (g (offered e off) k), snd (g (offered e off) k), s1)"
      "I s1" "view s1 = v" .
  show ?case
  proof (cases "fst (g (offered e off) k)")
    case Accepted
    then have "emit_page sink (e # page) off k s =
        emit_page sink page (off + 1) (snd (g (offered e off) k)) s1" using s1(1) by simp
    moreover have "feed g (entries_from off (e # page)) k =
        feed g (entries_from (off + 1) page) (snd (g (offered e off) k))"
      using Accepted by (simp add: feed_Cons)
    ultimately show ?thesis
      using Cons.IH [OF s1(2,3), of "off + 1" "snd (g (offered e off) k)"]
      by (simp add: add.assoc)
  next
    case Full
    with s1 show ?thesis by (auto simp: feed_Cons)
  qed
qed simp

context ro_fs
begin

lemma emit_loop_feed:
  assumes sp: "sink_pure inv view v sink g" and es: "view_list v dir = Some es"
    and "inv s" "view s = v"
  shows "\<exists>s'. emit_loop fs dir sink off k s =
      Some (Inr (\<not> fst (feed g (entries_from off (drop (unat off) es)) k)),
            snd (feed g (entries_from off (drop (unat off) es)) k), s') \<and> inv s' \<and> view s' = v"
  using assms(3,4)
proof (induction "length es - unat off" arbitrary: off k s rule: less_induct)
  case less
  obtain r s1 where rd: "fs_readdir fs dir off s = (r, s1)" by fastforce
  from readdir_keeps [OF less(2) rd] less(3) have s1: "inv s1" "view s1 = v" by auto
  from readdir_page [OF less(2) _ rd] es less(3) obtain n
    where n: "r = Inr (take n (drop (unat off) es))" "unat off < length es \<longrightarrow> 0 < n" by auto
  show ?case
  proof (cases "unat off < length es")
    case False
    with n rd s1 show ?thesis by (simp add: emit_loop.simps [of fs dir sink off k s])
  next
    case True
    let ?tail = "drop (unat off) es"
    let ?page = "take n ?tail"
    have ne: "?page \<noteq> []" using True n by auto
    from emit_page_feed [OF sp s1, of ?page off k] obtain off' s2
      where ep: "emit_page sink ?page off k s1 =
          (fst (feed g (entries_from off ?page) k), off', snd (feed g (entries_from off ?page) k), s2)"
        and off': "\<not> fst (feed g (entries_from off ?page) k) \<longrightarrow> off' = off + of_nat (length ?page)"
        and s2: "inv s2" "view s2 = v" by blast
    have split: "entries_from off ?tail =
        entries_from off ?page @ entries_from (off + of_nat (length ?page)) (drop n ?tail)"
      by (metis append_take_drop_id entries_from_append)
    have unf: "emit_loop fs dir sink off k s =
        (if fst (feed g (entries_from off ?page) k)
         then Some (Inr False, snd (feed g (entries_from off ?page) k), s2)
         else emit_loop fs dir sink off' (snd (feed g (entries_from off ?page) k)) s2)"
      using rd n(1) ne ep by (simp add: emit_loop.simps [of fs dir sink off k s])
    show ?thesis
    proof (cases "fst (feed g (entries_from off ?page) k)")
      case True
      with unf s2 show ?thesis unfolding split feed_append by simp
    next
      case False
      have len: "length es < 2 ^ 63" using list_short [OF less(2)] es less(3) by simp
      have u: "unat off' = unat off + length ?page"
        using off' False len True by (simp add: unat_word_ariths unat_of_nat)
      have "length es - unat off' < length es - unat off" using u True ne by simp
      from less(1) [OF this s2] obtain s3 where
        rec: "emit_loop fs dir sink off' (snd (feed g (entries_from off ?page) k)) s2 =
          Some (Inr (\<not> fst (feed g (entries_from off' (drop (unat off') es))
                       (snd (feed g (entries_from off ?page) k)))),
                snd (feed g (entries_from off' (drop (unat off') es))
                       (snd (feed g (entries_from off ?page) k))), s3)"
        and s3: "inv s3" "view s3 = v" by blast
      have d: "drop (unat off') es = drop n ?tail"
        using u by (simp add: min_def add.commute)
      from unf False rec s3 off' show ?thesis unfolding split feed_append d by simp
    qed
  qed
qed

lemma emit_synthesize_feed:
  assumes sp: "sink_pure inv view v sink g" and es: "view_list v dir = Some es"
    and "inv s" "view s = v"
  shows "\<exists>s'. emit fs dir resume Synthesize sink k s =
      Some (Inr (\<not> fst (feed g (drop (unat resume) (full_listing v dir es)) k)),
            snd (feed g (drop (unat resume) (full_listing v dir es)) k), s') \<and> inv s' \<and> view s' = v"
proof -
  note loop = emit_loop_feed [OF sp es]
  have dd: "\<exists>s'. (case fs_lookup fs dir (ascii ''..'') s of
        (res, s) \<Rightarrow> (let parent = (case res of Inl _ \<Rightarrow> dir | Inr a \<Rightarrow> attr_ino a)
           in case sink (dotdot_entry parent) k s of
                (Full, k, s) \<Rightarrow> Some (Inr False, k, s)
              | (Accepted, k, s) \<Rightarrow> emit_loop fs dir sink (trait_offset DOTDOT) k s)) =
      Some (Inr (\<not> fst (feed g (dotdot_entry (parent_ino v dir) # entries_from 0 es) k)),
            snd (feed g (dotdot_entry (parent_ino v dir) # entries_from 0 es) k), s') \<and> inv s' \<and> view s' = v"
    if s: "inv s" "view s = v" for k s
  proof -
    obtain res s1 where lk: "fs_lookup fs dir (ascii ''..'') s = (res, s1)" by fastforce
    from lookup_eq [OF s(1) lk] s(2) have s1: "inv s1" "view s1 = v"
      and p: "parent_ino v dir = (case res of Inl _ \<Rightarrow> dir | Inr a \<Rightarrow> attr_ino a)"
      by (auto simp: parent_ino_def split: sum.splits)
    let ?e = "dotdot_entry (parent_ino v dir)"
    from sink_pureE [OF sp s1] obtain s2
      where s2: "sink ?e k s1 = (fst (g ?e k), snd (g ?e k), s2)" "inv s2" "view s2 = v" .
    have "trait_offset DOTDOT = 0" by (simp add: trait_offset_def saturating_sub_def)
    with s2 loop [OF s2(2,3), of 0 "snd (g ?e k)"] show ?thesis
      by (cases "fst (g ?e k)") (simp_all add: lk Let_def flip: p, simp_all add: feed_Cons)
  qed
  consider "resume = 0" | "resume = 1" | "2 \<le> unat resume"
    by (metis One_nat_def less_2_cases not_le unat_eq_zero unat_1 word_unat_eq_iff)
  then show ?thesis
  proof cases
    case 1
    from sink_pureE [OF sp assms(3,4)] obtain s1 where s1:
      "sink (dot_entry dir) k s = (fst (g (dot_entry dir) k), snd (g (dot_entry dir) k), s1)"
      "inv s1" "view s1 = v" .
    show ?thesis
    proof (cases "fst (g (dot_entry dir) k)")
      case Accepted
      with dd [OF s1(2,3), of "snd (g (dot_entry dir) k)"] s1 1 show ?thesis
        by (simp add: emit_def full_listing_def Let_def feed_Cons [of g "dot_entry dir"])
    next
      case Full
      with s1 1 show ?thesis by (simp add: emit_def full_listing_def feed_Cons Let_def)
    qed
  next
    case 2
    with dd [OF assms(3,4), of k] show ?thesis by (simp add: emit_def full_listing_def DOT_def Let_def)
  next
    case 3
    have off: "trait_offset resume = resume - 2" "unat (resume - 2) = unat resume - 2"
      using 3 by (simp_all add: trait_offset_def saturating_sub_def DOTDOT_def word_less_nat_alt
          word_le_nat_alt unat_sub)
    have "drop (unat resume) (full_listing v dir es) = drop (unat resume - 2) (entries_from 0 es)"
      using 3 by (simp add: full_listing_def drop_Cons' numeral_2_eq_2)
    also have "\<dots> = entries_from (resume - 2) (drop (unat (resume - 2)) es)"
      by (simp add: drop_entries_from flip: off(2))
    finally have tail: "drop (unat resume) (full_listing v dir es) =
        entries_from (resume - 2) (drop (unat (resume - 2)) es)" .
    have "resume \<noteq> 0" "resume \<noteq> DOT" using 3 by (auto simp: DOT_def)
    with loop [OF assms(3,4), of "resume - 2" k] show ?thesis
      by (simp add: emit_def Let_def tail off(1))
  qed
qed

end

section \<open>Resuming\<close>

text \<open>
  The cookie of an entry resumes after it, not at it: the trait offset of the cookie
  \<open>for_entry\<close> gives to offset \<open>o\<close> is \<open>o + 1\<close>, for every offset whose cookie does not wrap.
\<close>

lemma cookie_resumes_after:
  assumes "unat off < 2 ^ 64 - 3"
  shows "unat (trait_offset (for_entry off)) = unat off + 1"
  using assms
  by (simp add: trait_offset_def unat_saturating_sub for_entry_def DOTDOT_def unat_word_ariths)

end
