(* ===== verification/Xdr_Grammar.thy ===== *)
theory Xdr_Grammar
  imports Xdr
begin

text \<open>
  The wire grammar a reply has to follow, stated independently of the code that writes it:
  XDR types built from the primitives of \<open>src/backend/nfs/xdr.rs\<close>, and the byte strings that
  are encodings of a type. The NFS and MOUNT layers show that every reply they build is an
  encoding of the result type RFC 1813 gives the procedure; the theorem here says what that
  buys a client: at most one prefix of a byte stream is an encoding of a given type, so it
  can tell where a reply ends.
\<close>

datatype xdr_type =
    T_u32 | T_u64 | T_bool
  | T_fixed nat
  | T_opaque nat
  | T_seq "xdr_type list"
  | T_opt xdr_type
  | T_list xdr_type
  | T_result xdr_type xdr_type

inductive xdr_enc :: "xdr_type \<Rightarrow> bytes \<Rightarrow> bool" where
  enc_u32: "xdr_enc T_u32 (u32_to_be_bytes v)"
| enc_u64: "xdr_enc T_u64 (u64_to_be_bytes v64)"
| enc_bool: "xdr_enc T_bool (u32_to_be_bytes (of_bool b))"
| enc_fixed: "length d = n \<Longrightarrow> xdr_enc (T_fixed n) (enc_opaque_fixed d)"
| enc_opaque: "length d \<le> n \<Longrightarrow> length d < 2 ^ 32 \<Longrightarrow> xdr_enc (T_opaque n) (enc_opaque_var d)"
| enc_seq_Nil: "xdr_enc (T_seq []) []"
| enc_seq_Cons: "xdr_enc t a \<Longrightarrow> xdr_enc (T_seq ts) bs \<Longrightarrow> xdr_enc (T_seq (t # ts)) (a @ bs)"
| enc_absent: "xdr_enc (T_opt t) (u32_to_be_bytes 0)"
| enc_present: "xdr_enc t a \<Longrightarrow> xdr_enc (T_opt t) (u32_to_be_bytes 1 @ a)"
| enc_list_end: "xdr_enc (T_list t) (u32_to_be_bytes 0)"
| enc_list_more: "xdr_enc t a \<Longrightarrow> xdr_enc (T_list t) bs \<Longrightarrow>
    xdr_enc (T_list t) (u32_to_be_bytes 1 @ a @ bs)"
| enc_ok: "xdr_enc t a \<Longrightarrow> xdr_enc (T_result t e) (u32_to_be_bytes 0 @ a)"
| enc_err: "st \<noteq> 0 \<Longrightarrow> xdr_enc e a \<Longrightarrow> xdr_enc (T_result t e) (u32_to_be_bytes st @ a)"

inductive_cases xdr_enc_seq_NilE: "xdr_enc (T_seq []) bs"
inductive_cases xdr_enc_seq_ConsE: "xdr_enc (T_seq (t # ts)) bs"
inductive_cases xdr_enc_u32E: "xdr_enc T_u32 bs"
inductive_cases xdr_enc_u64E: "xdr_enc T_u64 bs"
inductive_cases xdr_enc_boolE: "xdr_enc T_bool bs"
inductive_cases xdr_enc_fixedE: "xdr_enc (T_fixed n) bs"
inductive_cases xdr_enc_opaqueE: "xdr_enc (T_opaque n) bs"
inductive_cases xdr_enc_optE: "xdr_enc (T_opt t) bs"
inductive_cases xdr_enc_listE: "xdr_enc (T_list t) bs"
inductive_cases xdr_enc_resultE: "xdr_enc (T_result t e) bs"

lemmas xdr_enc_seq = enc_seq_Nil enc_seq_Cons

lemma u32_prefix: "u32_to_be_bytes a @ x = u32_to_be_bytes b @ y \<longleftrightarrow> a = b \<and> x = y"
  by (simp add: append_eq_append_conv)

lemma u64_prefix: "u64_to_be_bytes a @ x = u64_to_be_bytes b @ y \<longleftrightarrow> a = b \<and> x = y"
  by (simp add: append_eq_append_conv)

lemma length_enc_opaque_fixed: "length d = length d' \<Longrightarrow> length (enc_opaque_fixed d) = length (enc_opaque_fixed d')"
  by (simp add: enc_opaque_fixed_def)

lemma enc_opaque_var_prefix:
  assumes "length d < 2 ^ 32" "length d' < 2 ^ 32" "enc_opaque_var d @ x = enc_opaque_var d' @ y"
  shows "enc_opaque_var d = enc_opaque_var d' \<and> x = y"
proof -
  have "(of_nat (length d) :: u32) = of_nat (length d')"
    and rest: "enc_opaque_fixed d @ x = enc_opaque_fixed d' @ y"
    using assms(3) by (simp_all add: enc_opaque_var_def u32_prefix)
  then have "unat (of_nat (length d) :: u32) = unat (of_nat (length d') :: u32)" by simp
  with assms(1,2) have "length d = length d'" by (simp add: unat_of_nat)
  with rest have "enc_opaque_fixed d = enc_opaque_fixed d' \<and> x = y"
    using length_enc_opaque_fixed by (metis append_eq_append_conv)
  with \<open>length d = length d'\<close> show ?thesis by (simp add: enc_opaque_var_def)
qed

lemma xdr_enc_prefix_free:
  "xdr_enc t a \<Longrightarrow> xdr_enc t b \<Longrightarrow> a @ x = b @ y \<Longrightarrow> a = b"
proof (induction arbitrary: b x y rule: xdr_enc.induct)
  case (enc_u32 v)
  then show ?case by (auto elim!: xdr_enc_u32E simp: u32_prefix)
next
  case (enc_u64 v64)
  then show ?case by (auto elim!: xdr_enc_u64E simp: u64_prefix)
next
  case (enc_bool c)
  then show ?case by (auto elim!: xdr_enc_boolE simp: u32_prefix)
next
  case (enc_fixed d n)
  then show ?case
    by (auto elim!: xdr_enc_fixedE) (metis append_eq_append_conv length_enc_opaque_fixed)
next
  case (enc_opaque d n)
  from enc_opaque.prems(1) obtain d' where "b = enc_opaque_var d'" "length d' < 2 ^ 32"
    by (auto elim!: xdr_enc_opaqueE)
  with enc_opaque enc_opaque_var_prefix show ?case by metis
next
  case enc_seq_Nil
  then show ?case by (auto elim: xdr_enc_seq_NilE)
next
  case (enc_seq_Cons t a ts bs)
  from enc_seq_Cons.prems(1) show ?case
  proof (rule xdr_enc_seq_ConsE)
    fix a' bs' assume b: "b = a' @ bs'" "xdr_enc t a'" "xdr_enc (T_seq ts) bs'"
    with enc_seq_Cons have "a = a'" by (metis append.assoc)
    with enc_seq_Cons b show ?thesis by (metis append.assoc same_append_eq)
  qed
next
  case (enc_absent t)
  then show ?case by (auto elim!: xdr_enc_optE simp: u32_prefix)
next
  case (enc_present t a)
  from enc_present.prems(1) show ?case
  proof (rule xdr_enc_optE)
    assume "b = u32_to_be_bytes 0"
    with enc_present.prems(2) show ?thesis by (simp add: u32_prefix)
  next
    fix a' assume b: "b = u32_to_be_bytes 1 @ a'" "xdr_enc t a'"
    have "a @ x = a' @ y"
      using enc_present.prems(2) unfolding b(1) append.assoc u32_prefix by blast
    from enc_present.IH [OF b(2) this] b(1) show ?thesis by simp
  qed
next
  case (enc_list_end t)
  from enc_list_end.prems(1) show ?case
    by (rule xdr_enc_listE) (use enc_list_end.prems(2) in \<open>simp_all add: u32_prefix\<close>)
next
  case (enc_list_more t a bs)
  from enc_list_more.prems(1) show ?case
  proof (rule xdr_enc_listE)
    assume "b = u32_to_be_bytes 0"
    with enc_list_more.prems(2) show ?thesis by (simp add: u32_prefix)
  next
    fix a' bs' assume b: "b = u32_to_be_bytes 1 @ a' @ bs'" "xdr_enc t a'" "xdr_enc (T_list t) bs'"
    have eq: "a @ bs @ x = a' @ bs' @ y"
      using enc_list_more.prems(2) unfolding b(1) append.assoc u32_prefix by blast
    from enc_list_more.IH(1) [OF b(2) this] have "a = a'" .
    with eq enc_list_more.IH(2) [OF b(3)] b(1) show ?thesis by (metis same_append_eq)
  qed
next
  case (enc_ok t a e)
  from enc_ok.prems(1) show ?case
  proof (rule xdr_enc_resultE)
    fix a' assume b: "b = u32_to_be_bytes 0 @ a'" "xdr_enc t a'"
    have "a @ x = a' @ y" using enc_ok.prems(2) unfolding b(1) append.assoc u32_prefix by blast
    from enc_ok.IH [OF b(2) this] b(1) show ?thesis by simp
  next
    fix st' a' assume b: "b = u32_to_be_bytes st' @ a'" "st' \<noteq> 0" "xdr_enc e a'"
    with enc_ok.prems(2) show ?thesis by (simp add: u32_prefix)
  qed
next
  case (enc_err st e a t)
  from enc_err.prems(1) show ?case
  proof (rule xdr_enc_resultE)
    fix a' assume b: "b = u32_to_be_bytes 0 @ a'" "xdr_enc t a'"
    with enc_err.prems(2) enc_err.hyps(1) show ?thesis by (simp add: u32_prefix)
  next
    fix st' a' assume b: "b = u32_to_be_bytes st' @ a'" "st' \<noteq> 0" "xdr_enc e a'"
    have "st = st' \<and> a @ x = a' @ y"
      using enc_err.prems(2) unfolding b(1) append.assoc u32_prefix by blast
    then show ?thesis using enc_err.IH [OF b(3)] b(1) by blast
  qed
qed

section \<open>Lists built from the front\<close>

text \<open>The items of a list that is still being written, each announced by a \<open>true\<close>.\<close>

inductive xdr_items :: "xdr_type \<Rightarrow> bytes \<Rightarrow> bool" where
  items_none: "xdr_items t []"
| items_snoc: "xdr_items t w \<Longrightarrow> xdr_enc t a \<Longrightarrow> xdr_items t (w @ u32_to_be_bytes 1 @ a)"

lemma xdr_items_list: "xdr_items t w \<Longrightarrow> xdr_enc (T_list t) l \<Longrightarrow> xdr_enc (T_list t) (w @ l)"
proof (induction arbitrary: l rule: xdr_items.induct)
  case (items_snoc t w a)
  from items_snoc.IH [OF enc_list_more [OF items_snoc.hyps(2) items_snoc.prems]] show ?case by simp
qed simp

text \<open>Every encoding is a whole number of 4-byte units.\<close>

lemma xdr_enc_aligned: "xdr_enc t a \<Longrightarrow> 4 dvd length a"
  by (induction rule: xdr_enc.induct)
    (auto simp: enc_opaque_fixed_aligned enc_opaque_var_aligned)

end
