(* ===== verification/Nfs_Proto.thy ===== *)
theory Nfs_Proto
  imports Rpc Handle3 Readdir Xdr_Grammar
begin

text \<open>
  The NFS program, version 3, \<open>src/backend/nfs/nfs_proto.rs\<close>: the attribute encoders, every
  procedure handler and the dispatch table. A handler takes the reader at its arguments, the
  call context and the filesystem's state, and returns its outcome with the state it leaves;
  the reader's last position is not observed by the caller and is not returned. \<open>dispatch\<close>
  and the two directory procedures return an option because listing a directory is a loop
  over the implementor's pages; that they always return is a theorem.
\<close>

section \<open>Constants and context\<close>

definition NFS3_OK :: u32 where "NFS3_OK = 0"
definition NFS3ERR_NOENT :: u32 where "NFS3ERR_NOENT = 2"
definition NFS3ERR_ROFS :: u32 where "NFS3ERR_ROFS = 30"
definition NFS3ERR_TOOSMALL :: u32 where "NFS3ERR_TOOSMALL = 10005"
definition NFS3ERR_NOTSUPP :: u32 where "NFS3ERR_NOTSUPP = 10004"
definition FTYPE_REG :: u32 where "FTYPE_REG = 1"
definition FTYPE_DIR :: u32 where "FTYPE_DIR = 2"
definition RTMAX :: u32 where "RTMAX = 1048576"
definition FSF3_HOMOGENEOUS :: u32 where "FSF3_HOMOGENEOUS = 8"
definition DIRLIST_OVERHEAD :: u32 where "DIRLIST_OVERHEAD = 128"

lemmas nfs_consts = NFS3_OK_def NFS3ERR_NOENT_def NFS3ERR_ROFS_def NFS3ERR_TOOSMALL_def
  NFS3ERR_NOTSUPP_def FTYPE_REG_def FTYPE_DIR_def RTMAX_def FSF3_HOMOGENEOUS_def DIRLIST_OVERHEAD_def

record 's ctx =
  ctx_fs :: "'s read_only_fs"
  ctx_handle :: file_handle3
  ctx_fsid :: u64

section \<open>Attributes\<close>

definition write_nfstime3 :: "system_time \<Rightarrow> writer \<Rightarrow> writer" where
  "write_nfstime3 t w =
     (let dur = (case duration_since_epoch t of None \<Rightarrow> duration_default | Some d \<Rightarrow> d);
          w = write_u32 (ucast (dur_secs dur)) w
      in write_u32 (dur_nanos dur) w)"

definition write_fattr3 :: "file_attr \<Rightarrow> u64 \<Rightarrow> writer \<Rightarrow> writer" where
  "write_fattr3 attr fsid w =
     (let ftype = (case attr_kind attr of File \<Rightarrow> FTYPE_REG | Directory \<Rightarrow> FTYPE_DIR);
          w = write_u32 ftype w;
          w = write_u32 (ucast (attr_perm attr)) w;
          w = write_u32 (attr_nlink attr) w;
          w = write_u32 (attr_uid attr) w;
          w = write_u32 (attr_gid attr) w;
          w = write_u64 (attr_size attr) w;
          w = write_u64 (attr_size attr) w;
          w = write_u32 0 w;
          w = write_u32 0 w;
          w = write_u64 fsid w;
          w = write_u64 (ino_num (attr_ino attr)) w;
          w = write_nfstime3 (attr_atime attr) w;
          w = write_nfstime3 (attr_mtime attr) w
      in write_nfstime3 (attr_ctime attr) w)"

definition write_post_op_attr_ok :: "file_attr \<Rightarrow> u64 \<Rightarrow> writer \<Rightarrow> writer" where
  "write_post_op_attr_ok attr fsid w = write_fattr3 attr fsid (write_bool True w)"

definition write_post_op_attr_absent :: "writer \<Rightarrow> writer" where
  "write_post_op_attr_absent w = write_bool False w"

definition write_post_op_attr_best_effort :: "'s ctx \<Rightarrow> ino \<Rightarrow> writer \<Rightarrow> 's \<Rightarrow> writer \<times> 's" where
  "write_post_op_attr_best_effort ctx ino w s =
     (case fs_getattr (ctx_fs ctx) ino s of
        (Inr attr, s) \<Rightarrow> (write_post_op_attr_ok attr (ctx_fsid ctx) w, s)
      | (Inl _, s) \<Rightarrow> (write_post_op_attr_absent w, s))"

definition write_wcc_data_zero :: "writer \<Rightarrow> writer" where
  "write_wcc_data_zero w = write_bool False (write_bool False w)"

section \<open>Rejected procedures\<close>

definition reject_rofs_wcc :: proc_outcome where
  "reject_rofs_wcc =
     (let w = writer_new; w = write_u32 NFS3ERR_ROFS w; w = write_wcc_data_zero w in Success w)"

definition reject_notsupp_wcc :: proc_outcome where
  "reject_notsupp_wcc =
     (let w = writer_new; w = write_u32 NFS3ERR_NOTSUPP w; w = write_wcc_data_zero w in Success w)"

definition reject_rofs_rename :: proc_outcome where
  "reject_rofs_rename =
     (let w = writer_new;
          w = write_u32 NFS3ERR_ROFS w;
          w = write_wcc_data_zero w;
          w = write_wcc_data_zero w
      in Success w)"

definition reject_rofs_link :: proc_outcome where
  "reject_rofs_link =
     (let w = writer_new;
          w = write_u32 NFS3ERR_ROFS w;
          w = write_post_op_attr_absent w;
          w = write_wcc_data_zero w
      in Success w)"

definition reject_notsupp_readlink :: proc_outcome where
  "reject_notsupp_readlink =
     (let w = writer_new; w = write_u32 NFS3ERR_NOTSUPP w; w = write_post_op_attr_absent w in Success w)"

section \<open>GETATTR, LOOKUP and ACCESS\<close>

definition nfs_getattr :: "reader \<Rightarrow> 's ctx \<Rightarrow> 's \<Rightarrow> proc_outcome \<times> 's" where
  "nfs_getattr r ctx s =
     let_some (read_opaque_var 64) (\<lambda>_. (GarbageArgs, s)) (\<lambda>fh _.
       let w = writer_new
       in case handle_resolve (ctx_handle ctx) fh of
            Some ino \<Rightarrow>
              (case fs_getattr (ctx_fs ctx) ino s of
                 (Inr attr, s) \<Rightarrow>
                   (let w = write_u32 NFS3_OK w; w = write_fattr3 attr (ctx_fsid ctx) w in (Success w, s))
               | (Inl e, s) \<Rightarrow> (Success (write_u32 (to_nfsstat3 e) w), s))
          | None \<Rightarrow> (Success (write_u32 NFS3ERR_NOENT w), s)) r"

definition nfs_lookup :: "reader \<Rightarrow> 's ctx \<Rightarrow> 's \<Rightarrow> proc_outcome \<times> 's" where
  "nfs_lookup r ctx s =
     let_some (read_opaque_var 64) (\<lambda>_. (GarbageArgs, s)) (\<lambda>dirfh.
     let_some (read_string 1024) (\<lambda>_. (GarbageArgs, s)) (\<lambda>name _.
       let w = writer_new
       in case handle_resolve (ctx_handle ctx) dirfh of
            None \<Rightarrow> (Success (write_post_op_attr_absent (write_u32 NFS3ERR_NOENT w)), s)
          | Some dir_ino \<Rightarrow>
              (case fs_lookup (ctx_fs ctx) dir_ino name s of
                 (Inr attr, s) \<Rightarrow>
                   (let w = write_u32 NFS3_OK w;
                        w = write_opaque_var (handle_encode (ctx_handle ctx) (attr_ino attr)) w;
                        w = write_post_op_attr_ok attr (ctx_fsid ctx) w
                    in case write_post_op_attr_best_effort ctx dir_ino w s of (w, s) \<Rightarrow> (Success w, s))
               | (Inl e, s) \<Rightarrow>
                   (let w = write_u32 (to_nfsstat3 e) w
                    in case write_post_op_attr_best_effort ctx dir_ino w s of
                         (w, s) \<Rightarrow> (Success w, s))))) r"

definition nfs_access :: "reader \<Rightarrow> 's ctx \<Rightarrow> 's \<Rightarrow> proc_outcome \<times> 's" where
  "nfs_access r ctx s =
     let_some (read_opaque_var 64) (\<lambda>_. (GarbageArgs, s)) (\<lambda>fh.
     let_some read_u32 (\<lambda>_. (GarbageArgs, s)) (\<lambda>requested _.
       let w = writer_new
       in case handle_resolve (ctx_handle ctx) fh of
            None \<Rightarrow> (Success (write_post_op_attr_absent (write_u32 NFS3ERR_NOENT w)), s)
          | Some ino \<Rightarrow>
              (case fs_getattr (ctx_fs ctx) ino s of
                 (Inr attr, s) \<Rightarrow>
                   (let w = write_u32 NFS3_OK w;
                        w = write_post_op_attr_ok attr (ctx_fsid ctx) w;
                        w = write_u32 (requested AND (1 OR 2 OR 32)) w
                    in (Success w, s))
               | (Inl e, s) \<Rightarrow>
                   (let w = write_u32 (to_nfsstat3 e) w;
                        w = write_post_op_attr_absent w
                    in (Success w, s))))) r"

section \<open>READ\<close>

definition release_logging :: "'s ctx \<Rightarrow> file_handle \<Rightarrow> 's \<Rightarrow> 's" where
  "release_logging ctx fh s = (case fs_release (ctx_fs ctx) fh s of (_, s) \<Rightarrow> s)"

text \<open>The part of \<open>read\<close> after a successful \<open>read_at\<close>: the reply for \<open>n\<close> bytes in \<open>buf\<close>.\<close>

definition nfs_read_ok ::
  "'s ctx \<Rightarrow> ino \<Rightarrow> file_handle \<Rightarrow> u64 \<Rightarrow> usize \<Rightarrow> bytes \<Rightarrow> writer \<Rightarrow> 's \<Rightarrow> proc_outcome \<times> 's" where
  "nfs_read_ok ctx ino fh offset n buf w s =
     (let n = min n (length buf);
          buf = take n buf;
          s = release_logging ctx fh s
      in case fs_getattr (ctx_fs ctx) ino s of
           (res, s) \<Rightarrow>
             (let attr = (case res of Inr a \<Rightarrow> Some a | Inl _ \<Rightarrow> None);
                  w = write_u32 NFS3_OK w;
                  w = (case attr of
                         Some a \<Rightarrow> write_post_op_attr_ok a (ctx_fsid ctx) w
                       | None \<Rightarrow> write_post_op_attr_absent w);
                  w = write_u32 (of_nat n) w;
                  eof = (case attr of
                           Some a \<Rightarrow> u64_saturating_add offset (of_nat n) \<ge> attr_size a
                         | None \<Rightarrow> False);
                  w = write_bool eof w;
                  w = write_opaque_var buf w
              in (Success w, s)))"

definition nfs_read :: "reader \<Rightarrow> 's ctx \<Rightarrow> 's \<Rightarrow> proc_outcome \<times> 's" where
  "nfs_read r ctx s =
     let_some (read_opaque_var 64) (\<lambda>_. (GarbageArgs, s)) (\<lambda>fh.
     let_some read_u64 (\<lambda>_. (GarbageArgs, s)) (\<lambda>offset.
     let_some read_u32 (\<lambda>_. (GarbageArgs, s)) (\<lambda>count _.
       let count = min count RTMAX;
           w = writer_new
       in case handle_resolve (ctx_handle ctx) fh of
            None \<Rightarrow> (Success (write_post_op_attr_absent (write_u32 NFS3ERR_NOENT w)), s)
          | Some ino \<Rightarrow>
              (case fs_open (ctx_fs ctx) ino s of
                 (Inr fh, s) \<Rightarrow>
                   (let buf = replicate (unat count) 0
                    in case read_at_buf (ctx_fs ctx) fh offset buf s of
                         ((Inr n, buf), s) \<Rightarrow> nfs_read_ok ctx ino fh offset n buf w s
                       | ((Inl e, buf), s) \<Rightarrow>
                           (let s = release_logging ctx fh s;
                                w = write_u32 (to_nfsstat3 e) w
                            in case write_post_op_attr_best_effort ctx ino w s of
                                 (w, s) \<Rightarrow> (Success w, s)))
               | (Inl e, s) \<Rightarrow>
                   (let w = write_u32 (to_nfsstat3 e) w
                    in case write_post_op_attr_best_effort ctx ino w s of
                         (w, s) \<Rightarrow> (Success w, s)))))) r"

section \<open>READDIR and READDIRPLUS\<close>

record dir_list =
  dl_entries :: writer
  dl_eof :: bool
  dl_packed :: usize

definition encode_dirent ::
  "'s ctx \<Rightarrow> ino \<Rightarrow> os_string \<Rightarrow> u64 \<Rightarrow> bool \<Rightarrow> 's \<Rightarrow> writer \<times> 's" where
  "encode_dirent ctx ino name cookie is_plus s =
     (let w = writer_new;
          w = write_bool True w;
          w = write_u64 (ino_num ino) w;
          w = write_string name w;
          w = write_u64 cookie w
      in if is_plus then
           (case fs_getattr (ctx_fs ctx) ino s of
              (Inr attr, s) \<Rightarrow>
                (let w = write_bool True w;
                     w = write_fattr3 attr (ctx_fsid ctx) w;
                     w = write_bool True w;
                     w = write_opaque_var (handle_encode (ctx_handle ctx) ino) w
                 in (w, s))
            | (Inl _, s) \<Rightarrow> (write_bool False (write_bool False w), s))
         else (w, s))"

text \<open>The closure's state: \<open>entries\<close>, \<open>remaining\<close> (an \<open>i64\<close>) and \<open>packed\<close>.\<close>

record dirlist_acc =
  acc_entries :: writer
  acc_remaining :: i64
  acc_packed :: usize

definition dirlist_sink :: "'s ctx \<Rightarrow> bool \<Rightarrow> (dirlist_acc, 's) sink" where
  "dirlist_sink ctx is_plus e k s =
     (case encode_dirent ctx (en_ino e) (en_name e) (en_cookie e) is_plus s of
        (candidate, s) \<Rightarrow>
          if int (writer_len candidate) > acc_remaining k then (Full, k, s)
          else (Accepted,
                \<lparr>acc_entries = extend_from candidate (acc_entries k),
                 acc_remaining = acc_remaining k - int (writer_len candidate),
                 acc_packed = acc_packed k + 1\<rparr>, s))"

definition dirlist_start :: "u32 \<Rightarrow> dirlist_acc" where
  "dirlist_start budget =
     \<lparr>acc_entries = writer_new, acc_remaining = int (unat budget), acc_packed = 0\<rparr>"

definition build_dirlist ::
  "'s ctx \<Rightarrow> ino \<Rightarrow> u64 \<Rightarrow> u32 \<Rightarrow> bool \<Rightarrow> 's \<Rightarrow> (dir_list fs_result \<times> 's) option" where
  "build_dirlist ctx dir start_cookie budget is_plus s =
     (case emit (ctx_fs ctx) dir start_cookie Synthesize (dirlist_sink ctx is_plus) (dirlist_start budget) s of
        None \<Rightarrow> None
      | Some (Inl e, _, s) \<Rightarrow> Some (Inl e, s)
      | Some (Inr eof, k, s) \<Rightarrow>
          Some (Inr \<lparr>dl_entries = acc_entries k, dl_eof = eof, dl_packed = acc_packed k\<rparr>, s))"

text \<open>The part of \<open>readdir_common\<close> after the arguments: the reply for one directory.\<close>

definition readdir_reply ::
  "'s ctx \<Rightarrow> bool \<Rightarrow> bytes \<Rightarrow> u64 \<Rightarrow> u32 \<Rightarrow> 's \<Rightarrow> (proc_outcome \<times> 's) option" where
  "readdir_reply ctx is_plus dirfh start_cookie budget s =
     (let w = writer_new
      in case handle_resolve (ctx_handle ctx) dirfh of
           None \<Rightarrow> Some (Success (write_post_op_attr_absent (write_u32 NFS3ERR_NOENT w)), s)
         | Some dir \<Rightarrow>
             (let budget = saturating_sub budget DIRLIST_OVERHEAD
              in case build_dirlist ctx dir start_cookie budget is_plus s of
                   None \<Rightarrow> None
                 | Some (Inr list, s) \<Rightarrow>
                     if dl_packed list = 0 \<and> \<not> dl_eof list then
                       (case write_post_op_attr_best_effort ctx dir (write_u32 NFS3ERR_TOOSMALL w) s of
                          (w, s) \<Rightarrow> Some (Success w, s))
                     else
                       (case write_post_op_attr_best_effort ctx dir (write_u32 NFS3_OK w) s of
                          (w, s) \<Rightarrow>
                            (let w = write_opaque_fixed (cookieverf (ctx_handle ctx)) w;
                                 w = extend_from (dl_entries list) w;
                                 w = write_bool False w;
                                 w = write_bool (dl_eof list) w
                             in Some (Success w, s)))
                 | Some (Inl e, s) \<Rightarrow>
                     (case write_post_op_attr_best_effort ctx dir (write_u32 (to_nfsstat3 e) w) s of
                        (w, s) \<Rightarrow> Some (Success w, s))))"

definition readdir_common :: "reader \<Rightarrow> 's ctx \<Rightarrow> bool \<Rightarrow> 's \<Rightarrow> (proc_outcome \<times> 's) option" where
  "readdir_common r ctx is_plus s =
     (let garbage = (\<lambda>_. Some (GarbageArgs, s))
      in let_some (read_opaque_var 64) garbage (\<lambda>dirfh.
         let_some read_u64 garbage (\<lambda>start_cookie.
         let_some (read_opaque_fixed 8) garbage (\<lambda>_.
           if is_plus then
             let_some read_u32 garbage (\<lambda>_.
             let_some read_u32 garbage (\<lambda>maxcount _.
               readdir_reply ctx is_plus dirfh start_cookie maxcount s))
           else
             let_some read_u32 garbage (\<lambda>count _.
               readdir_reply ctx is_plus dirfh start_cookie count s)))) r)"

section \<open>FSSTAT, FSINFO and PATHCONF\<close>

definition fsstat :: "reader \<Rightarrow> 's ctx \<Rightarrow> 's \<Rightarrow> proc_outcome \<times> 's" where
  "fsstat r ctx s =
     let_some (read_opaque_var 64) (\<lambda>_. (GarbageArgs, s)) (\<lambda>fh _.
       let w = writer_new
       in case handle_resolve (ctx_handle ctx) fh of
            None \<Rightarrow> (Success (write_post_op_attr_absent (write_u32 NFS3ERR_NOENT w)), s)
          | Some ino \<Rightarrow>
              (case fs_statfs (ctx_fs ctx) s of
                 (Inr st, s) \<Rightarrow>
                   (let frsize = (ucast (sf_frsize st) :: u64)
                    in case write_post_op_attr_best_effort ctx ino (write_u32 NFS3_OK w) s of
                         (w, s) \<Rightarrow>
                           (let w = write_u64 (u64_saturating_mul (sf_blocks st) frsize) w;
                                w = write_u64 (u64_saturating_mul (sf_bfree st) frsize) w;
                                w = write_u64 (u64_saturating_mul (sf_bavail st) frsize) w;
                                w = write_u64 (sf_files st) w;
                                w = write_u64 (sf_ffree st) w;
                                w = write_u64 (sf_ffree st) w;
                                w = write_u32 (- 1) w
                            in (Success w, s)))
               | (Inl e, s) \<Rightarrow>
                   (case write_post_op_attr_best_effort ctx ino (write_u32 (to_nfsstat3 e) w) s of
                      (w, s) \<Rightarrow> (Success w, s)))) r"

definition fsinfo :: "reader \<Rightarrow> 's ctx \<Rightarrow> 's \<Rightarrow> proc_outcome \<times> 's" where
  "fsinfo r ctx s =
     let_some (read_opaque_var 64) (\<lambda>_. (GarbageArgs, s)) (\<lambda>fh _.
       let w = writer_new
       in case handle_resolve (ctx_handle ctx) fh of
            None \<Rightarrow> (Success (write_post_op_attr_absent (write_u32 NFS3ERR_NOENT w)), s)
          | Some ino \<Rightarrow>
              (case write_post_op_attr_best_effort ctx ino (write_u32 NFS3_OK w) s of
                 (w, s) \<Rightarrow>
                   (let w = write_u32 RTMAX w;
                        w = write_u32 RTMAX w;
                        w = write_u32 4096 w;
                        w = write_u32 RTMAX w;
                        w = write_u32 RTMAX w;
                        w = write_u32 4096 w;
                        w = write_u32 32768 w;
                        w = write_u64 (- 1) w;
                        w = write_u32 1 w;
                        w = write_u32 0 w;
                        w = write_u32 FSF3_HOMOGENEOUS w
                    in (Success w, s)))) r"

definition pathconf :: "reader \<Rightarrow> 's ctx \<Rightarrow> 's \<Rightarrow> proc_outcome \<times> 's" where
  "pathconf r ctx s =
     let_some (read_opaque_var 64) (\<lambda>_. (GarbageArgs, s)) (\<lambda>fh _.
       let w = writer_new
       in case handle_resolve (ctx_handle ctx) fh of
            None \<Rightarrow> (Success (write_post_op_attr_absent (write_u32 NFS3ERR_NOENT w)), s)
          | Some ino \<Rightarrow>
              (case write_post_op_attr_best_effort ctx ino (write_u32 NFS3_OK w) s of
                 (w, s) \<Rightarrow>
                   (let w = write_u32 1 w;
                        w = write_u32 255 w;
                        w = write_bool True w;
                        w = write_bool True w;
                        w = write_bool False w;
                        w = write_bool True w
                    in (Success w, s)))) r"

section \<open>Dispatch\<close>

definition nfs_dispatch :: "u32 \<Rightarrow> reader \<Rightarrow> 's ctx \<Rightarrow> 's \<Rightarrow> (proc_outcome \<times> 's) option" where
  "nfs_dispatch proc r ctx s =
     (if proc = 0 then Some (Success writer_new, s)
      else if proc = 1 then Some (nfs_getattr r ctx s)
      else if proc = 2 then Some (reject_rofs_wcc, s)
      else if proc = 3 then Some (nfs_lookup r ctx s)
      else if proc = 4 then Some (nfs_access r ctx s)
      else if proc = 5 then Some (reject_notsupp_readlink, s)
      else if proc = 6 then Some (nfs_read r ctx s)
      else if proc = 7 then Some (reject_rofs_wcc, s)
      else if proc = 8 then Some (reject_rofs_wcc, s)
      else if proc = 9 then Some (reject_rofs_wcc, s)
      else if proc = 10 then Some (reject_notsupp_wcc, s)
      else if proc = 11 then Some (reject_rofs_wcc, s)
      else if proc = 12 then Some (reject_rofs_wcc, s)
      else if proc = 13 then Some (reject_rofs_wcc, s)
      else if proc = 14 then Some (reject_rofs_rename, s)
      else if proc = 15 then Some (reject_rofs_link, s)
      else if proc = 16 then readdir_common r ctx False s
      else if proc = 17 then readdir_common r ctx True s
      else if proc = 18 then Some (fsstat r ctx s)
      else if proc = 19 then Some (fsinfo r ctx s)
      else if proc = 20 then Some (pathconf r ctx s)
      else if proc = 21 then Some (reject_rofs_wcc, s)
      else Some (ProcUnavail, s))"

end
