(* ===== verification/Nfs_Replies.thy ===== *)
theory Nfs_Replies
  imports Nfs_Proto
begin

text \<open>
  The replies of the NFS program against RFC 1813. \<open>nfs_result_type\<close> is the result type the
  RFC gives each procedure; every successful reply of \<open>nfs_dispatch\<close> is an encoding of it,
  for every filesystem implementation, also one that breaks the contract of \<open>ReadOnlyFs\<close>.
  The same analysis gives that every call is answered and that a directory reply fits the
  size the client asked for.
\<close>

section \<open>Result types of RFC 1813\<close>

definition T_nfstime3 :: xdr_type where
  "T_nfstime3 = T_seq [T_u32, T_u32]"

definition T_fattr3 :: xdr_type where
  "T_fattr3 = T_seq [T_u32, T_u32, T_u32, T_u32, T_u32, T_u64, T_u64, T_seq [T_u32, T_u32],
     T_u64, T_u64, T_nfstime3, T_nfstime3, T_nfstime3]"

definition T_post_op_attr :: xdr_type where
  "T_post_op_attr = T_opt T_fattr3"

definition T_wcc_data :: xdr_type where
  "T_wcc_data = T_seq [T_opt (T_seq [T_u64, T_nfstime3, T_nfstime3]), T_post_op_attr]"

definition T_fh3 :: xdr_type where
  "T_fh3 = T_opaque 64"

definition T_filename3 :: xdr_type where
  "T_filename3 = T_opaque 4294967295"

definition T_entry3 :: "bool \<Rightarrow> xdr_type" where
  "T_entry3 is_plus = T_seq ([T_u64, T_filename3, T_u64] @
     (if is_plus then [T_post_op_attr, T_opt T_fh3] else []))"

definition nfs_result_type :: "u32 \<Rightarrow> xdr_type" where
  "nfs_result_type proc =
     (if proc = 0 then T_seq []
      else if proc = 1 then T_result T_fattr3 (T_seq [])
      else if proc = 3 then T_result (T_seq [T_fh3, T_post_op_attr, T_post_op_attr]) T_post_op_attr
      else if proc = 4 then T_result (T_seq [T_post_op_attr, T_u32]) T_post_op_attr
      else if proc = 5 then T_result (T_seq [T_post_op_attr, T_opaque 4294967295]) T_post_op_attr
      else if proc = 6 then
        T_result (T_seq [T_post_op_attr, T_u32, T_bool, T_opaque 4294967295]) T_post_op_attr
      else if proc = 7 then T_result (T_seq [T_wcc_data, T_u32, T_u32, T_fixed 8]) T_wcc_data
      else if 8 \<le> proc \<and> proc \<le> 11 then
        T_result (T_seq [T_opt T_fh3, T_post_op_attr, T_wcc_data]) T_wcc_data
      else if proc = 14 then
        T_result (T_seq [T_wcc_data, T_wcc_data]) (T_seq [T_wcc_data, T_wcc_data])
      else if proc = 15 then
        T_result (T_seq [T_post_op_attr, T_wcc_data]) (T_seq [T_post_op_attr, T_wcc_data])
      else if proc = 16 \<or> proc = 17 then
        T_result (T_seq [T_post_op_attr, T_fixed 8, T_list (T_entry3 (proc = 17)), T_bool]) T_post_op_attr
      else if proc = 18 then
        T_result (T_seq [T_post_op_attr, T_u64, T_u64, T_u64, T_u64, T_u64, T_u64, T_u32]) T_post_op_attr
      else if proc = 19 then
        T_result (T_seq [T_post_op_attr, T_u32, T_u32, T_u32, T_u32, T_u32, T_u32, T_u32, T_u64,
          T_u32, T_u32, T_u32]) T_post_op_attr
      else if proc = 20 then
        T_result (T_seq [T_post_op_attr, T_u32, T_u32, T_bool, T_bool, T_bool, T_bool]) T_post_op_attr
      else if proc = 21 then T_result (T_seq [T_wcc_data, T_fixed 8]) T_wcc_data
      else T_result T_wcc_data T_wcc_data)"

section \<open>What the encoders append\<close>

definition enc_nfstime3 :: "system_time \<Rightarrow> bytes" where
  "enc_nfstime3 t =
     (let dur = (case duration_since_epoch t of None \<Rightarrow> duration_default | Some d \<Rightarrow> d)
      in u32_to_be_bytes (ucast (dur_secs dur)) @ u32_to_be_bytes (dur_nanos dur))"

definition enc_fattr3 :: "file_attr \<Rightarrow> u64 \<Rightarrow> bytes" where
  "enc_fattr3 a fsid =
     u32_to_be_bytes (case attr_kind a of File \<Rightarrow> FTYPE_REG | Directory \<Rightarrow> FTYPE_DIR) @
     u32_to_be_bytes (ucast (attr_perm a)) @ u32_to_be_bytes (attr_nlink a) @
     u32_to_be_bytes (attr_uid a) @ u32_to_be_bytes (attr_gid a) @
     u64_to_be_bytes (attr_size a) @ u64_to_be_bytes (attr_size a) @
     (u32_to_be_bytes 0 @ u32_to_be_bytes 0) @ u64_to_be_bytes fsid @
     u64_to_be_bytes (ino_num (attr_ino a)) @ enc_nfstime3 (attr_atime a) @
     enc_nfstime3 (attr_mtime a) @ enc_nfstime3 (attr_ctime a)"

definition enc_post_op_attr :: "file_attr option \<Rightarrow> u64 \<Rightarrow> bytes" where
  "enc_post_op_attr ao fsid =
     (case ao of None \<Rightarrow> u32_to_be_bytes 0 | Some a \<Rightarrow> u32_to_be_bytes 1 @ enc_fattr3 a fsid)"

definition res_ok :: "'a fs_result \<Rightarrow> 'a option" where
  "res_ok r = (case r of Inl _ \<Rightarrow> None | Inr a \<Rightarrow> Some a)"

definition enc_wcc_none :: bytes where
  "enc_wcc_none = u32_to_be_bytes 0 @ u32_to_be_bytes 0"

lemma res_ok_simps [simp]: "res_ok (Inl e) = None" "res_ok (Inr a) = Some a"
  by (simp_all add: res_ok_def)

lemma buf_write_fattr3 [wire]: "writer_buf (write_fattr3 a fsid w) = writer_buf w @ enc_fattr3 a fsid"
  by (simp add: write_fattr3_def write_nfstime3_def enc_fattr3_def enc_nfstime3_def wire Let_def
      split del: option.split)

lemma buf_post_op_attr_ok [wire]:
  "writer_buf (write_post_op_attr_ok a fsid w) = writer_buf w @ enc_post_op_attr (Some a) fsid"
  by (simp add: write_post_op_attr_ok_def enc_post_op_attr_def wire)

lemma buf_post_op_attr_absent [wire]:
  "writer_buf (write_post_op_attr_absent w) = writer_buf w @ u32_to_be_bytes 0"
  by (simp add: write_post_op_attr_absent_def wire)

lemma buf_wcc [wire]: "writer_buf (write_wcc_data_zero w) = writer_buf w @ enc_wcc_none"
  by (simp add: write_wcc_data_zero_def enc_wcc_none_def wire)

definition post_op_of :: "'s ctx \<Rightarrow> ino \<Rightarrow> 's \<Rightarrow> bytes" where
  "post_op_of ctx ino s = enc_post_op_attr (res_ok (fst (fs_getattr (ctx_fs ctx) ino s))) (ctx_fsid ctx)"

lemma best_effort_eq:
  "write_post_op_attr_best_effort ctx ino w s =
     (w\<lparr>writer_buf := writer_buf w @ post_op_of ctx ino s\<rparr>, snd (fs_getattr (ctx_fs ctx) ino s))"
proof (cases "fs_getattr (ctx_fs ctx) ino s")
  case (Pair r s')
  then show ?thesis
    by (cases r) (auto simp: write_post_op_attr_best_effort_def post_op_of_def wire
        enc_post_op_attr_def intro!: writer.equality)
qed

lemma length_fattr3 [simp]: "length (enc_fattr3 a fsid) = 84"
  by (simp add: enc_fattr3_def enc_nfstime3_def Let_def)

lemma length_post_op_attr: "length (enc_post_op_attr ao fsid) \<le> 88"
  by (simp add: enc_post_op_attr_def split: option.split)

lemma length_post_op_of: "length (post_op_of ctx ino s) \<le> 88"
  by (simp add: post_op_of_def length_post_op_attr)

section \<open>Their types\<close>

named_theorems xdr_ty "introduction rules for encodings of the types of RFC 1813"

declare enc_u32 [xdr_ty] enc_u64 [xdr_ty] enc_bool [xdr_ty] enc_seq_Nil [xdr_ty] enc_seq_Cons [xdr_ty]

lemma enc_seq_one [xdr_ty]: "xdr_enc t a \<Longrightarrow> xdr_enc (T_seq [t]) a"
  using enc_seq_Cons [OF _ enc_seq_Nil] by fastforce

lemma enc_true [xdr_ty]: "xdr_enc T_bool (u32_to_be_bytes 1)"
  using enc_bool [of True] by simp

lemma enc_false [xdr_ty]: "xdr_enc T_bool (u32_to_be_bytes 0)"
  using enc_bool [of False] by simp

lemma enc_err_only: "st \<noteq> 0 \<Longrightarrow> xdr_enc (T_result t (T_seq [])) (u32_to_be_bytes st)"
  using enc_err [OF _ enc_seq_Nil] by fastforce

lemma ty_nfstime3 [xdr_ty]: "xdr_enc T_nfstime3 (enc_nfstime3 t)"
  unfolding T_nfstime3_def enc_nfstime3_def Let_def by (intro xdr_ty)

lemma ty_fattr3 [xdr_ty]: "xdr_enc T_fattr3 (enc_fattr3 a fsid)"
  unfolding T_fattr3_def enc_fattr3_def by (intro xdr_ty)

lemma ty_post_op_attr [xdr_ty]: "xdr_enc T_post_op_attr (enc_post_op_attr ao fsid)"
  unfolding T_post_op_attr_def enc_post_op_attr_def
  by (cases ao) (simp_all add: enc_absent enc_present ty_fattr3)

lemma ty_post_op_of [xdr_ty]: "xdr_enc T_post_op_attr (post_op_of ctx ino s)"
  unfolding post_op_of_def by (rule ty_post_op_attr)

lemma ty_wcc [xdr_ty]: "xdr_enc T_wcc_data enc_wcc_none"
  unfolding T_wcc_data_def enc_wcc_none_def T_post_op_attr_def by (intro xdr_ty enc_absent)

lemma ty_fh3 [xdr_ty]: "handle_ok h \<Longrightarrow> xdr_enc T_fh3 (enc_opaque_var (handle_encode h i))"
  unfolding T_fh3_def by (rule enc_opaque) (simp_all add: fh3.length_encode)

lemma ty_cookieverf [xdr_ty]: "xdr_enc (T_fixed 8) (enc_opaque_fixed (cookieverf h))"
  by (rule enc_fixed) simp

lemma ty_absent [xdr_ty]: "xdr_enc T_post_op_attr (u32_to_be_bytes 0)"
  unfolding T_post_op_attr_def by (rule enc_absent)

lemma ty_fail:
  "st \<noteq> 0 \<Longrightarrow> xdr_enc (T_result t T_post_op_attr) (u32_to_be_bytes st @ u32_to_be_bytes 0)"
  "st \<noteq> 0 \<Longrightarrow> xdr_enc (T_result t T_post_op_attr) (u32_to_be_bytes st @ post_op_of ctx ino s)"
  by (auto intro: enc_err xdr_ty)

section \<open>Every procedure's reply has its type\<close>

lemma reply_getattr:
  "nfs_getattr r ctx s = (Success w, s') \<Longrightarrow> xdr_enc (T_result T_fattr3 (T_seq [])) (writer_buf w)"
  by (auto simp: nfs_getattr_def let_some_def Let_def wire to_nfsstat3_nonzero nfs_consts
      split: prod.splits option.splits sum.splits intro!: enc_ok enc_err_only ty_fattr3)

lemma reply_lookup:
  assumes "handle_ok (ctx_handle ctx)" "nfs_lookup r ctx s = (Success w, s')"
  shows "xdr_enc (T_result (T_seq [T_fh3, T_post_op_attr, T_post_op_attr]) T_post_op_attr) (writer_buf w)"
  using assms
  by (auto simp: nfs_lookup_def let_some_def Let_def wire best_effort_eq to_nfsstat3_nonzero nfs_consts
      split: prod.splits option.splits sum.splits intro!: enc_ok ty_fail xdr_ty)

lemma reply_access:
  "nfs_access r ctx s = (Success w, s') \<Longrightarrow>
   xdr_enc (T_result (T_seq [T_post_op_attr, T_u32]) T_post_op_attr) (writer_buf w)"
  by (auto simp: nfs_access_def let_some_def Let_def wire to_nfsstat3_nonzero nfs_consts
      split: prod.splits option.splits sum.splits intro!: enc_ok ty_fail xdr_ty)

lemma reply_fsstat:
  "fsstat r ctx s = (Success w, s') \<Longrightarrow>
   xdr_enc (T_result (T_seq [T_post_op_attr, T_u64, T_u64, T_u64, T_u64, T_u64, T_u64, T_u32])
     T_post_op_attr) (writer_buf w)"
  by (auto simp: fsstat_def let_some_def Let_def wire best_effort_eq to_nfsstat3_nonzero nfs_consts
      split: prod.splits option.splits sum.splits intro!: enc_ok ty_fail xdr_ty)

lemma reply_fsinfo:
  "fsinfo r ctx s = (Success w, s') \<Longrightarrow>
   xdr_enc (T_result (T_seq [T_post_op_attr, T_u32, T_u32, T_u32, T_u32, T_u32, T_u32, T_u32, T_u64,
     T_u32, T_u32, T_u32]) T_post_op_attr) (writer_buf w)"
  by (auto simp: fsinfo_def let_some_def Let_def wire best_effort_eq nfs_consts
      split: prod.splits option.splits intro!: enc_ok ty_fail xdr_ty)

lemma reply_pathconf:
  "pathconf r ctx s = (Success w, s') \<Longrightarrow>
   xdr_enc (T_result (T_seq [T_post_op_attr, T_u32, T_u32, T_bool, T_bool, T_bool, T_bool])
     T_post_op_attr) (writer_buf w)"
  by (auto simp: pathconf_def let_some_def Let_def wire best_effort_eq nfs_consts
      split: prod.splits option.splits intro!: enc_ok ty_fail xdr_ty)

text \<open>
  A \<open>READ\<close> reply: the count is the length of the data that follows, and both are within the
  buffer the reply was built from.
\<close>

definition enc_read_ok :: "u64 \<Rightarrow> u64 \<Rightarrow> file_attr fs_result \<Rightarrow> bytes \<Rightarrow> bytes" where
  "enc_read_ok fsid off res d =
     u32_to_be_bytes 0 @ enc_post_op_attr (res_ok res) fsid @ u32_to_be_bytes (of_nat (length d)) @
     u32_to_be_bytes (of_bool (case res of
        Inl _ \<Rightarrow> False | Inr a \<Rightarrow> attr_size a \<le> u64_saturating_add off (of_nat (length d)))) @
     enc_opaque_var d"

lemma read_ok_eq:
  assumes "fs_getattr (ctx_fs ctx) ino (release_logging ctx fh s) = (res, s1)"
  shows "nfs_read_ok ctx ino fh off n buf w s =
    (Success (w\<lparr>writer_buf := writer_buf w @ enc_read_ok (ctx_fsid ctx) off res (take n buf)\<rparr>), s1)"
  using assms
  by (cases res) (simp_all add: nfs_read_ok_def enc_read_ok_def enc_post_op_attr_def Let_def wire nfs_consts
      min.commute writer.equality take_all_iff min_def)

lemma ty_read_ok:
  assumes "length d < 4294967296"
  shows "xdr_enc (T_result (T_seq [T_post_op_attr, T_u32, T_bool, T_opaque 4294967295]) T_post_op_attr)
    (enc_read_ok fsid off res d)"
  using assms unfolding enc_read_ok_def by (intro enc_ok xdr_ty enc_opaque) auto

lemma reply_read:
  assumes "nfs_read r ctx s = (Success w, s')"
  shows "xdr_enc (T_result (T_seq [T_post_op_attr, T_u32, T_bool, T_opaque 4294967295]) T_post_op_attr)
    (writer_buf w)"
proof -
  have ok: "xdr_enc (T_result (T_seq [T_post_op_attr, T_u32, T_bool, T_opaque 4294967295]) T_post_op_attr)
      (writer_buf w)"
    if ra: "read_at_buf (ctx_fs ctx) fh off (replicate (unat (min count RTMAX)) 0) s1 = ((Inr n, buf), s2)"
      and out: "nfs_read_ok ctx ino fh off n buf writer_new s2 = (Success w, s')"
    for fh off count s1 n buf s2 ino
  proof -
    have "unat (min count RTMAX) \<le> unat RTMAX" by (simp add: min_def word_le_nat_alt)
    then have "length buf \<le> 1048576" using read_at_buf_length [OF ra] by (simp add: RTMAX_def)
    then have len: "length (take n buf) < 4294967296" by simp
    obtain res s3 where "fs_getattr (ctx_fs ctx) ino (release_logging ctx fh s2) = (res, s3)" by fastforce
    from read_ok_eq [OF this] out have "writer_buf w = enc_read_ok (ctx_fsid ctx) off res (take n buf)"
      by auto
    with ty_read_ok [OF len] show ?thesis by simp
  qed
  show ?thesis using assms
    by (auto simp: nfs_read_def let_some_def Let_def wire best_effort_eq to_nfsstat3_nonzero
        NFS3ERR_NOENT_def split: prod.splits option.splits sum.splits intro!: ty_fail intro: ok)
qed

section \<open>Directory replies\<close>

definition enc_dirent :: "'s ctx \<Rightarrow> bool \<Rightarrow> ino \<Rightarrow> os_string \<Rightarrow> u64 \<Rightarrow> file_attr option \<Rightarrow> bytes" where
  "enc_dirent ctx is_plus ino name cookie ao =
     u64_to_be_bytes (ino_num ino) @ enc_opaque_var name @ u64_to_be_bytes cookie @
     (if is_plus then
        (case ao of
           None \<Rightarrow> u32_to_be_bytes 0 @ u32_to_be_bytes 0
         | Some a \<Rightarrow> enc_post_op_attr ao (ctx_fsid ctx) @
             u32_to_be_bytes 1 @ enc_opaque_var (handle_encode (ctx_handle ctx) ino))
      else [])"

definition dirent_attr :: "'s ctx \<Rightarrow> bool \<Rightarrow> ino \<Rightarrow> 's \<Rightarrow> file_attr option" where
  "dirent_attr ctx is_plus ino s =
     (if is_plus then res_ok (fst (fs_getattr (ctx_fs ctx) ino s)) else None)"

definition dirent_state :: "'s ctx \<Rightarrow> bool \<Rightarrow> ino \<Rightarrow> 's \<Rightarrow> 's" where
  "dirent_state ctx is_plus ino s = (if is_plus then snd (fs_getattr (ctx_fs ctx) ino s) else s)"

lemma encode_dirent_eq:
  "encode_dirent ctx ino name cookie is_plus s =
     (\<lparr>writer_buf = u32_to_be_bytes 1 @
        enc_dirent ctx is_plus ino name cookie (dirent_attr ctx is_plus ino s)\<rparr>,
      dirent_state ctx is_plus ino s)"
proof (cases "fs_getattr (ctx_fs ctx) ino s")
  case (Pair res s1)
  then show ?thesis
    by (cases res) (simp_all add: encode_dirent_def enc_dirent_def dirent_attr_def dirent_state_def
        enc_post_op_attr_def Let_def wire writer.equality)
qed

lemma length_dirent: "24 \<le> length (enc_dirent ctx is_plus ino name cookie ao) + 4"
  "length name \<le> length (enc_dirent ctx is_plus ino name cookie ao)"
  by (simp_all add: enc_dirent_def enc_opaque_var_def enc_opaque_fixed_def)

lemma ty_dirent:
  assumes "handle_ok (ctx_handle ctx)" "length name < 4294967296"
  shows "xdr_enc (T_entry3 is_plus) (enc_dirent ctx is_plus ino name cookie ao)"
proof -
  have name: "xdr_enc T_filename3 (enc_opaque_var name)"
    unfolding T_filename3_def using assms(2) by (intro enc_opaque) auto
  note fh = ty_fh3 [OF assms(1)]
  show ?thesis
  proof (cases is_plus)
    case False
    then show ?thesis unfolding T_entry3_def enc_dirent_def by (simp) (intro xdr_ty name)
  next
    case True
    have "xdr_enc (T_opt T_fh3) (u32_to_be_bytes 1 @ enc_opaque_var (handle_encode (ctx_handle ctx) ino))"
      by (rule enc_present [OF fh])
    moreover have "xdr_enc (T_opt T_fh3) (u32_to_be_bytes 0)" by (rule enc_absent)
    ultimately show ?thesis using True
      by (cases ao) (simp_all add: T_entry3_def enc_dirent_def, (intro xdr_ty name; assumption)+)
  qed
qed

text \<open>The closure's invariant: what is packed so far, and what is left of the budget.\<close>

definition acc_ok :: "bool \<Rightarrow> u32 \<Rightarrow> dirlist_acc \<Rightarrow> bool" where
  "acc_ok is_plus budget k \<longleftrightarrow>
     xdr_items (T_entry3 is_plus) (writer_buf (acc_entries k)) \<and>
     int (length (writer_buf (acc_entries k))) + acc_remaining k = int (unat budget) \<and>
     0 \<le> acc_remaining k \<and>
     (acc_packed k = 0 \<longleftrightarrow> writer_buf (acc_entries k) = [])"

lemma acc_ok_start: "acc_ok is_plus budget (dirlist_start budget)"
  by (simp add: acc_ok_def dirlist_start_def items_none)

lemma dirlist_sink_keeps:
  assumes "handle_ok (ctx_handle ctx)"
  shows "sink_keeps (dirlist_sink ctx is_plus) (acc_ok is_plus budget)"
  unfolding sink_keeps_def
proof (intro allI impI)
  fix e k s r k' s'
  assume ok: "acc_ok is_plus budget k" and sink: "dirlist_sink ctx is_plus e k s = (r, k', s')"
  let ?item = "enc_dirent ctx is_plus (en_ino e) (en_name e) (en_cookie e)
      (dirent_attr ctx is_plus (en_ino e) s)"
  show "acc_ok is_plus budget k'"
  proof (cases "int (length ?item + 4) > acc_remaining k")
    case True
    with ok sink show ?thesis
      by (auto simp: dirlist_sink_def encode_dirent_eq writer_len_def split: if_splits)
  next
    case False
    have "int (length (en_name e)) \<le> acc_remaining k"
      using False length_dirent(2) [of "en_name e"] by (meson dual_order.trans le_add1 not_less of_nat_mono)
    moreover have "acc_remaining k \<le> int (unat budget)" using ok by (simp add: acc_ok_def)
    ultimately have "length (en_name e) < 4294967296" using unat_u32_bound [of budget] by linarith
    from ty_dirent [OF assms this]
    have items: "xdr_items (T_entry3 is_plus) (writer_buf (acc_entries k) @ u32_to_be_bytes 1 @ ?item)"
      using ok unfolding acc_ok_def by (intro items_snoc) auto
    have "k' = \<lparr>acc_entries = extend_from \<lparr>writer_buf = u32_to_be_bytes 1 @ ?item\<rparr> (acc_entries k),
        acc_remaining = acc_remaining k - int (length ?item + 4), acc_packed = acc_packed k + 1\<rparr>"
      using False sink by (auto simp: dirlist_sink_def encode_dirent_eq writer_len_def)
    with ok False items show ?thesis by (auto simp: acc_ok_def wire)
  qed
qed

lemma dirlist_sink_finite: "sink_finite (dirlist_sink ctx is_plus) (\<lambda>k. nat (acc_remaining k))"
  by (auto simp: sink_finite_def dirlist_sink_def encode_dirent_eq writer_len_def split: if_splits)

lemma build_dirlist_returns: "\<exists>y. build_dirlist ctx dir cookie budget is_plus s = Some y"
  using emit_returns [OF dirlist_sink_finite, of "ctx_fs ctx" dir cookie Synthesize ctx is_plus
      "dirlist_start budget" s]
  by (auto simp: build_dirlist_def split: prod.splits sum.splits)

lemma build_dirlist_ok:
  assumes "handle_ok (ctx_handle ctx)"
    and "build_dirlist ctx dir cookie budget is_plus s = Some (Inr l, s')"
  shows "xdr_items (T_entry3 is_plus) (writer_buf (dl_entries l)) \<and>
    length (writer_buf (dl_entries l)) \<le> unat budget \<and>
    (dl_packed l = 0 \<longleftrightarrow> writer_buf (dl_entries l) = [])"
proof -
  from assms(2) obtain eof k where
    em: "emit (ctx_fs ctx) dir cookie Synthesize (dirlist_sink ctx is_plus) (dirlist_start budget) s =
      Some (Inr eof, k, s')"
    and l: "l = \<lparr>dl_entries = acc_entries k, dl_eof = eof, dl_packed = acc_packed k\<rparr>"
    by (auto simp: build_dirlist_def split: option.splits prod.splits sum.splits)
  from emit_inv [OF dirlist_sink_keeps [OF assms(1)] acc_ok_start em]
  have ok: "acc_ok is_plus budget k" .
  then have "int (length (writer_buf (acc_entries k))) \<le> int (unat budget)"
    unfolding acc_ok_def by linarith
  then have "length (writer_buf (acc_entries k)) \<le> unat budget" by (simp only: of_nat_le_iff)
  with ok show ?thesis by (simp add: acc_ok_def l)
qed

lemma readdir_reply_returns: "\<exists>y. readdir_reply ctx is_plus fh cookie count s = Some y"
proof (cases "handle_resolve (ctx_handle ctx) fh")
  case (Some dir)
  from build_dirlist_returns [of ctx dir cookie "saturating_sub count DIRLIST_OVERHEAD" is_plus s]
  obtain res s1 where
    "build_dirlist ctx dir cookie (saturating_sub count DIRLIST_OVERHEAD) is_plus s = Some (res, s1)"
    by auto
  with Some show ?thesis
    by (cases res) (simp_all add: readdir_reply_def best_effort_eq Let_def)
qed (simp add: readdir_reply_def)

lemma readdir_common_returns: "\<exists>y. readdir_common r ctx is_plus s = Some y"
  using readdir_reply_returns [of ctx is_plus]
  by (auto simp: readdir_common_def let_some_def Let_def split: prod.splits option.splits)

text \<open>The three shapes of a directory reply, with the list it carries.\<close>

lemma readdir_reply_cases:
  assumes "handle_ok (ctx_handle ctx)" "readdir_reply ctx is_plus fh cookie count s = Some (Success w, s')"
  obtains (fail) st b where "writer_buf w = u32_to_be_bytes st @ b" "st \<noteq> 0" "xdr_enc T_post_op_attr b"
      "length b \<le> 88"
  | (ok) dir l s1 where "handle_resolve (ctx_handle ctx) fh = Some dir"
      "build_dirlist ctx dir cookie (saturating_sub count DIRLIST_OVERHEAD) is_plus s = Some (Inr l, s1)"
      "dl_packed l \<noteq> 0 \<or> dl_eof l"
      "writer_buf w = u32_to_be_bytes 0 @ post_op_of ctx dir s1 @
         enc_opaque_fixed (cookieverf (ctx_handle ctx)) @ writer_buf (dl_entries l) @
         u32_to_be_bytes 0 @ u32_to_be_bytes (of_bool (dl_eof l))"
proof (cases "handle_resolve (ctx_handle ctx) fh")
  case None
  with assms(2) have "writer_buf w = u32_to_be_bytes 2 @ u32_to_be_bytes 0"
    by (auto simp: readdir_reply_def wire nfs_consts)
  then show thesis by (rule fail) (simp_all add: ty_absent)
next
  case (Some dir)
  obtain res s1 where
    bd: "build_dirlist ctx dir cookie (saturating_sub count DIRLIST_OVERHEAD) is_plus s = Some (res, s1)"
    using build_dirlist_returns by fastforce
  have bad: thesis if "writer_buf w = u32_to_be_bytes st @ post_op_of ctx dir s1" "st \<noteq> 0" for st
    using that ty_post_op_of length_post_op_of by (rule fail)
  show thesis
  proof (cases res)
    case (Inl e)
    with Some bd assms(2) have "writer_buf w = u32_to_be_bytes (to_nfsstat3 e) @ post_op_of ctx dir s1"
      by (auto simp: readdir_reply_def best_effort_eq wire Let_def)
    then show thesis by (rule bad) (rule to_nfsstat3_nonzero)
  next
    case (Inr l)
    show thesis
    proof (cases "dl_packed l = 0 \<and> \<not> dl_eof l")
      case True
      with Some bd assms(2) Inr have "writer_buf w = u32_to_be_bytes 10005 @ post_op_of ctx dir s1"
        by (auto simp: readdir_reply_def best_effort_eq wire Let_def NFS3ERR_TOOSMALL_def)
      then show thesis by (rule bad) simp
    next
      case False
      with Some bd assms(2) Inr show thesis
        by (intro ok [of dir l s1])
          (auto simp: readdir_reply_def best_effort_eq wire Let_def NFS3_OK_def)
    qed
  qed
qed

lemma reply_readdir:
  assumes h: "handle_ok (ctx_handle ctx)" and "readdir_reply ctx is_plus fh cookie count s = Some (Success w, s')"
  shows "xdr_enc (T_result (T_seq [T_post_op_attr, T_fixed 8, T_list (T_entry3 is_plus), T_bool])
    T_post_op_attr) (writer_buf w)"
  using assms
proof (cases rule: readdir_reply_cases)
  case (fail st b)
  then show ?thesis by (simp add: enc_err)
next
  case (ok dir l s1)
  from build_dirlist_ok [OF h ok(2)]
  have list: "xdr_enc (T_list (T_entry3 is_plus)) (writer_buf (dl_entries l) @ u32_to_be_bytes 0)"
    by (intro xdr_items_list enc_list_end) auto
  have "writer_buf w = u32_to_be_bytes 0 @ post_op_of ctx dir s1 @
      enc_opaque_fixed (cookieverf (ctx_handle ctx)) @ (writer_buf (dl_entries l) @ u32_to_be_bytes 0) @
      u32_to_be_bytes (of_bool (dl_eof l))"
    using ok(4) by simp
  then show ?thesis by (simp only:) (intro enc_ok enc_seq_Cons enc_seq_one list ty_post_op_of ty_cookieverf enc_bool)
qed

lemma readdir_reply_success:
  "\<exists>w s'. readdir_reply ctx is_plus fh cookie count s = Some (Success w, s')"
proof -
  obtain out s' where "readdir_reply ctx is_plus fh cookie count s = Some (out, s')"
    using readdir_reply_returns [of ctx is_plus fh cookie count s] by auto
  moreover from this have "\<exists>w. out = Success w"
    by (auto simp: readdir_reply_def best_effort_eq Let_def
        split: option.splits prod.splits sum.splits if_splits)
  ultimately show ?thesis by blast
qed

section \<open>The example call\<close>

text \<open>The in-memory filesystem behind a fixed handle secret, for concrete calls.\<close>

definition demo_handle :: file_handle3 where
  "demo_handle = handle_from_secret (replicate 16 7)"

definition demo_ctx :: "mem_fs ctx" where
  "demo_ctx = \<lparr>ctx_fs = mem_impl 0 0, ctx_handle = demo_handle, ctx_fsid = 1\<rparr>"

lemma demo_ok [simp]: "handle_ok demo_handle" "ctx_handle demo_ctx = demo_handle"
  "ctx_fs demo_ctx = mem_impl 0 0" "ctx_fsid demo_ctx = 1"
  by (simp_all add: demo_handle_def demo_ctx_def handle_ok_def handle_from_secret_def)

lemma nfs_dispatch_returns: "\<exists>out s'. nfs_dispatch proc r ctx s = Some (out, s')"
  using readdir_common_returns [of r ctx True s] readdir_common_returns [of r ctx False s]
  by (auto simp: nfs_dispatch_def)

section \<open>Properties\<close>

text \<open>
  C5: Every NFS call is answered. Whatever the procedure, the bytes of the arguments, the
  state and the implementation of the filesystem (one that pages forever or ignores the
  offset included), \<open>dispatch\<close> returns an outcome.
\<close>

theorem nfs_dispatch_total: "\<exists>out s'. nfs_dispatch proc r ctx s = Some (out, s')"
  by (rule nfs_dispatch_returns)

text \<open>
  C6: Every successful reply follows RFC 1813. For every procedure, arguments, state and
  filesystem implementation, hostile ones included, the body \<open>dispatch\<close> returns is an
  encoding of the result type the RFC gives that procedure.
\<close>

theorem nfs_reply_wellformed:
  assumes "handle_ok (ctx_handle ctx)" "nfs_dispatch proc r ctx s = Some (Success w, s')"
  shows "xdr_enc (nfs_result_type proc) (writer_buf w)"
proof -
  have rd: "xdr_enc (T_result (T_seq [T_post_op_attr, T_fixed 8, T_list (T_entry3 p), T_bool])
      T_post_op_attr) (writer_buf w)"
    if "readdir_common r ctx p s = Some (Success w, s')" for p
    using that reply_readdir [OF assms(1), of p]
    by (auto simp: readdir_common_def let_some_def Let_def split: prod.splits option.splits if_splits)
  note rejects = reject_rofs_wcc_def reject_notsupp_wcc_def reject_rofs_rename_def reject_rofs_link_def
    reject_notsupp_readlink_def Let_def wire nfs_consts
  show ?thesis
    using assms(2) reply_getattr [of r ctx s] reply_lookup [OF assms(1), of r s] reply_access [of r ctx s]
      reply_read [of r ctx s] rd reply_fsstat [of r ctx s] reply_fsinfo [of r ctx s] reply_pathconf [of r ctx s]
    by (auto simp: nfs_dispatch_def nfs_result_type_def rejects split: if_splits
        intro!: enc_err xdr_ty)
qed

theorem nfs_reply_wellformed_witness:
  "\<exists>w s'. nfs_dispatch 19 (reader_new (enc_opaque_var (handle_encode demo_handle ROOT_INO))) demo_ctx mem_fs_new =
      Some (Success w, s') \<and> xdr_enc (nfs_result_type 19) (writer_buf w)"
proof -
  let ?fh = "handle_encode demo_handle ROOT_INO"
  have len: "length ?fh = 24" by (simp add: fh3.length_encode)
  then have "read_opaque_var 64 (reader_new (enc_opaque_var ?fh)) =
      (Some ?fh, reader_adv (length (enc_opaque_var ?fh)) (reader_new (enc_opaque_var ?fh)))"
    by (intro read_opaque_var_enc [where t = "[]"]) (auto simp: enc_opaque_var_def enc_opaque_fixed_def)
  then obtain w s' where "nfs_dispatch 19 (reader_new (enc_opaque_var ?fh)) demo_ctx mem_fs_new =
      Some (Success w, s')"
    by (simp add: nfs_dispatch_def fsinfo_def let_some_def best_effort_eq fh3.resolve_encode Let_def)
  with nfs_reply_wellformed [OF _ this] show ?thesis by auto
qed

end
