(* ===== verification/Nfs_Semantics.thy ===== *)
theory Nfs_Semantics
  imports Nfs_Replies
begin

text \<open>
  What the NFS procedures do: which calls reach the filesystem, what is read and listed, and
  which errors are reported. Statements about reading quantify over the filesystems that keep
  the contract \<open>ro_fs\<close> and are instantiated on the in-memory filesystem; statements about
  released handles and the size of replies hold for every implementation.
\<close>

section \<open>Decoding the arguments\<close>

definition args_handle :: "bytes \<Rightarrow> bytes \<Rightarrow> bytes" where
  "args_handle fh rest = enc_opaque_var fh @ rest"

definition args_lookup :: "bytes \<Rightarrow> os_string \<Rightarrow> bytes" where
  "args_lookup fh name = enc_opaque_var fh @ enc_opaque_var name"

definition args_read :: "bytes \<Rightarrow> u64 \<Rightarrow> u32 \<Rightarrow> bytes" where
  "args_read fh off count = enc_opaque_var fh @ u64_to_be_bytes off @ u32_to_be_bytes count"

definition args_readdir :: "bool \<Rightarrow> bytes \<Rightarrow> u64 \<Rightarrow> bytes \<Rightarrow> u32 \<Rightarrow> u32 \<Rightarrow> bytes" where
  "args_readdir is_plus fh cookie verf dircount count =
     enc_opaque_var fh @ u64_to_be_bytes cookie @ enc_opaque_fixed verf @
     (if is_plus then u32_to_be_bytes dircount else []) @ u32_to_be_bytes count"

interpretation fixed8_item: xdr_item write_opaque_fixed "read_opaque_fixed 8" enc_opaque_fixed
  "\<lambda>d. length d = 8"
  by unfold_locales
    (auto simp: wire reader_simps enc_opaque_fixed_aligned enc_opaque_fixed_multiple)

lemma handle_arg:
  assumes "reader_ok r" "reader_rest r = enc_opaque_var fh @ t" "length fh \<le> 64"
  obtains r' where "reader_ok r'" "reader_rest r' = t" "read_opaque_var 64 r = (Some fh, r')"
proof -
  have "length fh \<le> unat (64 :: u32)" using assms(3) by simp
  from opaque_item.get_rest [OF this assms(1,2)] show thesis using that by blast
qed

lemma read_args:
  assumes "reader_ok r" "reader_rest r = args_read fh off count @ t" "length fh \<le> 64"
  obtains r1 r2 r3 where "read_opaque_var 64 r = (Some fh, r1)" "read_u64 r1 = (Some off, r2)"
    "read_u32 r2 = (Some count, r3)"
proof -
  from handle_arg [OF assms(1) _ assms(3), of "u64_to_be_bytes off @ u32_to_be_bytes count @ t"] assms(2)
  obtain r1 where r1: "reader_ok r1" "reader_rest r1 = u64_to_be_bytes off @ u32_to_be_bytes count @ t"
    "read_opaque_var 64 r = (Some fh, r1)" by (auto simp: args_read_def)
  from u64_item.get_rest [OF _ r1(1,2)] obtain r2
    where r2: "reader_ok r2" "reader_rest r2 = u32_to_be_bytes count @ t" "read_u64 r1 = (Some off, r2)" by auto
  from u32_item.get_rest [OF _ r2(1,2)] obtain r3 where "read_u32 r2 = (Some count, r3)" by auto
  with r1(3) r2(3) show thesis by (rule that)
qed

lemma readdir_args:
  assumes "reader_ok r" "reader_rest r = args_readdir is_plus fh cookie verf dircount count @ t"
    and "length fh \<le> 64" "length verf = 8"
  shows "readdir_common r ctx is_plus s = readdir_reply ctx is_plus fh cookie count s"
proof -
  let ?t3 = "(if is_plus then u32_to_be_bytes dircount else []) @ u32_to_be_bytes count @ t"
  from handle_arg [OF assms(1) _ assms(3), of "u64_to_be_bytes cookie @ enc_opaque_fixed verf @ ?t3"] assms(2)
  obtain r1 where r1: "reader_ok r1" "reader_rest r1 = u64_to_be_bytes cookie @ enc_opaque_fixed verf @ ?t3"
    "read_opaque_var 64 r = (Some fh, r1)" by (auto simp: args_readdir_def)
  from u64_item.get_rest [OF _ r1(1,2)] obtain r2 where r2: "reader_ok r2"
    "reader_rest r2 = enc_opaque_fixed verf @ ?t3" "read_u64 r1 = (Some cookie, r2)" by auto
  from fixed8_item.get_rest [OF assms(4) r2(1,2)] obtain r3 where r3: "reader_ok r3"
    "reader_rest r3 = ?t3" "read_opaque_fixed 8 r2 = (Some verf, r3)" by auto
  show ?thesis
  proof (cases is_plus)
    case False
    with r3 have "reader_rest r3 = u32_to_be_bytes count @ t" by simp
    from u32_item.get_rest [OF _ r3(1) this] obtain r4 where "read_u32 r3 = (Some count, r4)" by auto
    with False r1(3) r2(3) r3(3) show ?thesis by (simp add: readdir_common_def let_some_def)
  next
    case True
    with r3 have "reader_rest r3 = u32_to_be_bytes dircount @ u32_to_be_bytes count @ t" by simp
    from u32_item.get_rest [OF _ r3(1) this] obtain r4 where r4: "reader_ok r4"
      "reader_rest r4 = u32_to_be_bytes count @ t" "read_u32 r3 = (Some dircount, r4)" by auto
    from u32_item.get_rest [OF _ r4(1,2)] obtain r5 where "read_u32 r4 = (Some count, r5)" by auto
    with True r1(3) r2(3) r3(3) r4(3) show ?thesis by (simp add: readdir_common_def let_some_def)
  qed
qed

section \<open>READ\<close>

text \<open>\<open>nfs_read\<close> on well-formed arguments, without the decoding.\<close>

lemma nfs_read_args:
  assumes "reader_ok r" "reader_rest r = args_read fh off count @ t" "length fh \<le> 64"
    and "handle_resolve (ctx_handle ctx) fh = Some ino"
  shows "nfs_read r ctx s =
    (case fs_open (ctx_fs ctx) ino s of
       (Inr fh, s) \<Rightarrow>
         (case read_at_buf (ctx_fs ctx) fh off (replicate (unat (min count RTMAX)) 0) s of
            ((Inr n, buf), s) \<Rightarrow> nfs_read_ok ctx ino fh off n buf writer_new s
          | ((Inl e, buf), s) \<Rightarrow>
              (case write_post_op_attr_best_effort ctx ino (write_u32 (to_nfsstat3 e) writer_new)
                      (release_logging ctx fh s) of (w, s) \<Rightarrow> (Success w, s)))
     | (Inl e, s) \<Rightarrow>
         (case write_post_op_attr_best_effort ctx ino (write_u32 (to_nfsstat3 e) writer_new) s of
            (w, s) \<Rightarrow> (Success w, s)))"
proof -
  from read_args [OF assms(1-3)] obtain r1 r2 r3 where "read_opaque_var 64 r = (Some fh, r1)"
    "read_u64 r1 = (Some off, r2)" "read_u32 r2 = (Some count, r3)" .
  then show ?thesis using assms(4) unfolding nfs_read_def let_some_def Let_def by simp
qed

lemma eof_saturating:
  "(sz :: u64) \<le> u64_saturating_add off (of_nat n) \<longleftrightarrow> unat sz \<le> unat off + n" if "n < 2 ^ 32"
proof -
  have "unat (of_nat n :: u64) = n" using that by (simp add: unat_of_nat)
  moreover have "unat sz \<le> 2 ^ 64 - 1" using unat_u64_bound [of sz] by simp
  ultimately show ?thesis by (simp add: word_le_nat_alt unat_saturating_add)
qed

context ro_fs
begin

lemma read_contract:
  assumes "inv s" "view_data (view s) i = Some d" "fs_open fs i s = (rh, s1)"
  obtains fh s2 s3 a buf' where "rh = Inr fh"
    "read_at_buf fs fh off buf s1 = ((Inr (min (length buf) (length d - unat off)), buf'), s2)"
    "take (min (length buf) (length d - unat off)) buf' = take (length buf) (drop (unat off) d)"
    "snd (fs_release fs fh s2) = s3" "inv s3" "view s3 = view s" "live s3 = (live s)(fh := None)"
    "view_attr (view s) i = Some a" "unat (attr_size a) = length d"
proof -
  from open_file [OF assms] obtain fh where o: "inv s1" "view s1 = view s" "rh = Inr fh"
    "live s1 = (live s)(fh \<mapsto> i)" by auto
  obtain rn buf' s2 where ra: "read_at_buf fs fh off buf s1 = ((rn, buf'), s2)" by (metis prod.exhaust)
  from read_at_eq [OF o(1) _ _ ra, of i d] o assms(2) have r: "inv s2" "view s2 = view s" "live s2 = live s1"
    "rn = Inr (min (length buf) (length d - unat off))"
    "take (min (length buf) (length d - unat off)) buf' = take (length buf) (drop (unat off) d)" by auto
  obtain ru s3 where rel: "fs_release fs fh s2 = (ru, s3)" by fastforce
  from release_live [OF r(1) rel] r(2,3) o(4) have "inv s3" "view s3 = view s" "live s3 = (live s)(fh := None)"
    by (auto simp: fun_eq_iff)
  with that [OF o(3) _ r(5)] ra r(4) rel data_size [OF assms(1,2)] show thesis by auto
qed

end

section \<open>Properties\<close>

lemma nfs_read_outcome:
  assumes "ro_fs (ctx_fs ctx) I view live" "I s" "handle_ok (ctx_handle ctx)"
    and "view_data (view s) ino = Some d"
    and "reader_ok r" "reader_rest r = args_read (handle_encode (ctx_handle ctx) ino) off count"
  shows "\<exists>w a fh s' data.
    nfs_read r ctx s = (Success w, s') \<and>
    data = take (min (unat count) 1048576) (drop (unat off) d) \<and>
    view_attr (view s) ino = Some a \<and>
    writer_buf w = u32_to_be_bytes 0 @ enc_post_op_attr (Some a) (ctx_fsid ctx) @
      u32_to_be_bytes (of_nat (length data)) @
      u32_to_be_bytes (of_bool (length d \<le> unat off + length data)) @ enc_opaque_var data \<and>
    I s' \<and> view s' = view s \<and> live s' = (live s)(fh := None)"
proof -
  let ?h = "handle_encode (ctx_handle ctx) ino"
  let ?n = "min (unat count) 1048576"
  let ?buf = "replicate ?n (0 :: u8)"
  have cnt: "unat (min count RTMAX) = ?n" by (simp add: min_def RTMAX_def word_le_nat_alt)
  have res: "handle_resolve (ctx_handle ctx) ?h = Some ino" by (rule fh3.resolve_encode [OF assms(3)])
  have hl: "length ?h \<le> 64" using fh3.length_encode [OF assms(3)] by simp
  obtain rh s1 where op: "fs_open (ctx_fs ctx) ino s = (rh, s1)" by fastforce
  obtain fh s2 s3 a buf' where c: "rh = Inr fh"
    "read_at_buf (ctx_fs ctx) fh off ?buf s1 = ((Inr (min ?n (length d - unat off)), buf'), s2)"
    "take (min ?n (length d - unat off)) buf' = take ?n (drop (unat off) d)"
    "snd (fs_release (ctx_fs ctx) fh s2) = s3" "I s3" "view s3 = view s" "live s3 = (live s)(fh := None)"
    "view_attr (view s) ino = Some a" "unat (attr_size a) = length d"
    by (rule ro_fs.read_contract [OF assms(1,2,4) op, of off ?buf, unfolded length_replicate])
  let ?data = "take ?n (drop (unat off) d)"
  have rl: "release_logging ctx fh s2 = s3" using c(4) by (simp add: release_logging_def case_prod_beta)
  obtain ra s4 where ga: "fs_getattr (ctx_fs ctx) ino s3 = (ra, s4)" by fastforce
  from ro_fs.getattr_eq [OF assms(1) c(5) ga] c(6-8)
  have s4: "ra = Inr a" "I s4" "view s4 = view s" "live s4 = (live s)(fh := None)" by auto
  have "length ?data < 2 ^ 32" by simp
  from eof_saturating [OF this, of "attr_size a" off] c(9)
  have eof: "attr_size a \<le> u64_saturating_add off (of_nat (length ?data)) \<longleftrightarrow>
      length d \<le> unat off + length ?data" by simp
  have "nfs_read r ctx s = nfs_read_ok ctx ino fh off (min ?n (length d - unat off)) buf' writer_new s2"
    using nfs_read_args [OF assms(5) _ hl res, of off count "[]" s] assms(6) op c(1,2) by (simp add: cnt)
  also have "\<dots> = (Success (writer_new\<lparr>writer_buf := enc_read_ok (ctx_fsid ctx) off (Inr a) ?data\<rparr>), s4)"
    using read_ok_eq [of ctx ino fh s2 ra s4] ga s4(1) c(3) by (simp add: rl)
  finally show ?thesis using c(8) s4 eof
    by (intro exI [of _ "writer_new\<lparr>writer_buf := enc_read_ok (ctx_fsid ctx) off (Inr a) ?data\<rparr>"]
        exI [of _ a] exI [of _ fh] exI [of _ s4]) (simp add: enc_read_ok_def)
qed

text \<open>
  C7: \<open>READ\<close> returns the file's bytes. On a filesystem that keeps the contract of
  \<open>ReadOnlyFs\<close>, a read of a file at any 64-bit offset returns exactly the bytes of the file
  from there, at most the requested count and at most \<open>RTMAX\<close> of them; \<open>count\<close> is the
  number of bytes that follow; \<open>eof\<close> is set exactly when the read reaches the end of the
  file, also for offsets near the 64-bit limit; and the handle the call opened is closed
  again.
\<close>

theorem nfs_read_correct:
  assumes "ro_fs (ctx_fs ctx) I view live" "I s" "handle_ok (ctx_handle ctx)"
    and "view_data (view s) ino = Some d"
    and "reader_ok r" "reader_rest r = args_read (handle_encode (ctx_handle ctx) ino) off count"
  shows "\<exists>w a fh s' data.
    nfs_read r ctx s = (Success w, s') \<and>
    data = take (min (unat count) 1048576) (drop (unat off) d) \<and>
    view_attr (view s) ino = Some a \<and>
    writer_buf w = u32_to_be_bytes 0 @ enc_post_op_attr (Some a) (ctx_fsid ctx) @
      u32_to_be_bytes (of_nat (length data)) @
      u32_to_be_bytes (of_bool (length d \<le> unat off + length data)) @ enc_opaque_var data \<and>
    I s' \<and> view s' = view s \<and> live s' = (live s)(fh := None)"
  using assms by (rule nfs_read_outcome)

theorem nfs_read_correct_witness:
  "\<exists>w a fh s' data.
    nfs_read (reader_new (args_read (handle_encode demo_handle (Ino 5)) 5 100)) demo_ctx mem_fs_new =
      (Success w, s') \<and>
    data = take (min 100 1048576) (drop 5 (ascii (''I am nested.'' @ [CHR 0x0A]))) \<and>
    view_attr (mem_view 0 0 mem_fs_new) (Ino 5) = Some a \<and>
    writer_buf w = u32_to_be_bytes 0 @ enc_post_op_attr (Some a) 1 @
      u32_to_be_bytes (of_nat (length data)) @
      u32_to_be_bytes (of_bool (13 \<le> 5 + length data)) @ enc_opaque_var data \<and>
    mem_inv s' \<and> mem_view 0 0 s' = mem_view 0 0 mem_fs_new \<and>
    open_files s' = (open_files mem_fs_new)(fh := None)"
proof -
  have "length (args_read (handle_encode demo_handle (Ino 5)) 5 100) < 2 ^ 63"
    by (simp add: args_read_def enc_opaque_var_def enc_opaque_fixed_def fh3.length_encode)
  then show ?thesis
    using nfs_read_correct [of demo_ctx mem_inv "mem_view 0 0" open_files mem_fs_new "Ino 5",
        OF _ mem_fs_new_inv, where off = 5 and count = 100 and
          r = "reader_new (args_read (handle_encode demo_handle (Ino 5)) 5 100)"]
    by (simp add: memfs.ro_fs_axioms mem_view_data mem_fs_new_nodes)
qed

text \<open>
  C18: Every handle \<open>READ\<close> opens is released, once. For every filesystem implementation and
  every argument, on success and on every error path, the calls of one \<open>READ\<close> are: none at
  all; an open that failed and a \<open>getattr\<close>; or an open, one read at the requested offset
  into a buffer of at most \<open>RTMAX\<close> bytes, one release of exactly the handle the open
  returned, and a \<open>getattr\<close>.
\<close>

theorem nfs_read_releases:
  assumes "nfs_read r \<lparr>ctx_fs = traced fs, ctx_handle = h, ctx_fsid = fsid\<rparr> (s, tr) = (out, s', tr')"
  shows "tr' = tr \<or>
    (\<exists>ino e. fst (fs_open fs ino s) = Inl e \<and> tr' = tr @ [COpen ino, CGetattr ino]) \<or>
    (\<exists>ino fh off n. fst (fs_open fs ino s) = Inr fh \<and> n \<le> 1048576 \<and>
       tr' = tr @ [COpen ino, CReadAt fh off n, CRelease fh, CGetattr ino])"
proof -
  have n: "unat (min c RTMAX) \<le> 1048576" for c by (simp add: min_def RTMAX_def word_le_nat_alt)
  have ok: "nfs_read_ok \<lparr>ctx_fs = traced fs, ctx_handle = h, ctx_fsid = fsid\<rparr> ino fh off k buf w (s1, t1) = (o2, s2, t2) \<Longrightarrow>
      t2 = t1 @ [CRelease fh, CGetattr ino]" for ino fh off k buf w s1 t1 o2 s2 t2
    by (auto simp: nfs_read_ok_def release_logging_def Let_def split: prod.splits)
  show ?thesis using assms
    by (auto simp: nfs_read_def let_some_def Let_def best_effort_eq release_logging_def
        n split: prod.splits option.splits sum.splits dest!: ok) (metis fst_conv)+
qed

theorem nfs_read_releases_witness:
  "\<exists>out s' tr'. nfs_read (reader_new (args_read (handle_encode demo_handle (Ino 5)) 5 100))
      (\<lparr>ctx_fs = traced (mem_impl 0 0), ctx_handle = demo_handle, ctx_fsid = 1\<rparr>) (mem_fs_new, []) =
      (out, s', tr') \<and>
    (tr' = [] \<or>
    (\<exists>ino e. fst (mem_open ino mem_fs_new) = Inl e \<and> tr' = [COpen ino, CGetattr ino]) \<or>
    (\<exists>ino fh off n. fst (mem_open ino mem_fs_new) = Inr fh \<and> n \<le> 1048576 \<and>
       tr' = [COpen ino, CReadAt fh off n, CRelease fh, CGetattr ino]))"
proof -
  let ?r = "reader_new (args_read (handle_encode demo_handle (Ino 5)) 5 100)"
  let ?ctx = "\<lparr>ctx_fs = traced (mem_impl 0 0), ctx_handle = demo_handle, ctx_fsid = 1\<rparr>"
  obtain out s' tr' where "nfs_read ?r ?ctx (mem_fs_new, []) = (out, s', tr')" by (metis prod.exhaust)
  with nfs_read_releases [OF this] show ?thesis by simp
qed

text \<open>
  \<open>LOOKUP\<close> hands out the handle of what the filesystem resolved: it resolves, on this mount,
  to exactly the inode the filesystem returned, and that inode's attributes follow.
\<close>

lemma nfs_lookup_outcome:
  assumes "handle_ok (ctx_handle ctx)" "reader_ok r"
    and "reader_rest r = args_lookup (handle_encode (ctx_handle ctx) dir) name" "length name \<le> 1024"
    and "fs_lookup (ctx_fs ctx) dir name s = (Inr a, s1)"
  shows "\<exists>w fh. nfs_lookup r ctx s = (Success w, snd (fs_getattr (ctx_fs ctx) dir s1)) \<and>
    handle_resolve (ctx_handle ctx) fh = Some (attr_ino a) \<and>
    writer_buf w = u32_to_be_bytes 0 @ enc_opaque_var fh @ enc_post_op_attr (Some a) (ctx_fsid ctx) @
      post_op_of ctx dir s1"
proof -
  have hl: "length (handle_encode (ctx_handle ctx) dir) \<le> 64" using fh3.length_encode [OF assms(1)] by simp
  from handle_arg [OF assms(2) _ hl] assms(3) obtain r1 where r1: "reader_ok r1"
    "reader_rest r1 = enc_opaque_var name" "read_opaque_var 64 r = (Some (handle_encode (ctx_handle ctx) dir), r1)"
    by (auto simp: args_lookup_def)
  have "length name \<le> unat (1024 :: u32)" using assms(4) by simp
  from string_item.get_rest [OF this r1(1), of "[]"] r1(2) obtain r2
    where "read_string 1024 r1 = (Some name, r2)" by auto
  with r1(3) assms(1,5) show ?thesis
    by (simp add: nfs_lookup_def let_some_def Let_def best_effort_eq wire fh3.resolve_iff fh3.resolve_encode
        NFS3_OK_def)
qed

text \<open>
  C21: A directory reply keeps to the size the client asked for. Whatever the filesystem
  returns and whatever count a \<open>READDIR\<close> or \<open>READDIRPLUS\<close> call carries, the reply body is at
  most that many bytes, or at most 108 bytes when the count is smaller than that: the
  status, the directory's attributes, the verifier and an empty list are always sent.
\<close>

theorem nfs_readdir_fits:
  assumes "handle_ok (ctx_handle ctx)" "readdir_reply ctx is_plus fh cookie count s = Some (Success w, s')"
  shows "length (writer_buf w) \<le> max (unat count) 108"
  using assms
proof (cases rule: readdir_reply_cases)
  case (fail st b)
  then show ?thesis by simp
next
  case (ok dir l s1)
  from build_dirlist_ok [OF assms(1) ok(2)]
  have "length (writer_buf (dl_entries l)) \<le> unat count - 128"
    by (simp add: unat_saturating_sub DIRLIST_OVERHEAD_def)
  moreover have "length (enc_opaque_fixed (cookieverf (ctx_handle ctx))) = 8"
    by (simp add: enc_opaque_fixed_multiple)
  ultimately show ?thesis
    using ok(4) length_post_op_of [of ctx dir s1] by simp
qed

theorem nfs_readdir_fits_witness:
  "(\<exists>w s'. readdir_reply demo_ctx True (handle_encode demo_handle ROOT_INO) 0 512 mem_fs_new =
      Some (Success w, s') \<and> length (writer_buf w) \<le> 512) \<and>
   (\<exists>w s'. readdir_reply demo_ctx False (handle_encode demo_handle ROOT_INO) 5 0 mem_fs_new =
      Some (Success w, s') \<and> length (writer_buf w) \<le> 108)"
proof -
  obtain w s' v t' where
    "readdir_reply demo_ctx True (handle_encode demo_handle ROOT_INO) 0 512 mem_fs_new = Some (Success w, s')"
    "readdir_reply demo_ctx False (handle_encode demo_handle ROOT_INO) 5 0 mem_fs_new = Some (Success v, t')"
    using readdir_reply_success [of demo_ctx True "handle_encode demo_handle ROOT_INO" 0 512 mem_fs_new]
      readdir_reply_success [of demo_ctx False "handle_encode demo_handle ROOT_INO" 5 0 mem_fs_new] by blast
  with nfs_readdir_fits [OF _ this(1)] nfs_readdir_fits [OF _ this(2)] show ?thesis by auto
qed

text \<open>
  C22: A directory reply never leaves a client repeating itself. An \<open>NFS3_OK\<close> reply to
  \<open>READDIR\<close> or \<open>READDIRPLUS\<close> carries at least one entry or says the listing has ended; a
  budget too small for the next entry is an error status instead.
\<close>

theorem nfs_readdir_progress:
  assumes "handle_ok (ctx_handle ctx)" "readdir_reply ctx is_plus fh cookie count s = Some (Success w, s')"
    and "take 4 (writer_buf w) = u32_to_be_bytes NFS3_OK"
  shows "\<exists>pre items eof. writer_buf w = u32_to_be_bytes NFS3_OK @ pre @ items @ u32_to_be_bytes 0 @
      u32_to_be_bytes (of_bool eof) \<and>
    xdr_enc (T_seq [T_post_op_attr, T_fixed 8]) pre \<and> xdr_items (T_entry3 is_plus) items \<and>
    (items \<noteq> [] \<or> eof)"
  using assms(1,2)
proof (cases rule: readdir_reply_cases)
  case (fail st b)
  then show ?thesis using assms(3) by (simp add: NFS3_OK_def)
next
  case (ok dir l s1)
  from build_dirlist_ok [OF assms(1) ok(2)] ok(3)
  have "xdr_items (T_entry3 is_plus) (writer_buf (dl_entries l))" "writer_buf (dl_entries l) \<noteq> [] \<or> dl_eof l"
    by auto
  moreover have "xdr_enc (T_seq [T_post_op_attr, T_fixed 8])
      (post_op_of ctx dir s1 @ enc_opaque_fixed (cookieverf (ctx_handle ctx)))"
    by (intro xdr_ty)
  ultimately show ?thesis using ok(4) unfolding NFS3_OK_def
    by (metis (no_types, opaque_lifting) append.assoc)
qed

theorem nfs_readdir_progress_witness:
  "\<exists>w s' pre items eof.
    readdir_reply demo_ctx False (handle_encode demo_handle ROOT_INO) 5 512 mem_fs_new = Some (Success w, s') \<and>
    writer_buf w = u32_to_be_bytes NFS3_OK @ pre @ items @ u32_to_be_bytes 0 @ u32_to_be_bytes (of_bool eof) \<and>
    xdr_enc (T_seq [T_post_op_attr, T_fixed 8]) pre \<and> xdr_items (T_entry3 False) items \<and> (items \<noteq> [] \<or> eof)"
proof -
  have "mem_readdir ROOT_INO 3 mem_fs_new = (Inr [], mem_fs_new)"
    using mem_readdir_eq [OF mem_fs_new_inv mem_fs_new_nodes(1), of 3] by simp
  then have "emit_loop (mem_impl 0 0) ROOT_INO (dirlist_sink demo_ctx False) 3 k mem_fs_new =
      Some (Inr True, k, mem_fs_new)" for k
    by (subst emit_loop.simps) simp
  then have "emit (mem_impl 0 0) ROOT_INO 5 Synthesize (dirlist_sink demo_ctx False) k mem_fs_new =
      Some (Inr True, k, mem_fs_new)" for k
    by (simp add: emit_def DOT_def DOTDOT_def trait_offset_def saturating_sub_def Let_def)
  then obtain w s' where "readdir_reply demo_ctx False (handle_encode demo_handle ROOT_INO) 5 512 mem_fs_new =
      Some (Success w, s')" "take 4 (writer_buf w) = u32_to_be_bytes NFS3_OK"
    by (simp add: readdir_reply_def build_dirlist_def fh3.resolve_encode best_effort_eq Let_def wire)
  with nfs_readdir_progress [OF _ this] show ?thesis by auto
qed

text \<open>
  \<open>ACCESS\<close> never grants more than reading. Whatever is asked for, and whatever the
  filesystem answers, the access word of an \<open>NFS3_OK\<close> reply is contained in the request and
  in read, lookup and execute: modify, extend and delete are never granted.
\<close>

lemma nfs_access_read_only:
  assumes "read_opaque_var 64 r = (Some fh, r1)" "read_u32 r1 = (Some requested, r2)"
    and "nfs_access r ctx s = (Success w, s')" "take 4 (writer_buf w) = u32_to_be_bytes NFS3_OK"
  shows "\<exists>a granted. writer_buf w = u32_to_be_bytes NFS3_OK @ enc_post_op_attr (Some a) (ctx_fsid ctx) @
      u32_to_be_bytes granted \<and> granted AND NOT requested = 0 \<and> granted AND 0x1C = 0"
proof -
  have g: "(requested AND 35) AND NOT requested = 0" "(requested AND 35) AND (0x1C :: u32) = 0"
    by (auto simp: bit_eq_iff bit_simps and.assoc)
  obtain a where "writer_buf w = u32_to_be_bytes NFS3_OK @ enc_post_op_attr (Some a) (ctx_fsid ctx) @
      u32_to_be_bytes (requested AND 35)"
    using assms to_nfsstat3_nonzero
    by (auto simp: nfs_access_def let_some_def Let_def wire nfs_consts
        split: prod.splits option.splits sum.splits)
  with g show ?thesis by blast
qed

text \<open>
  \<open>FSSTAT\<close> saturates instead of wrapping. The byte counts of an \<open>NFS3_OK\<close> reply are the
  filesystem's block counts times its fragment size, capped at the largest 64-bit value.
\<close>

lemma nfs_fsstat_saturates:
  assumes "handle_ok (ctx_handle ctx)" "reader_ok r"
    and "reader_rest r = args_handle (handle_encode (ctx_handle ctx) ino) rest"
    and "fs_statfs (ctx_fs ctx) s = (Inr st, s1)"
  shows "\<exists>w tb fb ab. fsstat r ctx s = (Success w, snd (fs_getattr (ctx_fs ctx) ino s1)) \<and>
    writer_buf w = u32_to_be_bytes NFS3_OK @ post_op_of ctx ino s1 @ u64_to_be_bytes tb @
      u64_to_be_bytes fb @ u64_to_be_bytes ab @ u64_to_be_bytes (sf_files st) @
      u64_to_be_bytes (sf_ffree st) @ u64_to_be_bytes (sf_ffree st) @ u32_to_be_bytes (- 1) \<and>
    unat tb = min (2 ^ 64 - 1) (unat (sf_blocks st) * unat (sf_frsize st)) \<and>
    unat fb = min (2 ^ 64 - 1) (unat (sf_bfree st) * unat (sf_frsize st)) \<and>
    unat ab = min (2 ^ 64 - 1) (unat (sf_bavail st) * unat (sf_frsize st))"
proof -
  have hl: "length (handle_encode (ctx_handle ctx) ino) \<le> 64" using fh3.length_encode [OF assms(1)] by simp
  from handle_arg [OF assms(2) _ hl, of rest] assms(3) obtain r1
    where "read_opaque_var 64 r = (Some (handle_encode (ctx_handle ctx) ino), r1)"
    by (auto simp: args_handle_def)
  moreover have "unat (ucast (sf_frsize st) :: u64) = unat (sf_frsize st)"
    by (simp add: unsigned_ucast_eq take_bit_nat_eq_self unat_u32_bound order_less_trans [OF unat_u32_bound])
  ultimately show ?thesis using assms(1,4)
    by (simp add: fsstat_def let_some_def Let_def best_effort_eq wire fh3.resolve_encode
        unat_saturating_mul)
qed

end
