(* ===== verification/Mount_Proto.thy ===== *)
theory Mount_Proto
  imports Rpc Handle3 Xdr_Grammar Nfs_Replies
begin

text \<open>
  The MOUNT program, version 3, \<open>src/backend/nfs/mount_proto.rs\<close>: which export paths obtain
  the root handle. \<open>OsStr::to_str\<close> is the check that the path is well-formed UTF-8, written
  out as the byte ranges the Unicode standard lists.
\<close>

section \<open>Strings\<close>

definition utf8_cont :: "u8 \<Rightarrow> bool" where
  "utf8_cont b \<longleftrightarrow> 0x80 \<le> b \<and> b \<le> 0xBF"

text \<open>The length of the sequence a lead byte opens and the range of the byte after it.\<close>

definition utf8_lead :: "u8 \<Rightarrow> (nat \<times> u8 \<times> u8) option" where
  "utf8_lead b =
     (if b \<le> 0x7F then Some (0, 0, 0)
      else if 0xC2 \<le> b \<and> b \<le> 0xDF then Some (1, 0x80, 0xBF)
      else if b = 0xE0 then Some (2, 0xA0, 0xBF)
      else if b = 0xED then Some (2, 0x80, 0x9F)
      else if 0xE1 \<le> b \<and> b \<le> 0xEF then Some (2, 0x80, 0xBF)
      else if b = 0xF0 then Some (3, 0x90, 0xBF)
      else if 0xF1 \<le> b \<and> b \<le> 0xF3 then Some (3, 0x80, 0xBF)
      else if b = 0xF4 then Some (3, 0x80, 0x8F)
      else None)"

fun utf8_valid :: "bytes \<Rightarrow> bool" where
  "utf8_valid [] = True"
| "utf8_valid (b # bs) =
     (case utf8_lead b of
        None \<Rightarrow> False
      | Some (n, lo, hi) \<Rightarrow>
          (if n = 0 then utf8_valid bs
           else n \<le> length bs \<and> lo \<le> hd bs \<and> hd bs \<le> hi \<and>
             list_all utf8_cont (take n bs) \<and> utf8_valid (drop n bs)))"

definition to_str :: "os_string \<Rightarrow> bytes option" where
  "to_str s = (if utf8_valid s then Some s else None)"

definition strip_prefix :: "bytes \<Rightarrow> bytes \<Rightarrow> bytes option" where
  "strip_prefix p s = (if take (length p) s = p then Some (drop (length p) s) else None)"

definition split_once :: "u8 \<Rightarrow> bytes \<Rightarrow> (bytes \<times> bytes) option" where
  "split_once c s =
     (if c \<in> set s then Some (takeWhile (\<lambda>b. b \<noteq> c) s, tl (dropWhile (\<lambda>b. b \<noteq> c) s)) else None)"

definition is_ascii_hexdigit :: "u8 \<Rightarrow> bool" where
  "is_ascii_hexdigit b \<longleftrightarrow> (48 \<le> b \<and> b \<le> 57) \<or> (65 \<le> b \<and> b \<le> 70) \<or> (97 \<le> b \<and> b \<le> 102)"

definition SLASH :: u8 where
  "SLASH = 47"

section \<open>The procedures\<close>

definition MNT3_OK :: u32 where "MNT3_OK = 0"
definition MNT3ERR_NOENT :: u32 where "MNT3ERR_NOENT = 2"
definition MNT3ERR_ACCES :: u32 where "MNT3ERR_ACCES = 13"
definition MNTPATHLEN :: u32 where "MNTPATHLEN = 1024"
definition EXPORT_PREFIX :: bytes where "EXPORT_PREFIX = ascii ''/export/''"

definition mnt :: "reader \<Rightarrow> export_secret \<Rightarrow> file_handle3 \<Rightarrow> proc_outcome" where
  "mnt r export handle =
     let_some (read_string MNTPATHLEN) (\<lambda>_. GarbageArgs) (\<lambda>dirpath _.
       let w = writer_new
       in case to_str dirpath of
            None \<Rightarrow> Success (write_u32 MNT3ERR_NOENT w)
          | Some dirpath \<Rightarrow>
              (case strip_prefix EXPORT_PREFIX dirpath of
                 None \<Rightarrow> Success (write_u32 MNT3ERR_NOENT w)
               | Some rest \<Rightarrow>
                   (let hex = (case split_once SLASH rest of None \<Rightarrow> rest | Some (hex, _) \<Rightarrow> hex)
                    in if length hex \<noteq> 32 \<or> \<not> list_all is_ascii_hexdigit hex then
                         Success (write_u32 MNT3ERR_NOENT w)
                       else if \<not> export_matches export hex then
                         Success (write_u32 MNT3ERR_ACCES w)
                       else
                         (let w = write_u32 MNT3_OK w;
                              w = write_opaque_var (handle_encode handle ROOT_INO) w;
                              w = write_u32 1 w;
                              w = write_u32 1 w
                          in Success w)))) r"

definition umnt :: "reader \<Rightarrow> proc_outcome" where
  "umnt r =
     let_some (read_string MNTPATHLEN) (\<lambda>_. GarbageArgs) (\<lambda>_ _. Success writer_new) r"

definition export_list :: proc_outcome where
  "export_list = Success (write_bool False writer_new)"

definition mount_dispatch :: "u32 \<Rightarrow> reader \<Rightarrow> export_secret \<Rightarrow> file_handle3 \<Rightarrow> proc_outcome" where
  "mount_dispatch proc r export handle =
     (if proc = 0 then Success writer_new
      else if proc = 1 then mnt r export handle
      else if proc = 3 then umnt r
      else if proc = 5 then export_list
      else ProcUnavail)"

section \<open>Lemmas\<close>

lemma hex_digit_hex: "d < 16 \<Longrightarrow> is_ascii_hexdigit (hex_digit d) \<and> SLASH \<noteq> hex_digit d"
proof -
  assume "d < 16"
  then have "unat d < 16" by (simp add: word_less_nat_alt)
  then show ?thesis
    by (auto simp: is_ascii_hexdigit_def hex_digit_def SLASH_def word_less_nat_alt word_le_nat_alt
        unat_word_ariths word_unat_eq_iff)
qed

lemma export_hex_digits: "list_all is_ascii_hexdigit (export_hex (export_from_secret s)) \<and>
    SLASH \<notin> set (export_hex (export_from_secret s))"
  using hex_digit_hex [OF div_mod_16(1)] hex_digit_hex [OF div_mod_16(2)]
  by (induction s) (auto simp: export_from_secret_def hex_byte_def)

text \<open>The segment before the first slash.\<close>

lemma first_segment:
  "(case split_once SLASH rest of None \<Rightarrow> rest | Some (hex, _) \<Rightarrow> hex) = takeWhile (\<lambda>b. b \<noteq> SLASH) rest"
  by (auto simp: split_once_def takeWhile_eq_all_conv intro: sym)

lemma first_segment_eq:
  assumes "SLASH \<notin> set h"
  shows "takeWhile (\<lambda>b. b \<noteq> SLASH) rest = h \<longleftrightarrow> (\<exists>t. rest = h @ t \<and> (t = [] \<or> hd t = SLASH))"
proof
  assume "takeWhile (\<lambda>b. b \<noteq> SLASH) rest = h"
  then show "\<exists>t. rest = h @ t \<and> (t = [] \<or> hd t = SLASH)"
    using hd_dropWhile [of "\<lambda>b. b \<noteq> SLASH" rest]
    by (intro exI [of _ "dropWhile (\<lambda>b. b \<noteq> SLASH) rest"]) auto
next
  assume "\<exists>t. rest = h @ t \<and> (t = [] \<or> hd t = SLASH)"
  then obtain t where t: "rest = h @ t" "t = [] \<or> hd t = SLASH" by blast
  moreover have "takeWhile (\<lambda>b. b \<noteq> SLASH) h = h" using assms by (auto simp: takeWhile_eq_all_conv)
  ultimately show "takeWhile (\<lambda>b. b \<noteq> SLASH) rest = h"
    using assms by (cases t) (auto simp: takeWhile_append)
qed

lemma mnt_path:
  assumes "reader_ok r" "reader_rest r = enc_opaque_var path @ t" "length path \<le> 1024"
  obtains r' where "read_string MNTPATHLEN r = (Some path, r')"
proof -
  have "length path \<le> unat MNTPATHLEN" using assms(3) by (simp add: MNTPATHLEN_def)
  from string_item.get_rest [OF this assms(1,2)] show thesis using that by blast
qed

text \<open>
  A path that begins with \<open>/export/\<close> and has \<open>hex\<close> as its segment there, followed by nothing
  or by a slash and any label.
\<close>

definition carries :: "bytes \<Rightarrow> bytes \<Rightarrow> bool" where
  "carries hex path \<longleftrightarrow> (\<exists>label. path = EXPORT_PREFIX @ hex @ label \<and> (label = [] \<or> hd label = SLASH))"



lemma strip_prefix_Some: "strip_prefix p s = Some rest \<longleftrightarrow> s = p @ rest"
  by (auto simp: strip_prefix_def) (metis append_take_drop_id)


lemma mnt_of_path:
  assumes "length secret = 16" "read_string MNTPATHLEN r = (Some path, r')" "utf8_valid path"
  shows "if carries (export_hex (export_from_secret secret)) path
    then \<exists>w. mnt r (export_from_secret secret) h = Success w \<and>
      writer_buf w = u32_to_be_bytes 0 @ enc_opaque_var (handle_encode h ROOT_INO) @
        u32_to_be_bytes 1 @ u32_to_be_bytes 1
    else mnt r (export_from_secret secret) h =
      Success (write_u32 (if \<exists>hex. length hex = 32 \<and> list_all is_ascii_hexdigit hex \<and> carries hex path then 13 else 2)
        writer_new)"
proof -
  let ?hex = "export_hex (export_from_secret secret)"
  have m: "mnt r (export_from_secret secret) h =
      (case strip_prefix EXPORT_PREFIX path of
         None \<Rightarrow> Success (write_u32 2 writer_new)
       | Some rest \<Rightarrow>
           (let hex = takeWhile (\<lambda>b. b \<noteq> SLASH) rest
            in if length hex \<noteq> 32 \<or> \<not> list_all is_ascii_hexdigit hex then Success (write_u32 2 writer_new)
               else if hex \<noteq> ?hex then Success (write_u32 13 writer_new)
               else Success (write_u32 1 (write_u32 1 (write_opaque_var (handle_encode h ROOT_INO)
                      (write_u32 0 writer_new))))))"
    using assms(3) unfolding mnt_def let_some_def assms(2) to_str_def first_segment export_matches_def ct_eq_iff
    by (simp add: Let_def MNT3ERR_NOENT_def MNT3ERR_ACCES_def MNT3_OK_def split: option.split)
  have hexdigit: "list_all is_ascii_hexdigit hex \<Longrightarrow> SLASH \<notin> set hex" for hex
    by (auto simp: list_all_iff is_ascii_hexdigit_def SLASH_def)
  have carries: "carries hex path \<longleftrightarrow> (\<exists>rest. strip_prefix EXPORT_PREFIX path = Some rest \<and> takeWhile (\<lambda>b. b \<noteq> SLASH) rest = hex)"
    if "SLASH \<notin> set hex" for hex
    unfolding carries_def strip_prefix_Some first_segment_eq [OF that] by blast
  have own: "length ?hex = 32" "list_all is_ascii_hexdigit ?hex" "SLASH \<notin> set ?hex"
    using assms(1) export_hex_digits by simp_all
  show ?thesis
  proof (cases "strip_prefix EXPORT_PREFIX path")
    case None
    then have "\<not> carries hex path" if "list_all is_ascii_hexdigit hex" for hex
      using carries [OF hexdigit [OF that]] by simp
    with None m own show ?thesis by auto
  next
    case (Some rest)
    let ?seg = "takeWhile (\<lambda>b. b \<noteq> SLASH) rest"
    have c: "carries hex path \<longleftrightarrow> ?seg = hex" if "list_all is_ascii_hexdigit hex" for hex
      using carries [OF hexdigit [OF that]] Some by simp
    then have "(\<exists>hex. length hex = 32 \<and> list_all is_ascii_hexdigit hex \<and> carries hex path) \<longleftrightarrow>
        length ?seg = 32 \<and> list_all is_ascii_hexdigit ?seg" by blast
    with Some m own c [OF own(2)] show ?thesis by (auto simp: wire)
  qed
qed

lemma mnt_outcome:
  assumes "length secret = 16" "reader_ok r" "reader_rest r = enc_opaque_var path @ t"
    and "length path \<le> 1024" "utf8_valid path"
  shows "if carries (export_hex (export_from_secret secret)) path
    then \<exists>w. mnt r (export_from_secret secret) h = Success w \<and>
      writer_buf w = u32_to_be_bytes MNT3_OK @ enc_opaque_var (handle_encode h ROOT_INO) @
        u32_to_be_bytes 1 @ u32_to_be_bytes 1
    else \<exists>st. st \<in> {MNT3ERR_NOENT, MNT3ERR_ACCES} \<and>
      mnt r (export_from_secret secret) h = Success (write_u32 st writer_new)"
proof -
  from mnt_path [OF assms(2-4)] obtain r' where "read_string MNTPATHLEN r = (Some path, r')" .
  from mnt_of_path [OF assms(1) this assms(5), of h] show ?thesis
    by (auto simp: MNT3_OK_def MNT3ERR_NOENT_def MNT3ERR_ACCES_def split: if_splits)
qed



section \<open>Properties\<close>




end
