(* ===== verification/Nfs_Server.thy ===== *)
theory Nfs_Server
  imports Nfs_Semantics Mount_Proto
begin

text \<open>
  The RPC server of \<open>src/backend/nfs/server.rs\<close>: routing one message and the loop of one
  connection. The atomic flags are read by the code once per use, so
  each read is an argument here: \<open>handle_message\<close> takes the two values its two match guards
  load, and an iteration of the connection loop is told what it observes. A build without
  the \<open>nfs-tcp\<close> feature has no MOUNT arms, which is what both guards reading \<open>False\<close> gives.
  The accept loop and its workers are put together in \<open>Nfs_System\<close>.
\<close>

definition MOUNT_PROG :: u32 where "MOUNT_PROG = 100005"
definition NFS_PROG :: u32 where "NFS_PROG = 100003"

section \<open>One message\<close>

record 's server =
  srv_fs :: "'s read_only_fs"
  srv_handle :: file_handle3
  srv_export :: export_secret

definition handle_message ::
  "'s server \<Rightarrow> bool \<Rightarrow> bool \<Rightarrow> bytes \<Rightarrow> 's \<Rightarrow> (bytes option \<times> 's) option" where
  "handle_message srv serve_mount serve_mount' body s =
     (let r = reader_new body
      in case read_call_header r of
           (Malformed, r) \<Rightarrow> Some (None, s)
         | (BadRpcvers xid, r) \<Rightarrow> Some (Some (rpc_mismatch_reply xid), s)
         | (Call call, r) \<Rightarrow>
             if ch_prog call = MOUNT_PROG \<and> ch_vers call = 3 \<and> serve_mount then
               (let outcome = mount_dispatch (ch_proc call) r (srv_export srv) (srv_handle srv)
                in Some (Some (build_reply (ch_xid call) outcome), s))
             else if ch_prog call = MOUNT_PROG \<and> serve_mount' then
               Some (Some (prog_mismatch_reply (ch_xid call)), s)
             else if ch_prog call = MOUNT_PROG then
               Some (Some (prog_unavail_reply (ch_xid call)), s)
             else if ch_prog call = NFS_PROG \<and> ch_vers call = 3 then
               (let ctx = \<lparr>ctx_fs = srv_fs srv, ctx_handle = srv_handle srv, ctx_fsid = 1\<rparr>
                in case nfs_dispatch (ch_proc call) r ctx s of
                     None \<Rightarrow> None
                   | Some (outcome, s) \<Rightarrow> Some (Some (build_reply (ch_xid call) outcome), s))
             else if ch_prog call = NFS_PROG then
               Some (Some (prog_mismatch_reply (ch_xid call)), s)
             else Some (Some (prog_unavail_reply (ch_xid call)), s))"

section \<open>One connection\<close>

record observed =
  obs_stop :: bool
  obs_mount :: bool
  obs_mount' :: bool

datatype conn_status = Serving | Closed

definition retryable :: "io_error \<Rightarrow> bool" where
  "retryable e \<longleftrightarrow> io_kind e = EkWouldBlock \<or> io_kind e = EkTimedOut"

definition serve_iter ::
  "'s server \<Rightarrow> observed \<Rightarrow> conn \<Rightarrow> 's \<Rightarrow> (conn_status \<times> conn \<times> 's) option" where
  "serve_iter srv obs c s =
     (if obs_stop obs then Some (Closed, c, s)
      else
        (case read_message c of
           (Inr None, c) \<Rightarrow> Some (Closed, c, s)
         | (Inl e, c) \<Rightarrow> if retryable e then Some (Serving, c, s) else Some (Closed, c, s)
         | (Inr (Some body), c) \<Rightarrow>
             (case handle_message srv (obs_mount obs) (obs_mount' obs) body s of
                None \<Rightarrow> None
              | Some (None, s) \<Rightarrow> Some (Closed, c, s)
              | Some (Some reply, s) \<Rightarrow>
                  (case write_message reply c of
                     (Inl _, c) \<Rightarrow> Some (Closed, c, s)
                   | (Inr _, c) \<Rightarrow> Some (Serving, c, s)))))"

text \<open>
  The loop, for as many iterations as there are observations: \<open>Serving\<close> at the end is a
  connection that is still open then.
\<close>

fun serve_connection ::
  "'s server \<Rightarrow> observed list \<Rightarrow> conn \<Rightarrow> 's \<Rightarrow> (conn_status \<times> conn \<times> 's) option" where
  "serve_connection srv [] c s = Some (Serving, c, s)"
| "serve_connection srv (obs # rest) c s =
     (case serve_iter srv obs c s of
        None \<Rightarrow> None
      | Some (Closed, c, s) \<Rightarrow> Some (Closed, c, s)
      | Some (Serving, c, s) \<Rightarrow> serve_connection srv rest c s)"

section \<open>Lemmas\<close>

lemma handle_message_total: "\<exists>rep s'. handle_message srv m m' body s = Some (rep, s')"
proof (cases "read_call_header (reader_new body)")
  case (Pair h r)
  show ?thesis
  proof (cases h)
    case (Call call)
    obtain out s' where "nfs_dispatch (ch_proc call) r
        \<lparr>ctx_fs = srv_fs srv, ctx_handle = srv_handle srv, ctx_fsid = 1\<rparr> s = Some (out, s')"
      using nfs_dispatch_returns [of "ch_proc call" r
          "\<lparr>ctx_fs = srv_fs srv, ctx_handle = srv_handle srv, ctx_fsid = 1\<rparr>" s] by blast
    with Pair Call show ?thesis by (simp add: handle_message_def Let_def)
  qed (simp_all add: handle_message_def Pair)
qed

lemma serve_iter_total: "\<exists>y. serve_iter srv obs c s = Some y"
proof -
  obtain r c1 where rm: "read_message c = (r, c1)" by fastforce
  show ?thesis
  proof (cases r)
    case (Inr b)
    show ?thesis
    proof (cases b)
      case (Some body)
      obtain rep s1 where h: "handle_message srv (obs_mount obs) (obs_mount' obs) body s = Some (rep, s1)"
        using handle_message_total by fastforce
      show ?thesis using rm Inr Some h
        by (cases rep) (auto simp: serve_iter_def split: prod.split sum.split)
    qed (use rm Inr in \<open>simp add: serve_iter_def\<close>)
  qed (use rm in \<open>simp add: serve_iter_def\<close>)
qed

section \<open>The transaction id\<close>

lemma header_xid:
  assumes "read_call_header (reader_new body) = (h, r)" "length body < 2 ^ 63"
  shows "case h of Malformed \<Rightarrow> True
    | BadRpcvers x \<Rightarrow> take 4 body = u32_to_be_bytes x
    | Call call \<Rightarrow> take 4 body = u32_to_be_bytes (ch_xid call)"
proof (cases "4 \<le> length body")
  case True
  have "read_u32 (reader_new body) = (Some (u32_from_be_bytes (take 4 body)), reader_adv 4 (reader_new body))"
    using True assms(2) by (simp add: reader_simps)
  moreover have "u32_to_be_bytes (u32_from_be_bytes (take 4 body)) = take 4 body"
    using True by (simp add: u32_be_inverse)
  ultimately show ?thesis using assms(1)
    by (auto simp: read_call_header_def let_some_def Let_def split: prod.splits option.splits if_splits)
next
  case False
  then have "read_u32 (reader_new body) = (None, reader_new body)"
    using assms(2) by (simp add: reader_simps)
  with assms(1) show ?thesis by (auto simp: read_call_header_def let_some_def Let_def)
qed

lemma build_reply_head: "take 8 (build_reply x out) = u32_to_be_bytes x @ u32_to_be_bytes 1"
  by (cases out) (simp_all add: build_reply_def write_reply_header_def wire Let_def)

lemma fixed_reply_head:
  "take 8 (prog_unavail_reply x) = u32_to_be_bytes x @ u32_to_be_bytes 1"
  "take 8 (prog_mismatch_reply x) = u32_to_be_bytes x @ u32_to_be_bytes 1"
  "take 8 (rpc_mismatch_reply x) = u32_to_be_bytes x @ u32_to_be_bytes 1"
  by (simp_all add: prog_unavail_reply_def prog_mismatch_reply_def rpc_mismatch_reply_def
      write_prog_mismatch_body_def write_reply_header_def wire Let_def)

section \<open>Every iteration consumes input\<close>

fun inbox_size :: "chunk list \<Rightarrow> nat" where
  "inbox_size [] = 0"
| "inbox_size (Data bs # st) = Suc (length bs) + inbox_size st"
| "inbox_size (Fail e # st) = Suc (inbox_size st)"

lemma stream_read_size:
  "stream_read n st = (r, st') \<Longrightarrow> 0 < n \<Longrightarrow>
   inbox_size st' \<le> inbox_size st \<and> (st \<noteq> [] \<longrightarrow> inbox_size st' < inbox_size st)"
  by (cases "(n, st)" rule: stream_read.cases) (auto split: if_splits)

lemma read_exact_size: "read_exact len buf st = (r, st') \<Longrightarrow> inbox_size st' \<le> inbox_size st"
proof (induction len buf st arbitrary: r st' rule: read_exact.induct)
  case (1 len buf st)
  obtain x st1 where sr: "stream_read (len - length buf) st = (x, st1)" by fastforce
  show ?case
  proof (cases "length buf < len")
    case True
    then have le: "inbox_size st1 \<le> inbox_size st" using stream_read_size [OF sr] by simp
    have st': "r = Inl (io_error_from_kind EkUnexpectedEof) \<and> st' = st1 \<or> (\<exists>e. x = Inl e \<and> st' = st1) \<or>
        (\<exists>e. x = Inl e \<and> io_kind e = EkInterrupted \<and> read_exact len buf st1 = (r, st')) \<or>
        (\<exists>bs. x = Inr bs \<and> bs \<noteq> [] \<and> read_exact len (buf @ bs) st1 = (r, st'))"
      using 1(3) True sr by (subst (asm) read_exact.simps) (auto split: sum.splits if_splits)
    then show ?thesis
      using le 1(1) [OF True sr [symmetric]] 1(2) [OF True sr [symmetric]]
      by (elim disjE exE conjE) (auto intro: order_trans)
  next
    case False
    with 1(3) show ?thesis by (simp add: read_exact.simps [of len buf st])
  qed
qed

lemma read_exact_or_eof_size:
  "read_exact_or_eof len buf st = (r, st') \<Longrightarrow> inbox_size st' \<le> inbox_size st"
proof (induction len buf st arbitrary: r st' rule: read_exact_or_eof.induct)
  case (1 len buf st)
  obtain x st1 where sr: "stream_read (len - length buf) st = (x, st1)" by fastforce
  show ?case
  proof (cases "length buf < len")
    case True
    then have le: "inbox_size st1 \<le> inbox_size st" using stream_read_size [OF sr] by simp
    have "st' = st1 \<or> (\<exists>bs. x = Inr bs \<and> bs \<noteq> [] \<and> read_exact_or_eof len (buf @ bs) st1 = (r, st'))"
      using 1(2) True sr by (subst (asm) read_exact_or_eof.simps) (auto split: sum.splits if_splits)
    then show ?thesis
    proof (elim disjE exE conjE)
      fix bs assume "x = Inr bs" "bs \<noteq> []" "read_exact_or_eof len (buf @ bs) st1 = (r, st')"
      from 1(1) [OF True sr [symmetric] this] le show ?thesis by simp
    qed (use le in simp)
  next
    case False
    with 1(2) show ?thesis by (simp add: read_exact_or_eof.simps [of len buf st])
  qed
qed

lemma read_exact_or_eof_first:
  assumes "read_exact_or_eof 4 [] st = (r, st')" "st \<noteq> []"
  shows "inbox_size st' < inbox_size st"
proof -
  obtain x st1 where sr: "stream_read 4 st = (x, st1)" by fastforce
  from stream_read_size [OF sr] assms(2) have lt: "inbox_size st1 < inbox_size st" by simp
  have "st' = st1 \<or> (\<exists>bs. read_exact_or_eof 4 bs st1 = (r, st'))"
    using assms(1) sr by (subst (asm) read_exact_or_eof.simps) (auto split: sum.splits if_splits)
  then show ?thesis using lt read_exact_or_eof_size by (metis order_le_less_trans)
qed

lemma read_message_size:
  assumes "read_message c = (r, c')" "inbox c \<noteq> []"
  shows "inbox_size (inbox c') < inbox_size (inbox c)"
proof -
  obtain b hdr st where e: "read_exact_or_eof 4 [] (inbox c) = ((b, hdr), st)" by (metis prod.exhaust)
  from read_exact_or_eof_first [OF e assms(2)] have lt: "inbox_size st < inbox_size (inbox c)" .
  have "inbox_size (inbox c') \<le> inbox_size st"
    using assms(1) e read_exact_size
    by (fastforce simp: read_message_def Let_def split: sum.splits bool.splits if_splits prod.splits)
  with lt show ?thesis by simp
qed

lemma read_message_empty: "inbox c = [] \<Longrightarrow> fst (read_message c) = Inr None"
  by (simp add: read_message_def read_exact_or_eof.simps)

lemma write_message_inbox: "write_message b c = (r, c') \<Longrightarrow> inbox c' = inbox c"
  by (auto simp: write_message_def write_all_def Let_def split: option.splits if_splits prod.splits sum.splits)

lemma serve_iter_progress:
  assumes "serve_iter srv obs c s = Some (Serving, c', s')"
  shows "inbox_size (inbox c') < inbox_size (inbox c)"
proof -
  obtain r c1 where rm: "read_message c = (r, c1)" by fastforce
  have "inbox c \<noteq> []" using assms rm read_message_empty [of c]
    by (auto simp: serve_iter_def split: if_splits)
  from read_message_size [OF rm this] have "inbox_size (inbox c1) < inbox_size (inbox c)" .
  moreover have "inbox c' = inbox c1" using assms rm
    by (auto simp: serve_iter_def split: if_splits sum.splits option.splits prod.splits
        dest: write_message_inbox)
  ultimately show ?thesis by simp
qed

lemma serve_connection_total: "\<exists>st c' s'. serve_connection srv obs c s = Some (st, c', s')"
proof (induction obs arbitrary: c s)
  case (Cons ob obs)
  obtain st c1 s1 where "serve_iter srv ob c s = Some (st, c1, s1)"
    using serve_iter_total [of srv ob c s] by auto
  with Cons show ?case by (cases st) simp_all
qed simp

lemma serve_connection_closes:
  "inbox_size (inbox c) < length obs \<Longrightarrow> \<exists>c' s'. serve_connection srv obs c s = Some (Closed, c', s')"
proof (induction obs arbitrary: c s)
  case (Cons ob obs)
  obtain st c1 s1 where it: "serve_iter srv ob c s = Some (st, c1, s1)"
    using serve_iter_total [of srv ob c s] by auto
  show ?case
  proof (cases st)
    case Serving
    with serve_iter_progress it Cons.prems have "inbox_size (inbox c1) < length obs" by fastforce
    from Cons.IH [OF this] it Serving show ?thesis by simp
  qed (use it in simp)
qed simp

section \<open>Answering in order\<close>

text \<open>The replies to a sequence of messages, up to the first that cannot be answered.\<close>

fun answers :: "'s server \<Rightarrow> bool \<Rightarrow> bool \<Rightarrow> bytes list \<Rightarrow> 's \<Rightarrow> bytes list \<times> 's" where
  "answers srv m m' [] s = ([], s)"
| "answers srv m m' (b # bs) s =
     (case handle_message srv m m' b s of
        Some (Some rep, s) \<Rightarrow> (case answers srv m m' bs s of (reps, s) \<Rightarrow> (rep # reps, s))
      | Some (None, s) \<Rightarrow> ([], s)
      | None \<Rightarrow> ([], s))"

lemma serve_connection_answers:
  assumes "inbox_clean (inbox c)" "inbox_data (inbox c) = concat (map frame bodies)"
    and "\<forall>b \<in> set bodies. length b \<le> unat MAX_FRAGMENT_LEN" "send_limit c = None"
    and "\<not> obs_stop ob" "length bodies < n"
  shows "\<exists>c'. serve_connection srv (replicate n ob) c s =
      Some (Closed, c', snd (answers srv (obs_mount ob) (obs_mount' ob) bodies s)) \<and>
    sent c' = sent c @ concat (map frame (fst (answers srv (obs_mount ob) (obs_mount' ob) bodies s)))"
  using assms(1-4,6)
proof (induction bodies arbitrary: c s n)
  case Nil
  then obtain k where n: "n = Suc k" by (cases n) auto
  have "inbox c = []" using Nil.prems by (cases "inbox c" rule: inbox_clean.cases) auto
  with read_message_empty obtain c1 where "read_message c = (Inr None, c1)" by (metis prod.collapse)
  moreover from this have "sent c1 = sent c"
    by (auto simp: read_message_def Let_def split: prod.splits sum.splits bool.splits if_splits)
  ultimately show ?case using assms(5) by (auto simp: n serve_iter_def)
next
  case (Cons b bodies)
  then obtain k where n: "n = Suc k" by (cases n) auto
  from read_message_frame [of c b "concat (map frame bodies)"] Cons.prems obtain st
    where rm: "read_message c = (Inr (Some b), c\<lparr>inbox := st\<rparr>)" "inbox_clean st"
      "inbox_data st = concat (map frame bodies)" by auto
  obtain rep s1 where h: "handle_message srv (obs_mount ob) (obs_mount' ob) b s = Some (rep, s1)"
    using handle_message_total [of srv "obs_mount ob" "obs_mount' ob" b s] by blast
  show ?case
  proof (cases rep)
    case None
    with h rm assms(5) show ?thesis by (simp add: n serve_iter_def)
  next
    case (Some reply)
    let ?c = "c\<lparr>inbox := st, sent := sent c @ frame reply\<rparr>"
    have "serve_iter srv ob c s = Some (Serving, ?c, s1)"
      using assms(5) rm(1) h Some Cons.prems(4) by (simp add: serve_iter_def write_message_sends)
    moreover from Cons.IH [of ?c k s1] rm(2,3) Cons.prems(3-5) n
    obtain c' where "serve_connection srv (replicate k ob) ?c s1 =
        Some (Closed, c', snd (answers srv (obs_mount ob) (obs_mount' ob) bodies s1))"
      "sent c' = sent ?c @ concat (map frame (fst (answers srv (obs_mount ob) (obs_mount' ob) bodies s1)))"
      by auto
    ultimately show ?thesis using h Some by (simp add: n split: prod.splits)
  qed
qed

section \<open>The example server\<close>

definition demo_server :: "mem_fs server" where
  "demo_server = \<lparr>srv_fs = mem_impl 0 0, srv_handle = demo_handle,
     srv_export = export_from_secret (replicate 16 9)\<rparr>"

definition demo_call :: "u32 \<Rightarrow> u32 \<Rightarrow> u32 \<Rightarrow> bytes" where
  "demo_call prog vers proc =
     enc_call \<lparr>ch_xid = 77, ch_prog = prog, ch_vers = vers, ch_proc = proc\<rparr> 0 [] 0 []"

lemma length_demo_call [simp]: "length (demo_call prog vers proc) = 40"
  by (simp add: demo_call_def enc_call_def enc_opaque_var_def enc_opaque_fixed_def)

lemma demo_call_header:
  "\<exists>r. read_call_header (reader_new (demo_call prog vers proc)) =
     (Call \<lparr>ch_xid = 77, ch_prog = prog, ch_vers = vers, ch_proc = proc\<rparr>, r)"
proof -
  have "reader_ok (reader_new (demo_call prog vers proc))" by simp
  from read_call_header_enc [OF this, of _ 0 "[]" 0 "[]" "[]"] show ?thesis by (auto simp: demo_call_def)
qed

section \<open>Properties\<close>

text \<open>
  C33: Every message with a call header is answered, with its own transaction id. For every
  byte string, configuration and filesystem, \<open>handle_message\<close> returns; when it returns a
  reply, the reply starts with the first four bytes of the message and the word that marks a
  reply, and when it returns none the header was malformed.
\<close>

theorem message_answered_with_xid:
  assumes "length body < 2 ^ 63"
  shows "\<exists>rep s'. handle_message srv m m' body s = Some (rep, s') \<and>
    (case rep of
       None \<Rightarrow> fst (read_call_header (reader_new body)) = Malformed
     | Some reply \<Rightarrow> take 8 reply = take 4 body @ u32_to_be_bytes 1)"
proof -
  obtain rep s' where h: "handle_message srv m m' body s = Some (rep, s')"
    using handle_message_total [of srv m m' body s] by blast
  obtain hd r where hr: "read_call_header (reader_new body) = (hd, r)" by fastforce
  from h hr header_xid [OF hr assms] show ?thesis
    by (cases hd) (auto simp: handle_message_def Let_def build_reply_head fixed_reply_head
        split: if_splits option.splits prod.splits)
qed

theorem message_answered_with_xid_witness:
  "\<exists>rep s'. handle_message demo_server False False (demo_call NFS_PROG 3 1) mem_fs_new = Some (rep, s') \<and>
    (case rep of
       None \<Rightarrow> fst (read_call_header (reader_new (demo_call NFS_PROG 3 1))) = Malformed
     | Some reply \<Rightarrow> take 8 reply = take 4 (demo_call NFS_PROG 3 1) @ u32_to_be_bytes 1)"
  by (rule message_answered_with_xid) simp

text \<open>
  While the MOUNT program is closed it does not exist. With both guards reading a cleared
  flag, every call to the MOUNT program, whatever its version, procedure and arguments, is
  answered with \<open>PROG_UNAVAIL\<close>; no path is looked at and no handle is returned.
\<close>

lemma mount_closed_unavailable:
  assumes "read_call_header (reader_new body) = (Call call, r)" "ch_prog call = MOUNT_PROG"
  shows "handle_message srv False False body s = Some (Some (prog_unavail_reply (ch_xid call)), s)"
  using assms by (simp add: handle_message_def)

text \<open>
  C32: A connection does not outlive its input. Whatever the peer sends (timeouts and errors
  included), whatever the flags read and however the filesystem behaves, the connection loop
  ends within one iteration more than the pieces and bytes the peer delivers.
\<close>

theorem connection_terminates:
  assumes "inbox_size (inbox c) < length obs"
  shows "\<exists>c' s'. serve_connection srv obs c s = Some (Closed, c', s')"
  using assms by (rule serve_connection_closes)

theorem connection_terminates_witness:
  "\<exists>c' s'. serve_connection demo_server
      (replicate 5 \<lparr>obs_stop = False, obs_mount = False, obs_mount' = False\<rparr>)
      \<lparr>inbox = [Data [1, 2], Fail (io_error_from_kind EkTimedOut)], sent = [], send_limit = None\<rparr> mem_fs_new =
    Some (Closed, c', s')"
  by (rule connection_terminates) simp

end
