(* ===== verification/Preflight.thy ===== *)
theory Preflight
  imports Fs_Error
begin

text \<open>
  The mount options of \<open>src/mount.rs\<close> (\<open>Backend\<close>, \<open>MountBuilder\<close> and its setters) and the
  validation every backend runs first, \<open>src/backend/preflight.rs\<close>. The two questions asked
  of the operating system, whether the mountpoint is a directory and whether it has an entry,
  are a parameter. Paths are their displayed text.
\<close>

section \<open>Options\<close>

datatype backend = Auto | Fuse | Nfs | CfApi

record mount_builder =
  mb_mountpoint :: string
  mb_backend :: backend
  mb_fs_name :: rust_str
  mb_allow_other :: bool
  mb_auto_unmount :: bool
  mb_threads :: "usize option"
  mb_nfs_require_local_socket :: bool

definition builder_new :: "string \<Rightarrow> mount_builder" where
  "builder_new mountpoint =
     \<lparr>mb_mountpoint = mountpoint, mb_backend = Auto, mb_fs_name = chars ''anymount'',
      mb_allow_other = False, mb_auto_unmount = False, mb_threads = None,
      mb_nfs_require_local_socket = False\<rparr>"

definition set_backend :: "backend \<Rightarrow> mount_builder \<Rightarrow> mount_builder" where
  "set_backend b mb = mb\<lparr>mb_backend := b\<rparr>"

definition set_fs_name :: "rust_str \<Rightarrow> mount_builder \<Rightarrow> mount_builder" where
  "set_fs_name name mb = mb\<lparr>mb_fs_name := name\<rparr>"

definition set_allow_other :: "bool \<Rightarrow> mount_builder \<Rightarrow> mount_builder" where
  "set_allow_other yes mb = mb\<lparr>mb_allow_other := yes\<rparr>"

definition set_auto_unmount :: "bool \<Rightarrow> mount_builder \<Rightarrow> mount_builder" where
  "set_auto_unmount yes mb = mb\<lparr>mb_auto_unmount := yes\<rparr>"

definition set_nfs_require_local_socket :: "bool \<Rightarrow> mount_builder \<Rightarrow> mount_builder" where
  "set_nfs_require_local_socket yes mb = mb\<lparr>mb_nfs_require_local_socket := yes\<rparr>"

definition set_threads :: "usize \<Rightarrow> mount_builder \<Rightarrow> mount_builder" where
  "set_threads n mb = mb\<lparr>mb_threads := Some (max n 1)\<rparr>"

section \<open>Capabilities\<close>

record caps =
  caps_name :: string
  caps_allow_other :: bool
  caps_auto_unmount :: bool
  caps_threads :: bool
  caps_empty_mountpoint :: bool
  caps_nfs_local_socket :: bool

text \<open>
  What the host answers: \<open>metadata(path)\<close>, reduced to whether it is a directory, and
  \<open>read_dir(path)\<close>, reduced to whether the first \<open>next()\<close> is some entry.
\<close>

record host =
  host_is_dir :: "string \<Rightarrow> io_error + bool"
  host_has_entry :: "string \<Rightarrow> io_error + bool"

definition check_mountpoint :: "host \<Rightarrow> string \<Rightarrow> unit fs_result" where
  "check_mountpoint hst path =
     (case host_is_dir hst path of
        Inl e \<Rightarrow> Inl (fs_context (''mountpoint '' @ path @
          '' is not usable; it must exist and be a directory'') (Io e))
      | Inr is_dir \<Rightarrow>
          if \<not> is_dir then Inl (fs_context (''mountpoint '' @ path @ '' is not a directory'') NotADirectory)
          else Inr ())"

definition check_mountpoint_empty :: "host \<Rightarrow> string \<Rightarrow> string \<Rightarrow> unit fs_result" where
  "check_mountpoint_empty hst path name =
     (case host_has_entry hst path of
        Inl e \<Rightarrow> Inl (fs_context (''reading mountpoint '' @ path @ '' to check that it is empty'') (Io e))
      | Inr has_entry \<Rightarrow>
          if has_entry then
            Inl (fs_context (''mountpoint '' @ path @ '' is not empty; the '' @ name @
              '' backend projects its entries into the directory rather than covering it, and clears '' @
              ''them again on unmount, so mounting here would destroy the existing contents. '' @
              ''Use an empty directory'') InvalidArgument)
          else Inr ())"

definition preflight_check :: "host \<Rightarrow> mount_builder \<Rightarrow> caps \<Rightarrow> unit fs_result" where
  "preflight_check hst b c =
     (case check_mountpoint hst (mb_mountpoint b) of
        Inl e \<Rightarrow> Inl e
      | Inr _ \<Rightarrow>
          (case (if caps_empty_mountpoint c
                 then check_mountpoint_empty hst (mb_mountpoint b) (caps_name c) else Inr ()) of
             Inl e \<Rightarrow> Inl e
           | Inr _ \<Rightarrow>
               if mb_allow_other b \<and> \<not> caps_allow_other c then
                 Inl (fs_context (''the '' @ caps_name c @
                   '' backend cannot honor allow_other; it is a FUSE mount option with no equivalent '' @
                   ''here. Leave it off, or mount with Backend::Fuse on Linux'') InvalidArgument)
               else if mb_threads b \<noteq> None \<and> \<not> caps_threads c then
                 Inl (fs_context (''the '' @ caps_name c @
                   '' backend cannot honor threads; it does not own its own worker pool. Leave it '' @
                   ''unset, or mount with Backend::Fuse on Linux'') InvalidArgument)
               else if mb_nfs_require_local_socket b \<and> \<not> caps_nfs_local_socket c then
                 Inl (fs_context (''the '' @ caps_name c @
                   '' backend cannot honor nfs_require_local_socket; it has no local-socket transport '' @
                   ''to require. It is a macOS NFS option, and needs the `nfs-local-socket` feature'')
                   InvalidArgument)
               else if mb_auto_unmount b \<and> \<not> caps_auto_unmount c then
                 Inl (fs_context (''the '' @ caps_name c @
                   '' backend cannot honor auto_unmount; it is a FUSE mount option with no equivalent '' @
                   ''here. The mount is torn down when the Mount is dropped, which covers an orderly exit'')
                   InvalidArgument)
               else Inr ()))"

section \<open>Lemmas\<close>

text \<open>The options a builder asks for that a backend cannot honor.\<close>

definition unsupported_option :: "mount_builder \<Rightarrow> caps \<Rightarrow> bool" where
  "unsupported_option b c \<longleftrightarrow>
     (mb_allow_other b \<and> \<not> caps_allow_other c) \<or>
     (mb_threads b \<noteq> None \<and> \<not> caps_threads c) \<or>
     (mb_nfs_require_local_socket b \<and> \<not> caps_nfs_local_socket c) \<or>
     (mb_auto_unmount b \<and> \<not> caps_auto_unmount c)"

lemma preflight_Inr_iff:
  "preflight_check hst b c = Inr () \<longleftrightarrow>
     host_is_dir hst (mb_mountpoint b) = Inr True \<and>
     \<not> (caps_empty_mountpoint c \<and> host_has_entry hst (mb_mountpoint b) \<noteq> Inr False) \<and>
     \<not> unsupported_option b c"
  by (auto simp: preflight_check_def check_mountpoint_def check_mountpoint_empty_def
      unsupported_option_def split: sum.split)

section \<open>Properties\<close>

text \<open>
  C36: Preflight accepts exactly what the backend can do. A builder passes if and only if its
  mountpoint is a directory, it is empty where the backend projects into it, and no option
  is set that the backend cannot honor; in particular no request is silently ignored. A
  usable mountpoint with an unsupported option is refused as an invalid argument.
\<close>

theorem preflight_accepts_exactly:
  "(preflight_check hst b c = Inr () \<longleftrightarrow>
     host_is_dir hst (mb_mountpoint b) = Inr True \<and>
     \<not> (caps_empty_mountpoint c \<and> host_has_entry hst (mb_mountpoint b) \<noteq> Inr False) \<and>
     \<not> unsupported_option b c) \<and>
   (host_is_dir hst (mb_mountpoint b) = Inr True \<and> \<not> caps_empty_mountpoint c \<and> unsupported_option b c \<longrightarrow>
     (\<exists>m. preflight_check hst b c = Inl (Context InvalidArgument m)))"
proof -
  have "\<exists>m. preflight_check hst b c = Inl (Context InvalidArgument m)"
    if "host_is_dir hst (mb_mountpoint b) = Inr True" "\<not> caps_empty_mountpoint c" "unsupported_option b c"
    using that by (auto simp: preflight_check_def check_mountpoint_def unsupported_option_def fs_context_def)
  then show ?thesis using preflight_Inr_iff by blast
qed

theorem preflight_accepts_exactly_witness:
  "\<exists>m. preflight_check \<lparr>host_is_dir = (\<lambda>_. Inr True), host_has_entry = (\<lambda>_. Inr True)\<rparr>
      (set_threads 0 (builder_new ''/mnt''))
      \<lparr>caps_name = ''nfs'', caps_allow_other = False, caps_auto_unmount = False, caps_threads = False,
       caps_empty_mountpoint = False, caps_nfs_local_socket = True\<rparr> =
    Inl (Context InvalidArgument m)"
  using preflight_accepts_exactly [of "\<lparr>host_is_dir = (\<lambda>_. Inr True), host_has_entry = (\<lambda>_. Inr True)\<rparr>"
      "set_threads 0 (builder_new ''/mnt'')" "\<lparr>caps_name = ''nfs'', caps_allow_other = False,
       caps_auto_unmount = False, caps_threads = False, caps_empty_mountpoint = False, caps_nfs_local_socket = True\<rparr>"]
  by (simp add: set_threads_def builder_new_def unsupported_option_def)

end
