(* ===== verification/Mount_Lifecycle.thy ===== *)
theory Mount_Lifecycle
  imports Preflight
begin

text \<open>
  Choosing a backend (\<open>src/backend/mod.rs\<close>) and the live handle \<open>Mount\<close> (\<open>src/mount.rs\<close>).
  The trait \<open>Mounted\<close> is a record over a handle type and the state of the world outside;
  its \<open>unmount\<close> consumes the handle. Which backends are compiled in is the build's \<open>cfg\<close>,
  and the backends' own \<open>mount\<close> functions are a parameter of the dispatch.
\<close>

section \<open>Mounted\<close>

record ('h, 'w) mounted =
  md_unmount :: "'h \<Rightarrow> 'w \<Rightarrow> unit fs_result \<times> 'w"
  md_backend :: "'h \<Rightarrow> backend"
  md_uses_local_socket :: "'h \<Rightarrow> bool"

section \<open>Mount\<close>

record 'h mount =
  mt_inner :: "'h option"
  mt_mountpoint :: string
  mt_backend :: backend
  mt_local_socket :: bool

definition mount_new :: "('h, 'w) mounted \<Rightarrow> 'h \<Rightarrow> string \<Rightarrow> 'h mount" where
  "mount_new md inner mountpoint =
     \<lparr>mt_inner = Some inner, mt_mountpoint = mountpoint, mt_backend = md_backend md inner,
      mt_local_socket = md_uses_local_socket md inner\<rparr>"

definition mount_mountpoint :: "'h mount \<Rightarrow> string" where
  "mount_mountpoint m = mt_mountpoint m"

definition mount_backend :: "'h mount \<Rightarrow> backend" where
  "mount_backend m = mt_backend m"

definition mount_uses_local_socket :: "'h mount \<Rightarrow> bool" where
  "mount_uses_local_socket m = mt_local_socket m"

text \<open>\<open>Drop for Mount\<close>: a failed unmount is logged.\<close>

definition mount_drop :: "('h, 'w) mounted \<Rightarrow> 'h mount \<Rightarrow> 'w \<Rightarrow> 'h mount \<times> 'w" where
  "mount_drop md m w =
     (case mt_inner m of
        None \<Rightarrow> (m, w)
      | Some h \<Rightarrow>
          (let m = m\<lparr>mt_inner := None\<rparr>
           in case md_unmount md h w of (_, w) \<Rightarrow> (m, w)))"

text \<open>\<open>Mount::unmount(self)\<close>: the value is dropped when the method returns.\<close>

definition mount_unmount :: "('h, 'w) mounted \<Rightarrow> 'h mount \<Rightarrow> 'w \<Rightarrow> unit fs_result \<times> 'w" where
  "mount_unmount md m w =
     (let inner = mt_inner m;
          m = m\<lparr>mt_inner := None\<rparr>
      in case (case inner of
                 Some h \<Rightarrow> md_unmount md h w
               | None \<Rightarrow> (Inr (), w)) of
           (r, w) \<Rightarrow> (case mount_drop md m w of (_, w) \<Rightarrow> (r, w)))"

section \<open>Choosing a backend\<close>

record build =
  cfg_fuse :: bool
  cfg_nfs :: bool
  cfg_cfapi :: bool

text \<open>\<open>probe::any_backend_available\<close> of \<open>src/lib.rs\<close>.\<close>

definition any_backend_available :: "build \<Rightarrow> bool" where
  "any_backend_available cfg \<longleftrightarrow> cfg_fuse cfg \<or> cfg_nfs cfg \<or> cfg_cfapi cfg"

definition unavailable :: "backend \<Rightarrow> fs_error" where
  "unavailable b =
     (case b of
        Fuse \<Rightarrow> Unsupported ''the `fuse` backend requires Linux and the `fuse` feature''
      | Nfs \<Rightarrow> Unsupported ''the `nfs` backend requires macOS and the `nfs` feature''
      | CfApi \<Rightarrow> Unsupported ''the `cfapi` backend requires Windows and the `cfapi` feature''
      | Auto \<Rightarrow> Unsupported ''no mount backend available for this platform'')"

type_synonym ('h, 'w) mounter = "backend \<Rightarrow> mount_builder \<Rightarrow> 'w \<Rightarrow> 'h fs_result \<times> 'w"

definition auto_mount ::
  "build \<Rightarrow> ('h, 'w) mounter \<Rightarrow> mount_builder \<Rightarrow> 'w \<Rightarrow> 'h fs_result \<times> 'w" where
  "auto_mount cfg mnt b w =
     (if cfg_fuse cfg then mnt Fuse b w
      else if cfg_nfs cfg then mnt Nfs b w
      else if cfg_cfapi cfg then mnt CfApi b w
      else (Inl (Unsupported (''no mount backend compiled in for this platform; '' @
              ''enable the `fuse` feature on Linux, `nfs` on macOS, or `cfapi` on Windows'')), w))"

definition backend_mount ::
  "build \<Rightarrow> ('h, 'w) mounted \<Rightarrow> ('h, 'w) mounter \<Rightarrow> mount_builder \<Rightarrow> 'w \<Rightarrow> 'h mount fs_result \<times> 'w" where
  "backend_mount cfg md mnt b w =
     (let mountpoint = mb_mountpoint b
      in case (case mb_backend b of
                 Auto \<Rightarrow> auto_mount cfg mnt b w
               | Fuse \<Rightarrow> if cfg_fuse cfg then mnt Fuse b w else (Inl (unavailable Fuse), w)
               | Nfs \<Rightarrow> if cfg_nfs cfg then mnt Nfs b w else (Inl (unavailable Nfs), w)
               | CfApi \<Rightarrow> if cfg_cfapi cfg then mnt CfApi b w else (Inl (unavailable CfApi), w)) of
           (Inl e, w) \<Rightarrow> (Inl e, w)
         | (Inr inner, w) \<Rightarrow> (Inr (mount_new md inner mountpoint), w))"

definition builder_mount ::
  "build \<Rightarrow> ('h, 'w) mounted \<Rightarrow> ('h, 'w) mounter \<Rightarrow> mount_builder \<Rightarrow> 'w \<Rightarrow> 'h mount fs_result \<times> 'w" where
  "builder_mount cfg md mnt b w = backend_mount cfg md mnt b w"

text \<open>The backends a build has, and what becomes of the result of a backend's \<open>mount\<close>.\<close>

definition compiled_in :: "build \<Rightarrow> backend \<Rightarrow> bool" where
  "compiled_in cfg k =
     (case k of Fuse \<Rightarrow> cfg_fuse cfg | Nfs \<Rightarrow> cfg_nfs cfg | CfApi \<Rightarrow> cfg_cfapi cfg | Auto \<Rightarrow> False)"

definition mount_with :: "('h, 'w) mounted \<Rightarrow> mount_builder \<Rightarrow> 'h fs_result \<times> 'w \<Rightarrow> 'h mount fs_result \<times> 'w" where
  "mount_with md b x = map_prod (map_sum id (\<lambda>h. mount_new md h (mb_mountpoint b))) id x"

lemma mount_new_reports:
  "mt_inner (mount_new md h p) = Some h" "mount_mountpoint (mount_new md h p) = p"
  "mount_backend (mount_new md h p) = md_backend md h"
  "mount_uses_local_socket (mount_new md h p) = md_uses_local_socket md h"
  by (simp_all add: mount_new_def mount_mountpoint_def mount_backend_def mount_uses_local_socket_def)

lemma mount_with_cases:
  "case x of
     (Inl e, w') \<Rightarrow> mount_with md b x = (Inl e, w')
   | (Inr h, w') \<Rightarrow> \<exists>m. mount_with md b x = (Inr m, w') \<and> mt_inner m = Some h \<and>
       mount_mountpoint m = mb_mountpoint b \<and> mount_backend m = md_backend md h \<and>
       mount_uses_local_socket m = md_uses_local_socket md h"
  by (simp add: mount_with_def mount_new_reports split: prod.split sum.split)

lemma any_backend_compiled_in: "any_backend_available cfg = (\<exists>k. compiled_in cfg k)"
proof
  assume "any_backend_available cfg"
  then have "compiled_in cfg Fuse \<or> compiled_in cfg Nfs \<or> compiled_in cfg CfApi"
    by (simp add: any_backend_available_def compiled_in_def)
  then show "\<exists>k. compiled_in cfg k" by blast
next
  assume "\<exists>k. compiled_in cfg k"
  then obtain k where "compiled_in cfg k" ..
  then show "any_backend_available cfg"
    by (cases k) (simp_all add: any_backend_available_def compiled_in_def)
qed

lemma backend_mount_with:
  "backend_mount cfg md mnt b w = mount_with md b
     (case mb_backend b of Auto \<Rightarrow> auto_mount cfg mnt b w
      | k \<Rightarrow> if compiled_in cfg k then mnt k b w else (Inl (unavailable k), w))"
  unfolding backend_mount_def mount_with_def compiled_in_def Let_def
  by (auto split: backend.splits prod.splits sum.splits)

lemma backend_mount_calls:
  assumes "\<exists>k. compiled_in cfg k \<and> mb_backend b \<in> {Auto, k}"
  shows "\<exists>k. compiled_in cfg k \<and> mb_backend b \<in> {Auto, k} \<and>
    backend_mount cfg md mnt b w = mount_with md b (mnt k b w)"
proof (cases "mb_backend b = Auto")
  case True
  from assms have "any_backend_available cfg" using any_backend_compiled_in by blast
  then consider "cfg_fuse cfg" | "\<not> cfg_fuse cfg" "cfg_nfs cfg"
    | "\<not> cfg_fuse cfg" "\<not> cfg_nfs cfg" "cfg_cfapi cfg"
    unfolding any_backend_available_def by blast
  then obtain k where "compiled_in cfg k" "auto_mount cfg mnt b w = mnt k b w"
  proof cases
    case 1
    then show thesis using that [of Fuse] by (simp add: compiled_in_def auto_mount_def)
  next
    case 2
    then show thesis using that [of Nfs] by (simp add: compiled_in_def auto_mount_def)
  next
    case 3
    then show thesis using that [of CfApi] by (simp add: compiled_in_def auto_mount_def)
  qed
  with True show ?thesis by (auto simp: backend_mount_with)
next
  case False
  with assms have "compiled_in cfg (mb_backend b)" by auto
  with False show ?thesis by (cases "mb_backend b") (auto simp: backend_mount_with)
qed

lemma backend_mount_refuses:
  assumes "\<nexists>k. compiled_in cfg k \<and> mb_backend b \<in> {Auto, k}"
  shows "\<exists>msg. backend_mount cfg md mnt b w = (Inl (Unsupported msg), w)"
proof (cases "mb_backend b = Auto")
  case True
  with assms have "\<not> any_backend_available cfg" unfolding any_backend_compiled_in by auto
  with True show ?thesis
    by (simp add: backend_mount_with mount_with_def auto_mount_def any_backend_available_def)
next
  case False
  with assms have "\<not> compiled_in cfg (mb_backend b)" by auto
  with False show ?thesis
    by (cases "mb_backend b") (auto simp: backend_mount_with mount_with_def unavailable_def)
qed

section \<open>Counting teardowns\<close>

text \<open>A handle that does what another does and records every handle it was asked to tear down.\<close>

definition counted :: "('h, 'w) mounted \<Rightarrow> ('h, 'w \<times> 'h list) mounted" where
  "counted md =
     \<lparr>md_unmount = (\<lambda>h (w, log). case md_unmount md h w of (r, w) \<Rightarrow> (r, w, log @ [h])),
      md_backend = md_backend md, md_uses_local_socket = md_uses_local_socket md\<rparr>"

section \<open>What a system keeps for a process\<close>

text \<open>
  A ledger of things a system keeps for this process: \<open>lg_held\<close> are those it was asked for and
  not asked to take back since, \<open>lg_refused\<close> those it was asked to take back and did
  not. A thing that is taken again while an older one of the same name was refused is held as
  well, and giving back gives back the newer one, as unmounting does on a path mounted twice.
\<close>

record 'r ledger =
  lg_held :: "'r set"
  lg_refused :: "'r set"

definition ledger_take :: "'r \<Rightarrow> ('r, 'z) ledger_scheme \<Rightarrow> ('r, 'z) ledger_scheme" where
  "ledger_take x l = l\<lparr>lg_held := insert x (lg_held l)\<rparr>"

definition ledger_give :: "bool \<Rightarrow> 'r \<Rightarrow> ('r, 'z) ledger_scheme \<Rightarrow> ('r, 'z) ledger_scheme" where
  "ledger_give ok x l =
     (if x \<in> lg_held l
      then l\<lparr>lg_held := lg_held l - {x}, lg_refused := (if ok then lg_refused l else insert x (lg_refused l))\<rparr>
      else if ok then l\<lparr>lg_refused := lg_refused l - {x}\<rparr> else l)"

lemma ledger_held [simp]:
  "lg_held (ledger_take x l) = insert x (lg_held l)"
  "lg_held (ledger_give ok x l) = lg_held l - {x}"
  by (auto simp: ledger_take_def ledger_give_def)

lemma ledger_refused_take [simp]: "lg_refused (ledger_take x l) = lg_refused l"
  by (simp add: ledger_take_def)

lemma ledger_refused_give: "y \<in> lg_refused (ledger_give ok x l) \<Longrightarrow> y \<in> lg_refused l \<or> \<not> ok \<and> y = x"
  by (auto simp: ledger_give_def split: if_splits)

text \<open>
  Calls recorded with whether they succeeded are entered one by one; \<open>undo x\<close> is the call that
  gives \<open>x\<close> back, if it can be refused. Whatever is in the end refused has such a call in the
  trace, and it failed.
\<close>

locale ledger_account =
  fixes enter :: "'c \<times> bool \<Rightarrow> ('r, 'z) ledger_scheme \<Rightarrow> ('r, 'z) ledger_scheme"
    and empty :: "('r, 'z) ledger_scheme"
    and undo :: "'r \<Rightarrow> 'c option"
  assumes empty_refused: "lg_refused empty = {}"
    and enter_refused: "x \<in> lg_refused (enter (c, ok) l) \<Longrightarrow> x \<in> lg_refused l \<or> \<not> ok \<and> undo x = Some c"
begin

lemma refused_recorded: "x \<in> lg_refused (fold enter tr empty) \<Longrightarrow> \<exists>c. undo x = Some c \<and> (c, False) \<in> set tr"
proof (induction tr rule: rev_induct)
  case Nil
  then show ?case by (simp add: empty_refused)
next
  case (snoc e tr)
  obtain c ok where e: "e = (c, ok)" by fastforce
  from snoc.prems e have "x \<in> lg_refused (enter (c, ok) (fold enter tr empty))" by simp
  from enter_refused [OF this] snoc.IH e show ?case by auto
qed

end

section \<open>The contract of a backend\<close>

text \<open>
  What the trait's documentation asks of a backend's teardown: it must leave nothing behind
  that would outlive the process, no serving thread and no registration. \<open>holds h w\<close> says that
  what the world \<open>w\<close> keeps for this process is exactly what \<open>h\<close> stands for, \<open>released w\<close>
  that it keeps nothing but what it refused to take back; a backend's \<open>mount\<close> ends in one of
  the two.
\<close>

locale mounted_contract =
  fixes md :: "('h, 'w) mounted"
    and holds :: "'h \<Rightarrow> 'w \<Rightarrow> bool"
    and released :: "'w \<Rightarrow> bool"
  assumes unmount_releases: "holds h w \<Longrightarrow> md_unmount md h w = (r, w') \<Longrightarrow> released w'"
begin

lemma released_by_unmount:
  assumes "holds h w"
  shows "released (snd (mount_unmount md (mount_new md h p) w))"
proof -
  obtain r w' where u: "md_unmount md h w = (r, w')" by fastforce
  from unmount_releases [OF assms u] u show ?thesis
    by (simp add: mount_unmount_def mount_drop_def mount_new_def Let_def)
qed

lemma released_by_drop:
  assumes "holds h w"
  shows "released (snd (mount_drop md (mount_new md h p) w))"
proof -
  obtain r w' where u: "md_unmount md h w = (r, w')" by fastforce
  from unmount_releases [OF assms u] u show ?thesis by (simp add: mount_drop_def mount_new_def Let_def)
qed

end

locale backend_contract = mounted_contract md holds released
  for md :: "('h, 'w) mounted" and holds released +
  fixes mk :: "mount_builder \<Rightarrow> 'w \<Rightarrow> 'h fs_result \<times> 'w"
  assumes mount_accounts: "released w \<Longrightarrow> mk b w = (r, w') \<Longrightarrow>
      (case r of Inr h \<Rightarrow> holds h w' | Inl _ \<Rightarrow> released w')"
begin

lemma lifecycle_releases:
  assumes "released w"
  shows "case mk b w of
      (Inl _, w') \<Rightarrow> released w'
    | (Inr h, w') \<Rightarrow> holds h w' \<and>
        released (snd (mount_unmount md (mount_new md h p) w')) \<and>
        released (snd (mount_drop md (mount_new md h p) w'))"
proof -
  obtain r w' where m: "mk b w = (r, w')" by fastforce
  from mount_accounts [OF assms m] show ?thesis
    using released_by_unmount released_by_drop by (cases r) (simp_all add: m)
qed

end

section \<open>Properties\<close>

text \<open>
  C37: A mount is torn down exactly once. A mount made for handle \<open>h\<close> calls the backend's
  \<open>unmount\<close> on \<open>h\<close> once, whether it is unmounted explicitly (the implicit drop that follows
  included) or dropped; an explicit unmount returns the backend's result, and dropping what
  is left afterwards does nothing.
\<close>

theorem mount_torn_down_once:
  "mount_unmount (counted md) (mount_new (counted md) h p) (w, log) =
     (fst (md_unmount md h w), snd (md_unmount md h w), log @ [h]) \<and>
   snd (mount_drop (counted md) (mount_new (counted md) h p) (w, log)) =
     (snd (md_unmount md h w), log @ [h]) \<and>
   mount_drop (counted md) (fst (mount_drop (counted md) (mount_new (counted md) h p) (w, log))) x =
     (fst (mount_drop (counted md) (mount_new (counted md) h p) (w, log)), x)"
  by (simp add: mount_unmount_def mount_drop_def mount_new_def counted_def Let_def split: prod.split)

text \<open>
  C38: A backend is never replaced by another. A request for a backend goes to that backend's
  \<open>mount\<close> when it is in the build, and automatic choice to one that is; a failure is returned as it
  is, and a mount that is made holds the handle and reports the mountpoint that was asked
  for and the backend and transport of the handle. In every other case, and in particular whatever
  is asked for in a build for which \<open>any_backend_available\<close> says no, the result is an
  \<open>Unsupported\<close> error and nothing outside is touched.
\<close>

theorem backend_never_substituted:
  "(if \<exists>k. compiled_in cfg k \<and> mb_backend b \<in> {Auto, k}
    then \<exists>k. compiled_in cfg k \<and> mb_backend b \<in> {Auto, k} \<and>
      (case mnt k b w of
         (Inl e, w') \<Rightarrow> backend_mount cfg md mnt b w = (Inl e, w')
       | (Inr h, w') \<Rightarrow> \<exists>m. backend_mount cfg md mnt b w = (Inr m, w') \<and> mt_inner m = Some h \<and>
           mount_mountpoint m = mb_mountpoint b \<and> mount_backend m = md_backend md h \<and>
           mount_uses_local_socket m = md_uses_local_socket md h)
    else \<exists>msg. backend_mount cfg md mnt b w = (Inl (Unsupported msg), w)) \<and>
   any_backend_available cfg = (\<exists>k. compiled_in cfg k)"
proof (intro conjI)
  show "any_backend_available cfg = (\<exists>k. compiled_in cfg k)" by (rule any_backend_compiled_in)
next
  show "if \<exists>k. compiled_in cfg k \<and> mb_backend b \<in> {Auto, k}
    then \<exists>k. compiled_in cfg k \<and> mb_backend b \<in> {Auto, k} \<and>
      (case mnt k b w of
         (Inl e, w') \<Rightarrow> backend_mount cfg md mnt b w = (Inl e, w')
       | (Inr h, w') \<Rightarrow> \<exists>m. backend_mount cfg md mnt b w = (Inr m, w') \<and> mt_inner m = Some h \<and>
           mount_mountpoint m = mb_mountpoint b \<and> mount_backend m = md_backend md h \<and>
           mount_uses_local_socket m = md_uses_local_socket md h)
    else \<exists>msg. backend_mount cfg md mnt b w = (Inl (Unsupported msg), w)"
  proof (cases "\<exists>k. compiled_in cfg k \<and> mb_backend b \<in> {Auto, k}")
    case True
    from backend_mount_calls [OF True, of md mnt w] obtain k where k: "compiled_in cfg k"
      "mb_backend b \<in> {Auto, k}" "backend_mount cfg md mnt b w = mount_with md b (mnt k b w)" by blast
    then show ?thesis unfolding if_P [OF True] using mount_with_cases [of md b "mnt k b w"]
      by (intro exI [of _ k] conjI) (simp_all only: k(3))
  next
    case False
    show ?thesis unfolding if_not_P [OF False] by (rule backend_mount_refuses [OF False])
  qed
qed

end
