(* ===== verification/Fuse_Backend.thy ===== *)
theory Fuse_Backend
  imports Readdir Mount_Lifecycle
begin

text \<open>
  The FUSE backend, \<open>src/backend/fuse.rs\<close>: the session configuration and every callback of
  the adapter. What belongs to the \<open>fuser\<close> crate is a parameter: its \<open>Errno\<close> with
  \<open>Errno::from_i32\<close>, whether \<open>ReplyDirectory::add\<close> has room for an entry, and the call that starts a
  session. A callback's reply is the value
  it hands to \<open>fuser\<close>'s reply object.
\<close>

section \<open>Replies\<close>

datatype fuser_file_type = RegularFile | FuserDirectory

record fuser_attr =
  fa_ino :: u64
  fa_size :: u64
  fa_blocks :: u64
  fa_atime :: system_time
  fa_mtime :: system_time
  fa_ctime :: system_time
  fa_crtime :: system_time
  fa_kind :: fuser_file_type
  fa_perm :: u16
  fa_nlink :: u32
  fa_uid :: u32
  fa_gid :: u32
  fa_rdev :: u32
  fa_blksize :: u32
  fa_flags :: u32

text \<open>
  \<open>fuser\<close>'s type of error codes \<open>'e\<close>, how it is made from a number and its constant \<open>ERANGE\<close>, beside
  the \<open>libc\<close> constants the crate is built with.
\<close>

record 'e fuser =
  fu_libc :: libc_codes
  fu_from_i32 :: "i32 \<Rightarrow> 'e"
  fu_ERANGE :: 'e

datatype 'e fuse_reply =
    ReplyEntry duration fuser_attr u64
  | ReplyAttr duration fuser_attr
  | ReplyOpened u64 u32
  | ReplyData bytes
  | ReplySize u32
  | ReplyStatfs u64 u64 u64 u64 u64 u32 u32 u32
  | ReplyOk
  | ReplyError 'e

definition TTL :: duration where
  "TTL = \<lparr>dur_secs = 60, dur_nanos = 0\<rparr>"

definition GENERATION :: u64 where "GENERATION = 0"
definition DEFAULT_WORKER_THREADS :: usize where "DEFAULT_WORKER_THREADS = 4"
definition MAX_READ :: u32 where "MAX_READ = 16 * 1024 * 1024"

definition FUSE_CAPS :: caps where
  "FUSE_CAPS = \<lparr>caps_name = ''fuse'', caps_allow_other = True, caps_auto_unmount = True,
     caps_threads = True, caps_empty_mountpoint = False, caps_nfs_local_socket = False\<rparr>"

section \<open>Conversions\<close>

definition read_buffer_len :: "u32 \<Rightarrow> usize" where
  "read_buffer_len sz = unat (min sz MAX_READ)"

definition fuse_errno :: "'e fuser \<Rightarrow> fs_error \<Rightarrow> 'e" where
  "fuse_errno fu e = fu_from_i32 fu (to_errno (fu_libc fu) Linux e)"

definition to_fuser_kind :: "file_kind \<Rightarrow> fuser_file_type" where
  "to_fuser_kind k = (case k of File \<Rightarrow> RegularFile | Directory \<Rightarrow> FuserDirectory)"

text \<open>\<open>u64::div_ceil\<close>: the quotient, one more when there is a remainder.\<close>

definition u64_div_ceil :: "u64 \<Rightarrow> u64 \<Rightarrow> u64" where
  "u64_div_ceil a b = (if a mod b = 0 then a div b else a div b + 1)"

definition to_fuser_attr :: "file_attr \<Rightarrow> fuser_attr" where
  "to_fuser_attr a =
     \<lparr>fa_ino = ino_num (attr_ino a), fa_size = attr_size a, fa_blocks = u64_div_ceil (attr_size a) 512,
      fa_atime = attr_atime a, fa_mtime = attr_mtime a, fa_ctime = attr_ctime a, fa_crtime = UNIX_EPOCH,
      fa_kind = to_fuser_kind (attr_kind a), fa_perm = attr_perm a, fa_nlink = attr_nlink a,
      fa_uid = attr_uid a, fa_gid = attr_gid a, fa_rdev = 0, fa_blksize = 512, fa_flags = 0\<rparr>"

datatype xattr_reply_t = XSize u32 | XData | XTooLarge

definition xattr_reply :: "usize \<Rightarrow> u32 \<Rightarrow> xattr_reply_t" where
  "xattr_reply len sz =
     (if sz = 0 then XSize (of_nat len) else if len > unat sz then XTooLarge else XData)"

definition reply_xattr :: "'e fuser \<Rightarrow> bytes \<Rightarrow> u32 \<Rightarrow> 'e fuse_reply" where
  "reply_xattr fu data sz =
     (case xattr_reply (length data) sz of
        XSize len \<Rightarrow> ReplySize len
      | XTooLarge \<Rightarrow> ReplyError (fu_ERANGE fu)
      | XData \<Rightarrow> ReplyData data)"

section \<open>Callbacks\<close>

definition fuse_lookup ::
  "'e fuser \<Rightarrow> 's read_only_fs \<Rightarrow> u64 \<Rightarrow> os_string \<Rightarrow> 's \<Rightarrow> 'e fuse_reply \<times> 's" where
  "fuse_lookup fu fs parent name s =
     (case fs_lookup fs (Ino parent) name s of
        (Inr attr, s) \<Rightarrow> (ReplyEntry TTL (to_fuser_attr attr) GENERATION, s)
      | (Inl e, s) \<Rightarrow> (ReplyError (fuse_errno fu e), s))"

definition fuse_getattr :: "'e fuser \<Rightarrow> 's read_only_fs \<Rightarrow> u64 \<Rightarrow> 's \<Rightarrow> 'e fuse_reply \<times> 's" where
  "fuse_getattr fu fs ino s =
     (case fs_getattr fs (Ino ino) s of
        (Inr attr, s) \<Rightarrow> (ReplyAttr TTL (to_fuser_attr attr), s)
      | (Inl e, s) \<Rightarrow> (ReplyError (fuse_errno fu e), s))"

definition fuse_open :: "'e fuser \<Rightarrow> 's read_only_fs \<Rightarrow> u64 \<Rightarrow> 's \<Rightarrow> 'e fuse_reply \<times> 's" where
  "fuse_open fu fs ino s =
     (case fs_open fs (Ino ino) s of
        (Inr fh, s) \<Rightarrow> (ReplyOpened (fh_num fh) 0, s)
      | (Inl e, s) \<Rightarrow> (ReplyError (fuse_errno fu e), s))"

definition fuse_read ::
  "'e fuser \<Rightarrow> 's read_only_fs \<Rightarrow> u64 \<Rightarrow> u64 \<Rightarrow> u32 \<Rightarrow> 's \<Rightarrow> 'e fuse_reply \<times> 's" where
  "fuse_read fu fs fh offset sz s =
     (let buf = replicate (read_buffer_len sz) 0
      in case read_at_buf fs (FileHandle fh) offset buf s of
           ((Inr n, buf), s) \<Rightarrow> (ReplyData (take (min n (length buf)) buf), s)
         | ((Inl e, buf), s) \<Rightarrow> (ReplyError (fuse_errno fu e), s))"

definition fuse_release :: "'s read_only_fs \<Rightarrow> u64 \<Rightarrow> 's \<Rightarrow> 'e fuse_reply \<times> 's" where
  "fuse_release fs fh s = (case fs_release fs (FileHandle fh) s of (_, s) \<Rightarrow> (ReplyOk, s))"

definition fuse_forget :: "'s read_only_fs \<Rightarrow> u64 \<Rightarrow> u64 \<Rightarrow> 's \<Rightarrow> 's" where
  "fuse_forget fs ino nlookup s = fs_forget fs (Ino ino) nlookup s"

text \<open>
  \<open>add\<close> is \<open>ReplyDirectory::add\<close> over the reply's buffer \<open>'k\<close>: \<open>True\<close> when the entry did not
  fit and was not added.
\<close>

type_synonym 'k dir_add = "u64 \<Rightarrow> u64 \<Rightarrow> fuser_file_type \<Rightarrow> os_string \<Rightarrow> 'k \<Rightarrow> bool \<times> 'k"

definition fuse_sink :: "'k dir_add \<Rightarrow> ('k, 's) sink" where
  "fuse_sink add e k s =
     (case add (ino_num (en_ino e)) (en_cookie e) (to_fuser_kind (en_kind e)) (en_name e) k of
        (True, k) \<Rightarrow> (Full, k, s)
      | (False, k) \<Rightarrow> (Accepted, k, s))"

definition fuse_readdir ::
  "'e fuser \<Rightarrow> 'k dir_add \<Rightarrow> 's read_only_fs \<Rightarrow> u64 \<Rightarrow> u64 \<Rightarrow> 'k \<Rightarrow> 's \<Rightarrow> ('e fuse_reply \<times> 'k \<times> 's) option" where
  "fuse_readdir fu add fs ino offset k s =
     (case emit fs (Ino ino) offset Synthesize (fuse_sink add) k s of
        None \<Rightarrow> None
      | Some (Inr _, k, s) \<Rightarrow> Some (ReplyOk, k, s)
      | Some (Inl e, k, s) \<Rightarrow> Some (ReplyError (fuse_errno fu e), k, s))"

definition fuse_statfs :: "'e fuser \<Rightarrow> 's read_only_fs \<Rightarrow> 's \<Rightarrow> 'e fuse_reply \<times> 's" where
  "fuse_statfs fu fs s =
     (case fs_statfs fs s of
        (Inr st, s) \<Rightarrow>
          (ReplyStatfs (sf_blocks st) (sf_bfree st) (sf_bavail st) (sf_files st) (sf_ffree st)
             (sf_bsize st) (sf_namelen st) (sf_frsize st), s)
      | (Inl e, s) \<Rightarrow> (ReplyError (fuse_errno fu e), s))"

definition fuse_listxattr ::
  "'e fuser \<Rightarrow> 's read_only_fs \<Rightarrow> u64 \<Rightarrow> u32 \<Rightarrow> 's \<Rightarrow> 'e fuse_reply \<times> 's" where
  "fuse_listxattr fu fs ino sz s =
     (case fs_listxattr fs (Ino ino) s of
        (Inr names, s) \<Rightarrow>
          (let buf = fold (\<lambda>name buf. (buf @ name) @ [0]) names []
           in (reply_xattr fu buf sz, s))
      | (Inl e, s) \<Rightarrow> (ReplyError (fuse_errno fu e), s))"

definition fuse_getxattr ::
  "'e fuser \<Rightarrow> 's read_only_fs \<Rightarrow> u64 \<Rightarrow> os_string \<Rightarrow> u32 \<Rightarrow> 's \<Rightarrow> 'e fuse_reply \<times> 's" where
  "fuse_getxattr fu fs ino name sz s =
     (case fs_getxattr fs (Ino ino) name s of
        (Inr value, s) \<Rightarrow> (reply_xattr fu value sz, s)
      | (Inl e, s) \<Rightarrow> (ReplyError (fuse_errno fu e), s))"

section \<open>Mounting\<close>

datatype mount_option = OptRO | OptFSName rust_str | OptAutoUnmount

datatype session_acl = AclAll | AclOwner

record fuse_config =
  fc_mount_options :: "mount_option list"
  fc_acl :: session_acl
  fc_n_threads :: "usize option"
  fc_clone_fd :: bool

definition fuse_config_of :: "mount_builder \<Rightarrow> fuse_config" where
  "fuse_config_of b =
     (let opts = [OptRO, OptFSName (mb_fs_name b)];
          opts = (if mb_auto_unmount b then opts @ [OptAutoUnmount] else opts)
      in \<lparr>fc_mount_options = opts,
          fc_acl = (if mb_allow_other b then AclAll else AclOwner),
          fc_n_threads = Some (case mb_threads b of None \<Rightarrow> DEFAULT_WORKER_THREADS | Some n \<Rightarrow> n),
          fc_clone_fd = True\<rparr>)"

text \<open>
  The live session: \<open>umount_and_join\<close> of the background session both unmounts and joins the
  serving thread.
\<close>

record 'h fuse_handle =
  fuse_session :: 'h

definition fuse_unmount ::
  "('h \<Rightarrow> 'w \<Rightarrow> (io_error + unit) \<times> 'w) \<Rightarrow> 'h fuse_handle \<Rightarrow> 'w \<Rightarrow> unit fs_result \<times> 'w" where
  "fuse_unmount umount_and_join h w =
     (case umount_and_join (fuse_session h) w of
        (Inl e, w) \<Rightarrow> (Inl (Io e), w)
      | (Inr _, w) \<Rightarrow> (Inr (), w))"

definition fuse_mounted ::
  "('h \<Rightarrow> 'w \<Rightarrow> (io_error + unit) \<times> 'w) \<Rightarrow> ('h fuse_handle, 'w) mounted" where
  "fuse_mounted umount_and_join =
     \<lparr>md_unmount = fuse_unmount umount_and_join, md_backend = (\<lambda>_. Fuse), md_uses_local_socket = (\<lambda>_. False)\<rparr>"

text \<open>\<open>spawn_mount\<close> starts the session at the mountpoint with a configuration.\<close>

definition fuse_mount ::
  "host \<Rightarrow> (string \<Rightarrow> fuse_config \<Rightarrow> 'w \<Rightarrow> (io_error + 'h) \<times> 'w) \<Rightarrow> mount_builder \<Rightarrow> 'w \<Rightarrow> 'h fuse_handle fs_result \<times> 'w" where
  "fuse_mount hst spawn_mount b w =
     (case preflight_check hst b FUSE_CAPS of
        Inl e \<Rightarrow> (Inl e, w)
      | Inr _ \<Rightarrow>
          if mb_auto_unmount b \<and> \<not> mb_allow_other b then
            (Inl (fs_context (''auto_unmount requires allow_other: fusermount3 refuses to arm '' @
               ''auto-unmount on an owner-private mount. Either call .allow_other(true) (needs '' @
               ''user_allow_other in /etc/fuse.conf) or leave auto_unmount off and clean up with '' @
               ''`fusermount3 -u`'') InvalidArgument), w)
          else
            (case spawn_mount (mb_mountpoint b) (fuse_config_of b) w of
               (Inl e, w) \<Rightarrow> (Inl (Io e), w)
             | (Inr session, w) \<Rightarrow> (Inr \<lparr>fuse_session = session\<rparr>, w)))"

section \<open>Lemmas\<close>

lemma read_buffer_len_eq: "read_buffer_len sz = min (unat sz) 16777216"
  by (simp add: read_buffer_len_def MAX_READ_def min_def word_le_nat_alt)

text \<open>For every implementation a data reply is within the request and within 16 MiB.\<close>

lemma fuse_read_length:
  assumes "fuse_read fu fs fh off sz s = (ReplyData d, s')"
  shows "length d \<le> min (unat sz) 16777216"
proof -
  obtain r buf s1 where ra: "read_at_buf fs (FileHandle fh) off (replicate (read_buffer_len sz) 0) s = ((r, buf), s1)"
    by (metis prod.exhaust)
  from read_at_buf_length [OF this] assms ra show ?thesis
    by (cases r) (auto simp: fuse_read_def read_buffer_len_eq)
qed

text \<open>The buffer of \<open>listxattr\<close>: every name followed by one NUL.\<close>

lemma fold_nul: "fold (\<lambda>name buf. (buf @ name) @ [0]) names acc = acc @ concat (map (\<lambda>n. n @ [0]) names)"
  by (induction names arbitrary: acc) simp_all

lemma fuse_mount_owner_private:
  "fuse_mount hst spawn b w = (Inr h, w') \<Longrightarrow>
     OptRO \<in> set (fc_mount_options (fuse_config_of b)) \<and>
     (OptAutoUnmount \<in> set (fc_mount_options (fuse_config_of b)) \<longrightarrow> fc_acl (fuse_config_of b) = AclAll)"
  by (auto simp: fuse_mount_def fuse_config_of_def Let_def split: sum.splits prod.splits if_splits)

text \<open>
  On a filesystem that keeps its contract, a read through a live handle at any 64-bit offset
  returns exactly the file's bytes from there, at most the requested size and 16 MiB of them.
\<close>

lemma fuse_read_served:
  assumes "ro_fs fs I view live" "I s" "live s (FileHandle fh) = Some i" "view_data (view s) i = Some d"
  shows "\<exists>s'. fuse_read fu fs fh off sz s =
      (ReplyData (take (min (unat sz) 16777216) (drop (unat off) d)), s') \<and>
    I s' \<and> view s' = view s \<and> live s' = live s"
proof -
  obtain r buf s1 where ra: "read_at_buf fs (FileHandle fh) off (replicate (read_buffer_len sz) 0) s = ((r, buf), s1)"
    by (metis prod.exhaust)
  from ro_fs.read_at_eq [OF assms(1,2,3,4) ra] have c: "I s1" "view s1 = view s" "live s1 = live s"
    "r = Inr (min (read_buffer_len sz) (length d - unat off))"
    "take (min (read_buffer_len sz) (length d - unat off)) buf = take (read_buffer_len sz) (drop (unat off) d)"
    by auto
  have "length buf = read_buffer_len sz" using read_at_buf_length [OF ra] by simp
  then have "fuse_read fu fs fh off sz s = (ReplyData (take (read_buffer_len sz) (drop (unat off) d)), s1)"
    using ra c(4,5) by (simp add: fuse_read_def Let_def min_absorb1)
  with c show ?thesis by (simp add: read_buffer_len_eq)
qed

end
