(* ===== verification/Fuse_Session.thy ===== *)
theory Fuse_Session
  imports Fuse_Backend
begin

text \<open>
  A whole FUSE session. The kernel's requests are a datatype, \<open>fuse_dispatch\<close> is the
  \<open>fuser::Filesystem\<close> implementation of \<open>src/backend/fuse.rs\<close> as one operation, and a session is
  the list of requests it serves. What the kernel may expect is \<open>fuse_spec\<close>, stated over what the
  filesystem shows and a table of open handles alone: no state of the implementation occurs in
  it. The refinement theorem says that a session over any filesystem that keeps its contract is
  one of the specification. Every callback but \<open>readdir\<close> makes a single call of the filesystem, and
  \<open>readdir\<close> none that concerns a handle, so the order in which worker threads make their calls is an
  order of requests.
\<close>

section \<open>Requests\<close>





section \<open>What the kernel may expect\<close>











section \<open>One request\<close>











section \<open>A session on the example filesystem\<close>





section \<open>Properties\<close>



end
