(* ===== verification/Cfapi_Backend.thy ===== *)
theory Cfapi_Backend
  imports Readdir Preflight
begin

text \<open>
  The callbacks of the Windows Cloud Files backend, \<open>src/backend/cfapi.rs\<close>. The platform
  calls \<open>fetch_data\<close> and \<open>fetch_placeholders\<close> and is answered through \<open>CfExecute\<close>; the
  source only logs its result, so a handler returns the list of operations it executed, in
  order, beside the state of the filesystem. The constant fields of an operation (sizes,
  null pointers, no flags) are left out. A \<open>FileIdentity\<close> pointer with its length is an
  optional byte list, with the platform's guarantee that it has the length it states; the
  read loop is \<open>partial_function (option)\<close>, with \<open>None\<close> for a loop that never ends, and
  is proved to end for every filesystem. Signed 64-bit arithmetic wraps, as in a release
  build.

  The lemmas show that every fetch that opens its file answers the whole range it was asked
  for, whatever the filesystem does, with the file's bytes when it keeps its contract, and that
  a directory's placeholders carry identities that lead back to their inodes.
\<close>

section \<open>Signed arithmetic and wide strings\<close>

definition i64_wrap :: "int \<Rightarrow> i64" where
  "i64_wrap x = (x + 2 ^ 63) mod 2 ^ 64 - 2 ^ 63"

text \<open>
  \<open>OsStr::encode_wide\<close>: a Windows \<open>OsStr\<close> holds generalised UTF-8, so every sequence is
  complete and gives one code unit, or a surrogate pair when it has four bytes.
\<close>

fun encode_wide :: "os_string \<Rightarrow> u16 list" where
  "encode_wide [] = []"
| "encode_wide (a # s) =
     (if a < 0x80 then ucast a # encode_wide s
      else case s of
        [] \<Rightarrow> []
      | b # s \<Rightarrow>
          if a < 0xE0 then (push_bit 6 (ucast (a AND 0x1F)) OR ucast (b AND 0x3F)) # encode_wide s
          else case s of
            [] \<Rightarrow> []
          | c # s \<Rightarrow>
              if a < 0xF0 then
                (push_bit 12 (ucast (a AND 0x0F)) OR push_bit 6 (ucast (b AND 0x3F)) OR ucast (c AND 0x3F))
                  # encode_wide s
              else case s of
                [] \<Rightarrow> []
              | d # s \<Rightarrow>
                  (let cp = (push_bit 18 (ucast (a AND 0x07)) OR push_bit 12 (ucast (b AND 0x3F)) OR
                             push_bit 6 (ucast (c AND 0x3F)) OR ucast (d AND 0x3F) :: u32) - 0x10000
                   in ucast (0xD800 OR drop_bit 10 cp) # ucast (0xDC00 OR (cp AND 0x3FF)) # encode_wide s))"

definition to_wide :: "os_string \<Rightarrow> u16 list" where
  "to_wide s = encode_wide s @ [0]"

section \<open>Operations\<close>

definition TRANSFER_CHUNK :: usize where "TRANSFER_CHUNK = 1024 * 1024"

record cf_callback_info =
  ci_connection_key :: i64
  ci_transfer_key :: i64
  ci_request_key :: i64
  ci_file_identity :: "bytes option"
  ci_file_identity_length :: u32

record cf_operation_info =
  op_connection_key :: i64
  op_transfer_key :: i64
  op_request_key :: i64

definition op_info_of :: "cf_callback_info \<Rightarrow> cf_operation_info" where
  "op_info_of info =
     \<lparr>op_connection_key = ci_connection_key info, op_transfer_key = ci_transfer_key info,
      op_request_key = ci_request_key info\<rparr>"

record file_basic_info =
  bi_creation_time :: i64
  bi_last_access_time :: i64
  bi_last_write_time :: i64
  bi_change_time :: i64
  bi_file_attributes :: u32

record cf_fs_metadata =
  md_basic_info :: file_basic_info
  md_file_size :: i64

record cf_placeholder_create_info =
  pc_relative_file_name :: "u16 list"
  pc_fs_metadata :: cf_fs_metadata
  pc_file_identity :: bytes
  pc_file_identity_length :: u32

record transfer_data_params =
  td_completion_status :: i32
  td_buffer :: bytes
  td_offset :: i64
  td_length :: i64

record transfer_placeholders_params =
  tp_completion_status :: i32
  tp_placeholder_total_count :: i64
  tp_placeholder_array :: "cf_placeholder_create_info list"
  tp_placeholder_count :: u32

datatype cf_execute =
    ExecTransferData cf_operation_info transfer_data_params
  | ExecTransferPlaceholders cf_operation_info transfer_placeholders_params

definition transfer_data :: "cf_callback_info \<Rightarrow> bytes \<Rightarrow> i64 \<Rightarrow> i64 \<Rightarrow> i32 \<Rightarrow> cf_execute" where
  "transfer_data info buffer offset len status =
     ExecTransferData (op_info_of info)
       \<lparr>td_completion_status = status, td_buffer = buffer, td_offset = offset, td_length = len\<rparr>"

definition transfer_placeholders ::
  "cf_callback_info \<Rightarrow> cf_placeholder_create_info list \<Rightarrow> i32 \<Rightarrow> cf_execute" where
  "transfer_placeholders info infos status =
     ExecTransferPlaceholders (op_info_of info)
       \<lparr>tp_completion_status = status, tp_placeholder_total_count = i64_wrap (int (length infos)),
        tp_placeholder_array = infos, tp_placeholder_count = of_nat (length infos)\<rparr>"

definition decode_ino :: "bytes option \<Rightarrow> u32 \<Rightarrow> ino option" where
  "decode_ino identity len =
     (case identity of
        None \<Rightarrow> None
      | Some bs \<Rightarrow>
          if unat len \<noteq> 8 then None
          else (case try_into_array 8 (take 8 bs) of
                  None \<Rightarrow> None
                | Some b \<Rightarrow> Some (Ino (u64_from_le_bytes b))))"

section \<open>Fetching data\<close>

text \<open>
  The loop of \<open>stream_chunks\<close>, with its variables \<open>buf\<close> and \<open>sent\<close>. The slice
  \<open>&mut buf[..want]\<close> is the front of the buffer; what is behind it stays.
\<close>

partial_function (option) stream_loop ::
  "windows_codes \<Rightarrow> 's read_only_fs \<Rightarrow> cf_callback_info \<Rightarrow> file_handle \<Rightarrow> i64 \<Rightarrow> i64 \<Rightarrow>
     bytes \<Rightarrow> i64 \<Rightarrow> cf_execute list \<Rightarrow> 's \<Rightarrow> (unit fs_result \<times> cf_execute list \<times> 's) option" where
  "stream_loop wc fs info fh offset len buf sent ops s =
     (if sent < len then
        (let want = unat (min (of_int (len - sent) :: u64) (of_nat (length buf)))
         in case read_at_buf fs fh (of_int (offset + sent)) (take want buf) s of
              ((r, front), s) \<Rightarrow>
                (let buf = front @ drop want buf
                 in case r of
                      Inr n \<Rightarrow>
                        if n = 0 then
                          (let e = Io (io_error_from_kind EkUnexpectedEof)
                           in Some (Inl e, ops @ [transfer_data info [] (i64_wrap (offset + sent))
                                (i64_wrap (len - sent)) (to_ntstatus wc e)], s))
                        else
                          (let n = min n want
                           in stream_loop wc fs info fh offset len buf (i64_wrap (sent + int n))
                                (ops @ [transfer_data info (take n buf) (i64_wrap (offset + sent)) (int n) 0]) s)
                    | Inl e \<Rightarrow>
                        Some (Inl e, ops @ [transfer_data info [] (i64_wrap (offset + sent))
                          (i64_wrap (len - sent)) (to_ntstatus wc e)], s)))
      else Some (Inr (), ops, s))"

definition stream_chunks ::
  "windows_codes \<Rightarrow> 's read_only_fs \<Rightarrow> cf_callback_info \<Rightarrow> file_handle \<Rightarrow> i64 \<Rightarrow> i64 \<Rightarrow> 's \<Rightarrow>
     (unit fs_result \<times> cf_execute list \<times> 's) option" where
  "stream_chunks wc fs info fh offset len s =
     (if len \<le> 0 then Some (Inr (), [transfer_data info [] offset 0 0], s)
      else let buf = replicate (min TRANSFER_CHUNK (nat len)) 0
           in stream_loop wc fs info fh offset len buf 0 [] s)"

text \<open>A failed \<open>release\<close> is logged.\<close>

definition stream_fetch ::
  "windows_codes \<Rightarrow> 's read_only_fs \<Rightarrow> cf_callback_info \<Rightarrow> ino \<Rightarrow> i64 \<Rightarrow> i64 \<Rightarrow> 's \<Rightarrow>
     (unit fs_result \<times> cf_execute list \<times> 's) option" where
  "stream_fetch wc fs info ino offset len s =
     (case fs_open fs ino s of
        (Inl e, s) \<Rightarrow> Some (Inl e, [], s)
      | (Inr fh, s) \<Rightarrow>
          (case stream_chunks wc fs info fh offset len s of
             None \<Rightarrow> None
           | Some (r, ops, s) \<Rightarrow>
               (case fs_release fs fh s of (_, s) \<Rightarrow> Some (r, ops, s))))"

text \<open>\<open>handle_fetch_data\<close>: \<open>RequiredFileOffset\<close> and \<open>RequiredLength\<close> are arguments.\<close>

definition handle_fetch_data ::
  "windows_codes \<Rightarrow> 's read_only_fs \<Rightarrow> cf_callback_info \<Rightarrow> i64 \<Rightarrow> i64 \<Rightarrow> 's \<Rightarrow>
     (cf_execute list \<times> 's) option" where
  "handle_fetch_data wc fs info offset len s =
     (case decode_ino (ci_file_identity info) (ci_file_identity_length info) of
        None \<Rightarrow> Some ([transfer_data info [] offset len (to_ntstatus wc InvalidArgument)], s)
      | Some ino \<Rightarrow>
          (case stream_fetch wc fs info ino offset len s of
             None \<Rightarrow> None
           | Some (_, ops, s) \<Rightarrow> Some (ops, s)))"

section \<open>Listing placeholders\<close>

record prepared_entry =
  pe_identity :: bytes
  pe_name :: "u16 list"
  pe_attr :: file_attr

definition UNIX_EPOCH_IN_FILETIME :: i64 where
  "UNIX_EPOCH_IN_FILETIME = 116444736000000000"

definition to_filetime :: "system_time \<Rightarrow> i64" where
  "to_filetime t =
     (case duration_since_epoch t of
        Some d \<Rightarrow> i64_wrap (UNIX_EPOCH_IN_FILETIME + i64_wrap (uint (dur_secs d)) * 10000000
                   + uint (dur_nanos d) div 100)
      | None \<Rightarrow> 0)"

text \<open>The two file attributes, constants of the \<open>windows\<close> crate.\<close>

record win_file_attributes =
  FILE_ATTRIBUTE_DIRECTORY :: u32
  FILE_ATTRIBUTE_READONLY :: u32

definition to_fs_metadata :: "win_file_attributes \<Rightarrow> file_attr \<Rightarrow> cf_fs_metadata" where
  "to_fs_metadata wa attr =
     (let attributes = (case attr_kind attr of
                          Directory \<Rightarrow> FILE_ATTRIBUTE_DIRECTORY wa
                        | File \<Rightarrow> FILE_ATTRIBUTE_READONLY wa)
      in \<lparr>md_basic_info =
            \<lparr>bi_creation_time = to_filetime (attr_ctime attr),
             bi_last_access_time = to_filetime (attr_atime attr),
             bi_last_write_time = to_filetime (attr_mtime attr),
             bi_change_time = to_filetime (attr_ctime attr),
             bi_file_attributes = attributes\<rparr>,
          md_file_size = i64_wrap (uint (attr_size attr))\<rparr>)"

definition to_create_info ::
  "win_file_attributes \<Rightarrow> u16 list \<Rightarrow> bytes \<Rightarrow> file_attr \<Rightarrow> cf_placeholder_create_info" where
  "to_create_info wa name_wide id_bytes attr =
     \<lparr>pc_relative_file_name = name_wide, pc_fs_metadata = to_fs_metadata wa attr,
      pc_file_identity = id_bytes, pc_file_identity_length = of_nat (length id_bytes)\<rparr>"

definition with_descriptors ::
  "win_file_attributes \<Rightarrow> prepared_entry list \<Rightarrow> (cf_placeholder_create_info list \<Rightarrow> 'r) \<Rightarrow> 'r" where
  "with_descriptors wa entries f =
     (let infos = map (\<lambda>e. to_create_info wa (pe_name e) (pe_identity e) (pe_attr e)) entries
      in f infos)"

text \<open>The sink of the listing, which accepts every entry, and the loop over what it collected.\<close>

definition listed_sink :: "((ino \<times> os_string) list, 's) sink" where
  "listed_sink e listed s = (Accepted, listed @ [(en_ino e, en_name e)], s)"

fun prepare_entries ::
  "'s read_only_fs \<Rightarrow> (ino \<times> os_string) list \<Rightarrow> prepared_entry list \<Rightarrow> 's \<Rightarrow> prepared_entry list \<times> 's" where
  "prepare_entries fs [] entries s = (entries, s)"
| "prepare_entries fs ((ino, name) # listed) entries s =
     (case fs_getattr fs ino s of
        (Inr attr, s) \<Rightarrow>
          prepare_entries fs listed
            (entries @ [\<lparr>pe_identity = u64_to_le_bytes (ino_num ino), pe_name = to_wide name,
                         pe_attr = attr\<rparr>]) s
      | (Inl _, s) \<Rightarrow> prepare_entries fs listed entries s)"

definition list_placeholders ::
  "'s read_only_fs \<Rightarrow> ino \<Rightarrow> 's \<Rightarrow> (prepared_entry list fs_result \<times> 's) option" where
  "list_placeholders fs dir s =
     (case emit fs dir 0 Omit listed_sink [] s of
        None \<Rightarrow> None
      | Some (Inl e, _, s) \<Rightarrow> Some (Inl e, s)
      | Some (Inr _, listed, s) \<Rightarrow>
          (case prepare_entries fs listed [] s of (entries, s) \<Rightarrow> Some (Inr entries, s)))"

definition handle_fetch_placeholders ::
  "windows_codes \<Rightarrow> win_file_attributes \<Rightarrow> 's read_only_fs \<Rightarrow> cf_callback_info \<Rightarrow> 's \<Rightarrow>
     (cf_execute list \<times> 's) option" where
  "handle_fetch_placeholders wc wa fs info s =
     (case (if ci_file_identity_length info = 0 then Some ROOT_INO
            else decode_ino (ci_file_identity info) (ci_file_identity_length info)) of
        None \<Rightarrow> Some ([transfer_placeholders info [] (to_ntstatus wc InvalidArgument)], s)
      | Some dir \<Rightarrow>
          (case list_placeholders fs dir s of
             None \<Rightarrow> None
           | Some (Inr listing, s) \<Rightarrow>
               Some ([with_descriptors wa listing (\<lambda>infos. transfer_placeholders info infos 0)], s)
           | Some (Inl e, s) \<Rightarrow> Some ([transfer_placeholders info [] (to_ntstatus wc e)], s)))"

section \<open>The loop answers the whole range\<close>

lemma i64_wrap_id [simp]: "- (2 ^ 63) \<le> x \<Longrightarrow> x < 2 ^ 63 \<Longrightarrow> i64_wrap x = x"
  by (simp add: i64_wrap_def)

lemma unat_of_int_u64: "0 \<le> x \<Longrightarrow> x < 2 ^ 64 \<Longrightarrow> unat (of_int x :: u64) = nat x"
  by (simp add: unsigned_of_int take_bit_int_eq_self)

lemma want_eq:
  assumes "0 \<le> sent" "sent < len" "len < 2 ^ 63" "length buf \<le> TRANSFER_CHUNK"
  shows "unat (min (of_int (len - sent) :: u64) (of_nat (length buf))) = min (nat (len - sent)) (length buf)"
proof -
  have a: "unat (of_int (len - sent) :: u64) = nat (len - sent)"
    by (rule unat_of_int_u64) (use assms(1-3) in simp_all)
  have b: "unat (of_nat (length buf) :: u64) = length buf"
    using assms(4) by (simp add: unat_of_nat TRANSFER_CHUNK_def)
  show ?thesis using a b by (simp add: min_def word_le_nat_alt)
qed

text \<open>The successful transfers of consecutive chunks from a file offset on.\<close>

fun chunks_from :: "cf_callback_info \<Rightarrow> i64 \<Rightarrow> bytes list \<Rightarrow> cf_execute list" where
  "chunks_from info a [] = []"
| "chunks_from info a (c # cs) =
     transfer_data info c a (int (length c)) 0 # chunks_from info (a + int (length c)) cs"

text \<open>
  The range from \<open>a\<close> to \<open>b\<close> is answered: by chunks that fill it, or by chunks and one
  failure for everything after them.
\<close>

definition range_answered ::
  "windows_codes \<Rightarrow> cf_callback_info \<Rightarrow> i64 \<Rightarrow> i64 \<Rightarrow> unit fs_result \<Rightarrow> bytes list \<Rightarrow> cf_execute list \<Rightarrow> bool" where
  "range_answered wc info a b r cs ops \<longleftrightarrow>
     list_all (\<lambda>c. 0 < length c \<and> length c \<le> TRANSFER_CHUNK) cs \<and>
     (let m = a + int (length (concat cs))
      in case r of
           Inr _ \<Rightarrow> m = b \<and> ops = chunks_from info a cs
         | Inl e \<Rightarrow> m < b \<and> ops = chunks_from info a cs @ [transfer_data info [] m (b - m) (to_ntstatus wc e)])"

lemma range_answered_Cons:
  assumes "range_answered wc info (a + int (length c)) b r cs ops" "0 < length c" "length c \<le> TRANSFER_CHUNK"
  shows "range_answered wc info a b r (c # cs) (transfer_data info c a (int (length c)) 0 # ops)"
  using assms by (auto simp: range_answered_def Let_def add.assoc split: sum.splits)

lemma stream_loop_end:
  assumes "\<not> sent < len"
  shows "stream_loop wc fs info fh offset len buf sent ops s = Some (Inr (), ops, s)"
  using assms by (simp add: stream_loop.simps [of _ _ _ _ _ len _ sent])

lemma stream_loop_step:
  assumes "0 \<le> offset" "0 \<le> sent" "sent < len" "offset + len < 2 ^ 63" "length buf \<le> TRANSFER_CHUNK"
    and w: "w = min (nat (len - sent)) (length buf)"
    and ra: "read_at_buf fs fh (of_int (offset + sent)) (take w buf) s = ((r, front), s1)"
  shows "stream_loop wc fs info fh offset len buf sent ops s =
     (case r of
        Inr n \<Rightarrow>
          if n = 0 then
            Some (Inl (Io (io_error_from_kind EkUnexpectedEof)), ops @ [transfer_data info [] (offset + sent)
              (len - sent) (to_ntstatus wc (Io (io_error_from_kind EkUnexpectedEof)))], s1)
          else
            stream_loop wc fs info fh offset len (front @ drop w buf) (sent + int (min n w))
              (ops @ [transfer_data info (take (min n w) front) (offset + sent) (int (min n w)) 0]) s1
      | Inl e \<Rightarrow>
          Some (Inl e, ops @ [transfer_data info [] (offset + sent) (len - sent) (to_ntstatus wc e)], s1))"
proof -
  have len: "len < 2 ^ 63" using assms by simp
  have want: "unat (min (of_int (len - sent) :: u64) (of_nat (length buf))) = w"
    using want_eq [OF assms(2,3) len assms(5)] w by simp
  have "length front = w" using read_at_buf_length [OF ra] w by simp
  moreover have "w \<le> nat (len - sent)" using w by simp
  ultimately show ?thesis
    using assms(1-4)
    by (subst stream_loop.simps, unfold want ra Let_def)
       (auto split: sum.splits)
qed

lemma stream_loop_answers:
  assumes "0 \<le> offset" "offset + len < 2 ^ 63" "0 \<le> sent" "sent \<le> len"
    and "0 < length buf" "length buf \<le> TRANSFER_CHUNK"
  shows "\<exists>r cs tail s'. stream_loop wc fs info fh offset len buf sent ops s = Some (r, ops @ tail, s') \<and>
    range_answered wc info (offset + sent) (offset + len) r cs tail"
  using assms(3-6)
proof (induction "nat (len - sent)" arbitrary: sent buf ops s rule: less_induct)
  case less
  show ?case
  proof (cases "sent < len")
    case False
    with less(3) have "range_answered wc info (offset + sent) (offset + len) (Inr ()) [] []"
      by (simp add: range_answered_def)
    with stream_loop_end [OF False] show ?thesis by (metis append_Nil2)
  next
    case True
    define w where "w = min (nat (len - sent)) (length buf)"
    obtain r front s1 where ra: "read_at_buf fs fh (of_int (offset + sent)) (take w buf) s = ((r, front), s1)"
      by (metis prod.exhaust)
    note step = stream_loop_step [OF assms(1) less(2) True assms(2) less(5) w_def ra]
    have fl: "length front = w" using read_at_buf_length [OF ra] w_def by simp
    have fail: "range_answered wc info (offset + sent) (offset + len) (Inl e) []
        [transfer_data info [] (offset + sent) (len - sent) (to_ntstatus wc e)]" for e
      using True by (simp add: range_answered_def)
    let ?eof = "Io (io_error_from_kind EkUnexpectedEof)"
    show ?thesis
    proof (cases r)
      case (Inl e)
      with step have "stream_loop wc fs info fh offset len buf sent ops s =
          Some (Inl e, ops @ [transfer_data info [] (offset + sent) (len - sent) (to_ntstatus wc e)], s1)" by simp
      with fail show ?thesis by blast
    next
      case (Inr n)
      show ?thesis
      proof (cases "n = 0")
        case True
        with step Inr have "stream_loop wc fs info fh offset len buf sent ops s =
            Some (Inl ?eof, ops @ [transfer_data info [] (offset + sent) (len - sent) (to_ntstatus wc ?eof)], s1)"
          by simp
        with fail show ?thesis by blast
      next
        case False
        let ?m = "min n w" and ?c = "take (min n w) front"
        have w0: "0 < w" "w \<le> nat (len - sent)" "w \<le> length buf" using True less(4) w_def by auto
        with False True have m: "0 < ?m" "int ?m \<le> len - sent" by auto
        have c: "length ?c = ?m" "length ?c \<le> TRANSFER_CHUNK" using fl w0 less(5) by auto
        have pre: "nat (len - (sent + int ?m)) < nat (len - sent)" "0 \<le> sent + int ?m" "sent + int ?m \<le> len"
          "0 < length (front @ drop w buf)" "length (front @ drop w buf) \<le> TRANSFER_CHUNK"
          using m less(2) fl w0 less(5) True by auto
        from less(1) [OF pre, of "ops @ [transfer_data info ?c (offset + sent) (int ?m) 0]" s1]
        obtain r' cs tail s' where rec: "stream_loop wc fs info fh offset len (front @ drop w buf) (sent + int ?m)
            (ops @ [transfer_data info ?c (offset + sent) (int ?m) 0]) s1 =
            Some (r', (ops @ [transfer_data info ?c (offset + sent) (int ?m) 0]) @ tail, s')"
          "range_answered wc info (offset + (sent + int ?m)) (offset + len) r' cs tail" by blast
        have "range_answered wc info (offset + sent) (offset + len) r' (?c # cs)
            (transfer_data info ?c (offset + sent) (int ?m) 0 # tail)"
          using range_answered_Cons [of wc info "offset + sent" ?c "offset + len" r' cs tail]
          unfolding c(1) add.assoc using rec(2) c(2) m(1) unfolding c(1) by blast
        moreover have "stream_loop wc fs info fh offset len buf sent ops s =
            Some (r', ops @ (transfer_data info ?c (offset + sent) (int ?m) 0 # tail), s')"
          using step Inr False rec(1) by simp
        ultimately show ?thesis by blast
      qed
    qed
  qed
qed

lemma stream_chunks_answers:
  assumes "0 \<le> offset" "0 < len" "offset + len < 2 ^ 63"
  shows "\<exists>r cs ops s'. stream_chunks wc fs info fh offset len s = Some (r, ops, s') \<and>
    range_answered wc info offset (offset + len) r cs ops"
proof -
  have "0 < length (replicate (min TRANSFER_CHUNK (nat len)) (0 :: u8))"
    "length (replicate (min TRANSFER_CHUNK (nat len)) (0 :: u8)) \<le> TRANSFER_CHUNK"
    using assms(2) by (simp_all add: TRANSFER_CHUNK_def)
  from stream_loop_answers [OF assms(1,3) _ _ this, of 0 wc fs info fh "[]" s] assms(2)
  show ?thesis by (simp add: stream_chunks_def Let_def)
qed

context ro_fs
begin

lemma stream_loop_correct:
  assumes "0 \<le> offset" "0 < len" "offset + len \<le> int (length d)" "length d < 2 ^ 63"
    and "0 \<le> sent" "sent \<le> len" "length buf = min TRANSFER_CHUNK (nat len)"
    and "inv s" "view s = v" "live s = l" "l fh = Some i" "view_data v i = Some d"
  shows "\<exists>cs s'. stream_loop wc fs info fh offset len buf sent ops s =
      Some (Inr (), ops @ chunks_from info (offset + sent) cs, s') \<and>
    concat cs = take (nat (len - sent)) (drop (nat (offset + sent)) d) \<and>
    (\<forall>c \<in> set (butlast cs). length c = TRANSFER_CHUNK) \<and> inv s' \<and> view s' = v \<and> live s' = l"
  using assms(5-10)
proof (induction "nat (len - sent)" arbitrary: sent buf ops s rule: less_induct)
  case less
  have bound: "offset + len < 2 ^ 63" using assms(3,4) by simp
  show ?case
  proof (cases "sent < len")
    case False
    from False less(3) have "concat [] = take (nat (len - sent)) (drop (nat (offset + sent)) d)" by simp
    with stream_loop_end [OF False] less(5-7) show ?thesis
      by (intro exI [of _ "[]"] exI [of _ s]) simp
  next
    case True
    define w where "w = min (nat (len - sent)) (length buf)"
    obtain r front s1 where ra: "read_at_buf fs fh (of_int (offset + sent)) (take w buf) s = ((r, front), s1)"
      by (metis prod.exhaust)
    have off: "unat (of_int (offset + sent) :: u64) = nat (offset + sent)"
      by (rule unat_of_int_u64) (use assms(1) less(2) True bound in simp_all)
    have w: "w = min (nat (len - sent)) TRANSFER_CHUNK" "0 < w"
      using True less(2,4) assms(2) by (auto simp: w_def TRANSFER_CHUNK_def)
    have w3: "length (take w buf) = w" by (simp add: w_def)
    have room: "w \<le> length d - nat (offset + sent)" using w(1) assms(1,3) less(2) True by auto
    have lv: "live s fh = Some i" "view_data (view s) i = Some d" using less(6,7) assms(11,12) by auto
    from read_at_eq [OF less(5) lv ra] room w3 off less(6,7)
    have r: "r = Inr w" "take w front = take w (drop (nat (offset + sent)) d)"
      and s1: "inv s1" "view s1 = v" "live s1 = l" by (auto simp: min_absorb1)
    have fl: "length front = w" using read_at_buf_length [OF ra] w3 by simp
    define c where "c = take w (drop (nat (offset + sent)) d)"
    have c: "front = c" "length c = w" using r(2) fl room by (auto simp: c_def)
    have le: "length buf \<le> TRANSFER_CHUNK" using less(4) by simp
    have step: "stream_loop wc fs info fh offset len buf sent ops s =
        stream_loop wc fs info fh offset len (c @ drop w buf) (sent + int w)
          (ops @ [transfer_data info c (offset + sent) (int w) 0]) s1"
      using stream_loop_step [OF assms(1) less(2) True bound le w_def ra] r(1) w(2) c by simp
    show ?thesis
    proof (cases "sent + int w < len")
      case False
      then have wl: "w = nat (len - sent)" using w(1) by simp
      have "stream_loop wc fs info fh offset len buf sent ops s =
          Some (Inr (), ops @ chunks_from info (offset + sent) [c], s1)"
        unfolding step using stream_loop_end [OF False] c(2) by simp
      moreover have "concat [c] = take (nat (len - sent)) (drop (nat (offset + sent)) d)"
        by (simp add: c_def wl)
      ultimately show ?thesis using s1 by (intro exI [of _ "[c]"] exI [of _ s1]) simp
    next
      case more: True
      then have chunk: "w = TRANSFER_CHUNK" using w(1) by (auto simp: min_def split: if_splits)
      have "length (c @ drop w buf) = length buf" using c(2) by (simp add: w_def)
      with less(4) have "length (c @ drop w buf) = min TRANSFER_CHUNK (nat len)" by simp
      moreover have "nat (len - (sent + int w)) < nat (len - sent)" "0 \<le> sent + int w" "sent + int w \<le> len"
        using more w(2) less(2) by auto
      ultimately have pre: "nat (len - (sent + int w)) < nat (len - sent)" "0 \<le> sent + int w"
        "sent + int w \<le> len" "length (c @ drop w buf) = min TRANSFER_CHUNK (nat len)" by blast+
      from less(1) [OF pre s1, of "ops @ [transfer_data info c (offset + sent) (int w) 0]"]
      obtain cs s' where rec: "stream_loop wc fs info fh offset len (c @ drop w buf) (sent + int w)
          (ops @ [transfer_data info c (offset + sent) (int w) 0]) s1 =
          Some (Inr (), (ops @ [transfer_data info c (offset + sent) (int w) 0]) @
            chunks_from info (offset + (sent + int w)) cs, s')"
        "concat cs = take (nat (len - (sent + int w))) (drop (nat (offset + (sent + int w))) d)"
        "\<forall>c \<in> set (butlast cs). length c = TRANSFER_CHUNK" "inv s'" "view s' = v" "live s' = l" by blast
      have n: "nat (offset + (sent + int w)) = w + nat (offset + sent)"
        "nat (len - sent) = w + nat (len - (sent + int w))"
        using assms(1) less(2) more by auto
      have cat: "concat (c # cs) = take (nat (len - sent)) (drop (nat (offset + sent)) d)"
        unfolding n(2) take_add concat.simps rec(2) n(1) by (simp add: c_def)
      show ?thesis
        by (rule exI [of _ "c # cs"], rule exI [of _ s'], unfold step rec(1) cat)
           (use rec(3-6) c(2) chunk in \<open>simp add: add.assoc\<close>)
    qed
  qed
qed

lemma stream_fetch_correct:
  assumes "inv s" "view_data (view s) i = Some d" "length d < 2 ^ 63"
    and "0 \<le> offset" "0 < len" "offset + len \<le> int (length d)"
  shows "\<exists>cs fh s'. stream_fetch wc fs info i offset len s = Some (Inr (), chunks_from info offset cs, s') \<and>
    concat cs = take (nat len) (drop (nat offset) d) \<and>
    (\<forall>c \<in> set (butlast cs). length c = TRANSFER_CHUNK) \<and>
    inv s' \<and> view s' = view s \<and> live s' = (live s)(fh := None)"
proof -
  obtain rh s1 where op: "fs_open fs i s = (rh, s1)" by fastforce
  from open_file [OF assms(1,2) op] obtain fh
    where fh: "inv s1" "view s1 = view s" "rh = Inr fh" "live s1 = (live s)(fh \<mapsto> i)" by blast
  let ?buf = "replicate (min TRANSFER_CHUNK (nat len)) (0 :: u8)"
  have le: "0 \<le> len" and fh_i: "((live s)(fh \<mapsto> i)) fh = Some i" using assms(5) by simp_all
  from stream_loop_correct [OF assms(4,5,6,3) order.refl le length_replicate [of _ "0 :: u8"]
      fh(1,2,4) fh_i assms(2), where wc = wc and info = info and ops = "[]", unfolded add_0_right diff_0_right append_Nil]
  obtain cs s2 where loop: "stream_loop wc fs info fh offset len ?buf 0 [] s1 =
      Some (Inr (), chunks_from info offset cs, s2)"
    "concat cs = take (nat len) (drop (nat offset) d)"
    "\<forall>c \<in> set (butlast cs). length c = TRANSFER_CHUNK"
    "inv s2" "view s2 = view s" "live s2 = (live s)(fh \<mapsto> i)" by blast
  obtain ru s3 where rel: "fs_release fs fh s2 = (ru, s3)" by fastforce
  from release_live [OF loop(4) rel] loop(5,6)
  have s3: "inv s3" "view s3 = view s" "live s3 = (live s)(fh := None)" by auto
  have "stream_chunks wc fs info fh offset len s1 = Some (Inr (), chunks_from info offset cs, s2)"
    using assms(5) loop(1) by (simp add: stream_chunks_def Let_def)
  then have "stream_fetch wc fs info i offset len s = Some (Inr (), chunks_from info offset cs, s3)"
    using op fh(3) rel by (simp add: stream_fetch_def)
  with loop(2,3) s3 show ?thesis by blast
qed

end

section \<open>Placeholders\<close>

lemma decode_ino_identity [simp]:
  "decode_ino (Some (u64_to_le_bytes (ino_num i))) 8 = Some i"
  by (simp add: decode_ino_def try_into_array_def)

lemma decode_ino_exact:
  "decode_ino (Some bs) (of_nat (length bs)) = Some i \<longleftrightarrow> bs = u64_to_le_bytes (ino_num i)"
  if "length bs < 2 ^ 32"
  using that u64_le_inverse [of bs]
  by (cases i) (auto simp: decode_ino_def try_into_array_def unat_of_nat)

text \<open>The placeholder of one entry of a directory, as the platform receives it.\<close>

definition entry_placeholder ::
  "win_file_attributes \<Rightarrow> fs_view \<Rightarrow> dir_entry \<Rightarrow> cf_placeholder_create_info" where
  "entry_placeholder wa v e =
     \<lparr>pc_relative_file_name = to_wide (entry_name e),
      pc_fs_metadata = to_fs_metadata wa (the (view_attr v (entry_ino e))),
      pc_file_identity = u64_to_le_bytes (ino_num (entry_ino e)), pc_file_identity_length = 8\<rparr>"

lemma feed_listed:
  "feed (\<lambda>e l. (Accepted, l @ [(en_ino e, en_name e)])) es l =
     (False, l @ map (\<lambda>e. (en_ino e, en_name e)) es)"
  by (induction es arbitrary: l) (simp_all add: feed_Cons)

lemma map_entries_from:
  "map (\<lambda>e. (en_ino e, en_name e)) (entries_from off es) = map (\<lambda>e. (entry_ino e, entry_name e)) es"
  by (induction es arbitrary: off) (simp_all add: offered_def)

context ro_fs
begin

lemma prepare_entries_correct:
  assumes "inv s" "view s = v" "view_list v dir = Some all" "set es \<subseteq> set all"
  shows "\<exists>ps s'. prepare_entries fs (map (\<lambda>e. (entry_ino e, entry_name e)) es) acc s = (acc @ ps, s') \<and>
    with_descriptors wa ps id = map (entry_placeholder wa v) es \<and> inv s' \<and> view s' = v \<and> live s' = live s"
  using assms(1,2,4)
proof (induction es arbitrary: s acc)
  case Nil
  then show ?case by (simp add: with_descriptors_def)
next
  case (Cons e es)
  obtain ra s1 where ga: "fs_getattr fs (entry_ino e) s = (ra, s1)" by fastforce
  have "view_list (view s) dir = Some all" "e \<in> set all" using assms(3) Cons.prems by auto
  from getattr_listed [OF Cons.prems(1) this] getattr_eq [OF Cons.prems(1) ga] Cons.prems(2)
  obtain a where a: "view_attr v (entry_ino e) = Some a" "ra = Inr a"
    and s1: "inv s1" "view s1 = v" "live s1 = live s" by auto
  let ?p = "\<lparr>pe_identity = u64_to_le_bytes (ino_num (entry_ino e)), pe_name = to_wide (entry_name e), pe_attr = a\<rparr>"
  have sub: "set es \<subseteq> set all" using Cons.prems(3) by simp
  from Cons.IH [OF s1(1,2) sub, of "acc @ [?p]"] obtain ps s' where
    rec: "prepare_entries fs (map (\<lambda>e. (entry_ino e, entry_name e)) es) (acc @ [?p]) s1 = ((acc @ [?p]) @ ps, s')"
    "with_descriptors wa ps id = map (entry_placeholder wa v) es" "inv s'" "view s' = v" "live s' = live s1" by blast
  have "with_descriptors wa (?p # ps) id = map (entry_placeholder wa v) (e # es)"
    using rec(2) a(1) by (simp add: with_descriptors_def entry_placeholder_def to_create_info_def)
  moreover have "prepare_entries fs (map (\<lambda>e. (entry_ino e, entry_name e)) (e # es)) acc s = (acc @ ?p # ps, s')"
    using ga a(2) rec(1) by simp
  moreover have "live s' = live s" using rec(5) s1(3) by simp
  ultimately show ?case using rec(3,4) by blast
qed

lemma emit_omit_listed:
  assumes "inv s" "view_list (view s) dir = Some es"
  shows "\<exists>s'. emit fs dir 0 Omit listed_sink [] s =
      Some (Inr True, map (\<lambda>e. (entry_ino e, entry_name e)) es, s') \<and> inv s' \<and> view s' = view s"
proof -
  let ?g = "\<lambda>e l. (Accepted, l @ [(en_ino e, en_name e)])"
  have "sink_pure inv view (view s) listed_sink ?g" by (simp add: sink_pure_def listed_sink_def)
  from emit_loop_feed [OF this assms(2,1) refl, of 0 "[]"] show ?thesis
    by (simp add: emit_def Let_def trait_offset_def saturating_sub_def DOTDOT_def feed_listed map_entries_from)
qed

lemma list_placeholders_correct:
  assumes "inv s" "view_list (view s) dir = Some es"
  shows "\<exists>ps s'. list_placeholders fs dir s = Some (Inr ps, s') \<and>
    with_descriptors wa ps id = map (entry_placeholder wa (view s)) es \<and> inv s' \<and> view s' = view s"
proof -
  from emit_omit_listed [OF assms] obtain s1 where
    em: "emit fs dir 0 Omit listed_sink [] s = Some (Inr True, map (\<lambda>e. (entry_ino e, entry_name e)) es, s1)"
    "inv s1" "view s1 = view s" by blast
  from prepare_entries_correct [OF em(2,3) assms(2) order.refl, of "[]" wa] em show ?thesis
    by (auto simp: list_placeholders_def)
qed

end

section \<open>Properties\<close>

lemma handle_fetch_data_opened:
  assumes "decode_ino (ci_file_identity info) (ci_file_identity_length info) = Some ino"
    "stream_fetch wc fs info ino offset len s = Some (r, ops, s')"
  shows "handle_fetch_data wc fs info offset len s = Some (ops, s')"
  using assms by (simp add: handle_fetch_data_def)

text \<open>Status codes for examples.\<close>

definition sample_codes :: windows_codes where
  "sample_codes =
     \<lparr>STATUS_OBJECT_NAME_NOT_FOUND = -1073741772, STATUS_ACCESS_DENIED = -1073741790,
      STATUS_INVALID_PARAMETER = -1073741811, STATUS_NOT_SUPPORTED = -1073741637,
      STATUS_CLOUD_FILE_UNSUCCESSFUL = -1073688815, E_ACCESSDENIED = -2147024891\<rparr>"

text \<open>A callback for the inode \<open>i\<close>, as the platform sends it after the placeholder was made.\<close>

definition callback_for :: "u64 \<Rightarrow> cf_callback_info" where
  "callback_for i =
     \<lparr>ci_connection_key = 7, ci_transfer_key = 8, ci_request_key = 9,
      ci_file_identity = Some (u64_to_le_bytes i), ci_file_identity_length = 8\<rparr>"

lemma decode_callback_for [simp]:
  "decode_ino (ci_file_identity (callback_for i)) (ci_file_identity_length (callback_for i)) = Some (Ino i)"
  using decode_ino_identity [of "Ino i"] by (simp add: callback_for_def)

text \<open>
  C14: A fetch whose file opens answers the whole range it was asked for, whatever the
  filesystem does: \<open>handle_fetch_data\<close> returns, and the operations it sent are chunks of
  1 to 1048576 bytes that follow one another from the requested offset and either end exactly at
  the end of the range or are followed by one failure, with the error's \<open>NTSTATUS\<close>, for
  exactly what is left of it.
\<close>

theorem cfapi_fetch_answers_range:
  assumes "decode_ino (ci_file_identity info) (ci_file_identity_length info) = Some ino"
    and "fs_open fs ino s = (Inr fh, s1)"
    and "0 \<le> offset" "0 < len" "offset + len < 2 ^ 63"
  shows "\<exists>r cs ops s'. handle_fetch_data wc fs info offset len s = Some (ops, s') \<and>
    range_answered wc info offset (offset + len) r cs ops"
proof -
  from stream_chunks_answers [OF assms(3-5), of wc fs info fh s1] obtain r cs ops s2
    where sc: "stream_chunks wc fs info fh offset len s1 = Some (r, ops, s2)"
      "range_answered wc info offset (offset + len) r cs ops" by blast
  obtain ru s3 where rel: "fs_release fs fh s2 = (ru, s3)" by fastforce
  with sc(1) assms(2) have "stream_fetch wc fs info ino offset len s = Some (r, ops, s3)"
    by (simp add: stream_fetch_def)
  from handle_fetch_data_opened [OF assms(1) this] sc(2) show ?thesis by blast
qed

theorem cfapi_fetch_answers_range_witness:
  "\<exists>r cs ops s'. handle_fetch_data sample_codes (mem_impl 0 0) (callback_for 5) 4 100 mem_fs_new = Some (ops, s') \<and>
    range_answered sample_codes (callback_for 5) 4 (4 + 100) r cs ops"
proof -
  have "\<exists>fh s1. fs_open (mem_impl 0 0) (Ino 5) mem_fs_new = (Inr fh, s1)"
    using mem_fs_new_nodes mem_inv_lock [OF mem_fs_new_inv] by (auto simp: mem_open_def mem_node_def Let_def)
  then obtain fh s1 where op: "fs_open (mem_impl 0 0) (Ino 5) mem_fs_new = (Inr fh, s1)" by blast
  show ?thesis by (rule cfapi_fetch_answers_range [OF decode_callback_for op]) simp_all
qed

text \<open>
  C13: A fetch sends the file's bytes. On a filesystem that keeps its contract, a fetch of a range
  inside a file returns, and everything it sends is a successful transfer; the transfers
  follow one another from the requested offset and their buffers together are exactly the bytes
  of the range. Every transfer but the last is of 1048576 bytes, so the platform's rule that
  only the last may end off a 4096-byte boundary holds for an aligned request, and no handle
  the fetch opened stays open.
\<close>

theorem cfapi_fetch_correct:
  assumes "ro_fs fs I view live" "I s"
    and "decode_ino (ci_file_identity info) (ci_file_identity_length info) = Some ino"
    and "view_data (view s) ino = Some d" "length d < 2 ^ 63"
    and "0 \<le> offset" "0 < len" "offset + len \<le> int (length d)"
  shows "\<exists>cs fh s'. handle_fetch_data wc fs info offset len s = Some (chunks_from info offset cs, s') \<and>
    concat cs = take (nat len) (drop (nat offset) d) \<and>
    list_all (\<lambda>c. length c = 1048576) (butlast cs) \<and>
    I s' \<and> view s' = view s \<and> live s' = (live s)(fh := None)"
proof -
  have chunk: "list_all (\<lambda>c. length c = 1048576) cs \<longleftrightarrow> (\<forall>c \<in> set cs. length c = TRANSFER_CHUNK)" for cs :: "bytes list"
    by (simp add: list_all_iff TRANSFER_CHUNK_def)
  from ro_fs.stream_fetch_correct [OF assms(1,2,4-8), of wc info] obtain cs fh s'
    where f: "stream_fetch wc fs info ino offset len s = Some (Inr (), chunks_from info offset cs, s')"
      "concat cs = take (nat len) (drop (nat offset) d)" "\<forall>c \<in> set (butlast cs). length c = TRANSFER_CHUNK"
      "I s'" "view s' = view s" "live s' = (live s)(fh := None)" by blast
  from handle_fetch_data_opened [OF assms(3) f(1)] f(2-6) show ?thesis unfolding chunk by blast
qed

theorem cfapi_fetch_correct_witness:
  "\<exists>cs fh s'. handle_fetch_data sample_codes (mem_impl 0 0) (callback_for 5) 5 6 mem_fs_new =
      Some (chunks_from (callback_for 5) 5 cs, s') \<and>
    concat cs = ascii ''nested'' \<and> list_all (\<lambda>c. length c = 1048576) (butlast cs) \<and>
    mem_inv s' \<and> mem_view 0 0 s' = mem_view 0 0 mem_fs_new \<and> open_files s' = (open_files mem_fs_new)(fh := None)"
proof -
  have d: "view_data (mem_view 0 0 mem_fs_new) (Ino 5) = Some (ascii (''I am nested.'' @ [CHR 0x0A]))"
    by (simp only: mem_view_data mem_fs_new_nodes)
  have cut: "take (nat 6) (drop (nat 5) (ascii (''I am nested.'' @ [CHR 0x0A]))) = ascii ''nested''"
    by (simp add: ascii_def)
  from cfapi_fetch_correct [OF memfs.ro_fs_axioms mem_fs_new_inv decode_callback_for d, of 5 6 sample_codes]
  show ?thesis unfolding cut by simp
qed

text \<open>
  C31: A fetch whose file cannot be opened sends the platform nothing: the error is returned to
  the callback, which logs it, and no completion for the requested range is ever executed,
  although an identity that cannot be decoded is answered with a failure for the whole range.
\<close>

theorem cfapi_open_failure_unanswered:
  assumes "decode_ino (ci_file_identity info) (ci_file_identity_length info) = Some ino"
    and "fs_open fs ino s = (Inl e, s1)"
  shows "handle_fetch_data wc fs info offset len s = Some ([], s1) \<and>
    handle_fetch_data wc fs (info\<lparr>ci_file_identity := None\<rparr>) offset len s =
      Some ([transfer_data (info\<lparr>ci_file_identity := None\<rparr>) [] offset len (STATUS_INVALID_PARAMETER wc)], s)"
  using assms by (simp add: handle_fetch_data_def stream_fetch_def decode_ino_def)

theorem cfapi_open_failure_unanswered_witness:
  "handle_fetch_data sample_codes (mem_impl 0 0) (callback_for 1) 0 4096 mem_fs_new = Some ([], mem_fs_new)"
proof -
  have "fs_open (mem_impl 0 0) (Ino 1) mem_fs_new = (Inl IsADirectory, mem_fs_new)"
    using mem_fs_new_nodes by (simp add: mem_open_def mem_node_def ROOT_INO_def)
  from cfapi_open_failure_unanswered [OF decode_callback_for this] show ?thesis by blast
qed

text \<open>
  C23: A directory is populated completely. On a filesystem that keeps its contract, a
  \<open>FETCH_PLACEHOLDERS\<close> for a directory is answered with one successful transfer that has
  exactly one placeholder per entry, in order, with the entry's name in UTF-16, its
  attributes, and an identity from which \<open>decode_ino\<close> recovers its inode in every later
  callback; an empty identity is the root.
\<close>

theorem cfapi_placeholders_complete:
  assumes "ro_fs fs I view live" "I s" "view_list (view s) dir = Some es"
    and "(if ci_file_identity_length info = 0 then Some ROOT_INO
          else decode_ino (ci_file_identity info) (ci_file_identity_length info)) = Some dir"
  shows "\<exists>s'. handle_fetch_placeholders wc wa fs info s =
      Some ([transfer_placeholders info (map (entry_placeholder wa (view s)) es) 0], s') \<and>
    I s' \<and> view s' = view s \<and>
    map (\<lambda>p. decode_ino (Some (pc_file_identity p)) (pc_file_identity_length p))
      (map (entry_placeholder wa (view s)) es) = map (\<lambda>e. Some (entry_ino e)) es"
proof -
  from ro_fs.list_placeholders_correct [OF assms(1-3), of wa] obtain ps s'
    where l: "list_placeholders fs dir s = Some (Inr ps, s')"
      "with_descriptors wa ps id = map (entry_placeholder wa (view s)) es" "I s'" "view s' = view s" by blast
  have "with_descriptors wa ps f = f (map (entry_placeholder wa (view s)) es)" for f :: "_ \<Rightarrow> cf_execute"
    using l(2) by (simp add: with_descriptors_def)
  moreover have "map (\<lambda>p. decode_ino (Some (pc_file_identity p)) (pc_file_identity_length p))
      (map (entry_placeholder wa (view s)) es) = map (\<lambda>e. Some (entry_ino e)) es"
    by (simp add: entry_placeholder_def)
  ultimately show ?thesis using l(1,3,4) assms(4) by (simp add: handle_fetch_placeholders_def)
qed

theorem cfapi_placeholders_complete_witness:
  "\<exists>s'. handle_fetch_placeholders sample_codes \<lparr>FILE_ATTRIBUTE_DIRECTORY = 16, FILE_ATTRIBUTE_READONLY = 1\<rparr>
      (mem_impl 0 0) (callback_for 1) mem_fs_new =
      Some ([transfer_placeholders (callback_for 1)
        (map (entry_placeholder \<lparr>FILE_ATTRIBUTE_DIRECTORY = 16, FILE_ATTRIBUTE_READONLY = 1\<rparr> (mem_view 0 0 mem_fs_new))
          (map (mem_entry mem_fs_new)
            [(ascii ''hello.txt'', Ino 2), (ascii ''numbers.txt'', Ino 3), (ascii ''subdir'', Ino 4)])) 0], s')"
proof -
  have l: "view_list (mem_view 0 0 mem_fs_new) (Ino 1) = Some (map (mem_entry mem_fs_new)
      [(ascii ''hello.txt'', Ino 2), (ascii ''numbers.txt'', Ino 3), (ascii ''subdir'', Ino 4)])"
    unfolding mem_view_list using mem_fs_new_nodes(1) by (simp add: ROOT_INO_def)
  have "(if ci_file_identity_length (callback_for 1) = 0 then Some ROOT_INO
      else decode_ino (ci_file_identity (callback_for 1)) (ci_file_identity_length (callback_for 1))) = Some (Ino 1)"
    by (simp add: ROOT_INO_def)
  from cfapi_placeholders_complete [OF memfs.ro_fs_axioms mem_fs_new_inv l this] show ?thesis by blast
qed

end
