(* ===== verification/Shared_Fs.thy ===== *)
theory Shared_Fs
  imports Mem_Fs
begin

text \<open>
  One filesystem called by several workers at once. The methods of \<open>ReadOnlyFs\<close> take
  \<open>&self\<close> and an implementation must be \<open>Send + Sync\<close>: while one worker answers a request,
  between any two of its calls the other workers of \<open>src/backend/nfs/server.rs\<close>, or the other
  callback threads of the FUSE and Cloud Files backends, make theirs. \<open>interleaved\<close> is the
  filesystem as one worker sees it. What the others do before its next call is any function
  of the state, and of the handles this worker holds, since theirs are others. The
  contract of \<open>ReadOnlyFs\<close> holds of the interleaved filesystem again, so a statement about one
  client and every filesystem that keeps the contract is one about a client among others.
\<close>

section \<open>The interleaved filesystem\<close>

record 's shared =
  sh_fs :: 's
  sh_own :: "file_handle set"
  sh_others :: "(file_handle set \<Rightarrow> 's \<Rightarrow> 's) list"

definition others_run :: "'s shared \<Rightarrow> 's shared" where
  "others_run x =
     (case sh_others x of
        [] \<Rightarrow> x
      | g # gs \<Rightarrow> x\<lparr>sh_fs := g (sh_own x) (sh_fs x), sh_others := gs\<rparr>)"

definition shared_call :: "('s \<Rightarrow> 'a \<times> 's) \<Rightarrow> 's shared \<Rightarrow> 'a \<times> 's shared" where
  "shared_call f x =
     (let x = others_run x in case f (sh_fs x) of (r, s) \<Rightarrow> (r, x\<lparr>sh_fs := s\<rparr>))"

definition interleaved :: "'s read_only_fs \<Rightarrow> 's shared read_only_fs" where
  "interleaved fs =
     \<lparr>fs_lookup = (\<lambda>p n. shared_call (fs_lookup fs p n)),
      fs_getattr = (\<lambda>i. shared_call (fs_getattr fs i)),
      fs_readdir = (\<lambda>i off. shared_call (fs_readdir fs i off)),
      fs_open = (\<lambda>i x. case shared_call (fs_open fs i) x of
          (Inl e, x) \<Rightarrow> (Inl e, x)
        | (Inr fh, x) \<Rightarrow> (Inr fh, x\<lparr>sh_own := insert fh (sh_own x)\<rparr>)),
      fs_read_at = (\<lambda>fh off buf. shared_call (fs_read_at fs fh off buf)),
      fs_release = (\<lambda>fh x. case shared_call (fs_release fs fh) x of
          (r, x) \<Rightarrow> (r, x\<lparr>sh_own := sh_own x - {fh}\<rparr>)),
      fs_forget = (\<lambda>i n x. let x = others_run x in x\<lparr>sh_fs := fs_forget fs i n (sh_fs x)\<rparr>),
      fs_listxattr = (\<lambda>i. shared_call (fs_listxattr fs i)),
      fs_getxattr = (\<lambda>i n. shared_call (fs_getxattr fs i n)),
      fs_statfs = shared_call (fs_statfs fs)\<rparr>"

lemma interleaved_sel [simp]:
  "fs_lookup (interleaved fs) p n = shared_call (fs_lookup fs p n)"
  "fs_getattr (interleaved fs) i = shared_call (fs_getattr fs i)"
  "fs_readdir (interleaved fs) i off = shared_call (fs_readdir fs i off)"
  "fs_read_at (interleaved fs) fh off buf = shared_call (fs_read_at fs fh off buf)"
  "fs_statfs (interleaved fs) = shared_call (fs_statfs fs)"
  by (simp_all add: interleaved_def)

lemma read_at_buf_interleaved [simp]:
  "read_at_buf (interleaved fs) fh off buf = shared_call (read_at_buf fs fh off buf)"
  by (rule ext) (simp add: read_at_buf_def shared_call_def Let_def split: prod.splits)

section \<open>What the others may do\<close>

text \<open>
  They make calls, so they keep the invariant and change nothing that is shown; and they
  neither open nor release a handle that is not theirs.
\<close>

definition harmless ::
  "('s \<Rightarrow> bool) \<Rightarrow> ('s \<Rightarrow> fs_view) \<Rightarrow> ('s \<Rightarrow> file_handle \<Rightarrow> ino option) \<Rightarrow>
     (file_handle set \<Rightarrow> 's \<Rightarrow> 's) \<Rightarrow> bool" where
  "harmless I view live g \<longleftrightarrow>
     (\<forall>own s. I s \<longrightarrow> I (g own s) \<and> view (g own s) = view s \<and> (\<forall>h \<in> own. live (g own s) h = live s h))"

definition sh_inv ::
  "('s \<Rightarrow> bool) \<Rightarrow> ('s \<Rightarrow> fs_view) \<Rightarrow> ('s \<Rightarrow> file_handle \<Rightarrow> ino option) \<Rightarrow> 's shared \<Rightarrow> bool" where
  "sh_inv I view live x \<longleftrightarrow> I (sh_fs x) \<and> list_all (harmless I view live) (sh_others x)"

definition sh_view :: "('s \<Rightarrow> fs_view) \<Rightarrow> 's shared \<Rightarrow> fs_view" where
  "sh_view view x = view (sh_fs x)"

definition sh_live :: "('s \<Rightarrow> file_handle \<Rightarrow> ino option) \<Rightarrow> 's shared \<Rightarrow> file_handle \<Rightarrow> ino option" where
  "sh_live live x = live (sh_fs x) |` sh_own x"

lemma others_run_keeps:
  assumes "sh_inv I view live x"
  shows "sh_inv I view live (others_run x)" "sh_view view (others_run x) = sh_view view x"
    "sh_live live (others_run x) = sh_live live x" "sh_own (others_run x) = sh_own x"
  using assms
  by (auto simp: sh_inv_def sh_view_def sh_live_def others_run_def harmless_def restrict_map_def fun_eq_iff
      split: list.splits)

text \<open>A call is a call of the filesystem after the others ran.\<close>

lemma shared_callE:
  assumes "shared_call f x = (r, x')" "sh_inv I view live x"
  obtains y s' where "I (sh_fs y)" "view (sh_fs y) = sh_view view x" "sh_live live y = sh_live live x"
    "sh_own y = sh_own x" "list_all (harmless I view live) (sh_others y)"
    "f (sh_fs y) = (r, s')" "x' = y\<lparr>sh_fs := s'\<rparr>"
proof (rule that [of "others_run x" "sh_fs x'"])
  from others_run_keeps [OF assms(2)] show "I (sh_fs (others_run x))" "view (sh_fs (others_run x)) = sh_view view x"
    "sh_live live (others_run x) = sh_live live x" "sh_own (others_run x) = sh_own x"
    "list_all (harmless I view live) (sh_others (others_run x))"
    by (simp_all add: sh_inv_def sh_view_def)
  from assms(1) show "f (sh_fs (others_run x)) = (r, sh_fs x')" "x' = (others_run x)\<lparr>sh_fs := sh_fs x'\<rparr>"
    by (auto simp: shared_call_def Let_def split: prod.splits)
qed

text \<open>A call that keeps the filesystem's state keeps the shared one.\<close>

lemma shared_call_keeps:
  assumes "shared_call f x = (r, x')" "sh_inv I view live x"
    and "\<And>s r s'. I s \<Longrightarrow> f s = (r, s') \<Longrightarrow> I s' \<and> view s' = view s \<and> live s' = live s"
  shows "sh_inv I view live x' \<and> sh_view view x' = sh_view view x \<and> sh_live live x' = sh_live live x"
proof -
  obtain y s' where
    y: "I (sh_fs y)" "view (sh_fs y) = sh_view view x" "sh_live live y = sh_live live x" "sh_own y = sh_own x"
      "list_all (harmless I view live) (sh_others y)" "f (sh_fs y) = (r, s')" "x' = y\<lparr>sh_fs := s'\<rparr>"
    by (rule shared_callE [OF assms(1,2)])
  from assms(3) [OF y(1,6)] y show ?thesis by (simp add: sh_inv_def sh_view_def sh_live_def)
qed

text \<open>What a call returns, it returns in a state that shows the same.\<close>

lemma shared_call_result:
  assumes "shared_call f x = (r, x')" "sh_inv I view live x"
  shows "\<exists>s s'. I s \<and> view s = sh_view view x \<and> f s = (r, s')"
proof -
  obtain y s' where
    y: "I (sh_fs y)" "view (sh_fs y) = sh_view view x" "sh_live live y = sh_live live x" "sh_own y = sh_own x"
      "list_all (harmless I view live) (sh_others y)" "f (sh_fs y) = (r, s')" "x' = y\<lparr>sh_fs := s'\<rparr>"
    by (rule shared_callE [OF assms])
  then show ?thesis by blast
qed

lemma interleaved_open:
  assumes "fs_open (interleaved fs) i x = (rh, x')" "sh_inv I view live x"
    and "\<And>s s'. I s \<Longrightarrow> view s = sh_view view x \<Longrightarrow> fs_open fs i s = (rh, s') \<Longrightarrow> P rh \<and>
      I s' \<and> view s' = view s \<and> live s' = (case rh of Inl _ \<Rightarrow> live s | Inr fh \<Rightarrow> (live s)(fh \<mapsto> i))"
  shows "P rh \<and> sh_inv I view live x' \<and> sh_view view x' = sh_view view x \<and>
    sh_live live x' = (case rh of Inl _ \<Rightarrow> sh_live live x | Inr fh \<Rightarrow> (sh_live live x)(fh \<mapsto> i))"
proof -
  obtain x1 where c: "shared_call (fs_open fs i) x = (rh, x1)"
    "x' = (case rh of Inl _ \<Rightarrow> x1 | Inr fh \<Rightarrow> x1\<lparr>sh_own := insert fh (sh_own x1)\<rparr>)"
    using assms(1) by (auto simp: interleaved_def split: prod.splits sum.splits)
  obtain y s' where
    y: "I (sh_fs y)" "view (sh_fs y) = sh_view view x" "sh_live live y = sh_live live x" "sh_own y = sh_own x"
      "list_all (harmless I view live) (sh_others y)" "fs_open fs i (sh_fs y) = (rh, s')" "x1 = y\<lparr>sh_fs := s'\<rparr>"
    by (rule shared_callE [OF c(1) assms(2)])
  from assms(3) [OF y(1,2,6)] have k: "P rh" "I s'" "view s' = view (sh_fs y)"
    "live s' = (case rh of Inl _ \<Rightarrow> live (sh_fs y) | Inr fh \<Rightarrow> (live (sh_fs y))(fh \<mapsto> i))" by auto
  have "sh_live live x' = (case rh of Inl _ \<Rightarrow> sh_live live y | Inr fh \<Rightarrow> (sh_live live y)(fh \<mapsto> i))"
    using k(4) by (auto simp: c(2) y(7) sh_live_def restrict_map_def fun_eq_iff split: sum.splits)
  with k y show ?thesis by (auto simp: c(2) sh_inv_def sh_view_def split: sum.splits)
qed

lemma interleaved_release:
  assumes "fs_release (interleaved fs) fh x = (ru, x')" "sh_inv I view live x"
    and "\<And>s r s'. I s \<Longrightarrow> fs_release fs fh s = (r, s') \<Longrightarrow> I s' \<and> view s' = view s \<and> live s' = (live s)(fh := None)"
  shows "sh_inv I view live x' \<and> sh_view view x' = sh_view view x \<and> sh_live live x' = (sh_live live x)(fh := None)"
proof -
  obtain x1 where c: "shared_call (fs_release fs fh) x = (ru, x1)" "x' = x1\<lparr>sh_own := sh_own x1 - {fh}\<rparr>"
    using assms(1) by (auto simp: interleaved_def split: prod.splits)
  obtain y s' where
    y: "I (sh_fs y)" "view (sh_fs y) = sh_view view x" "sh_live live y = sh_live live x" "sh_own y = sh_own x"
      "list_all (harmless I view live) (sh_others y)" "fs_release fs fh (sh_fs y) = (ru, s')" "x1 = y\<lparr>sh_fs := s'\<rparr>"
    by (rule shared_callE [OF c(1) assms(2)])
  from assms(3) [OF y(1,6)] have r: "I s'" "view s' = view (sh_fs y)" "live s' = (live (sh_fs y))(fh := None)" by auto
  have "sh_live live x' = (sh_live live y)(fh := None)"
    by (auto simp: c(2) y(7) sh_live_def r(3) restrict_map_def fun_eq_iff)
  with r y show ?thesis by (simp add: c(2) sh_inv_def sh_view_def)
qed

section \<open>The contract again\<close>

context ro_fs
begin

lemma interleaved_read:
  assumes "shared_call (read_at_buf fs fh off buf) x = ((rn, buf'), x')" "sh_inv inv view live x"
    and "sh_live live x fh = Some i" "view_data (sh_view view x) i = Some d"
  shows "sh_inv inv view live x' \<and> sh_view view x' = sh_view view x \<and> sh_live live x' = sh_live live x \<and>
    rn = Inr (min (length buf) (length d - unat off)) \<and>
    take (min (length buf) (length d - unat off)) buf' = take (length buf) (drop (unat off) d)"
proof -
  obtain y s' where
    y: "inv (sh_fs y)" "view (sh_fs y) = sh_view view x" "sh_live live y = sh_live live x" "sh_own y = sh_own x"
      "list_all (harmless inv view live) (sh_others y)" "read_at_buf fs fh off buf (sh_fs y) = ((rn, buf'), s')" "x' = y\<lparr>sh_fs := s'\<rparr>"
    by (rule shared_callE [OF assms(1,2)])
  have "live (sh_fs y) fh = Some i" using assms(3) unfolding y(3) [symmetric]
    by (simp add: sh_live_def restrict_map_def split: if_splits)
  moreover have "view_data (view (sh_fs y)) i = Some d" using assms(4) y(2) by simp
  ultimately show ?thesis using read_at_eq [OF y(1) _ _ y(6)] y by (simp add: sh_inv_def sh_view_def sh_live_def)
qed

lemma interleaved_contract:
  "ro_fs (interleaved fs) (sh_inv inv view live) (sh_view view) (sh_live live)"
proof (unfold_locales, goal_cases)
  case (1 x p nm rl x')
  then have c: "shared_call (fs_lookup fs p nm) x = (rl, x')" by simp
  from shared_call_result [OF c 1(1)] have
    "view_lookup (sh_view view x) p nm = (case rl of Inr a \<Rightarrow> Some a | Inl _ \<Rightarrow> None)" using lookup_eq by metis
  with shared_call_keeps [OF c 1(1)] lookup_eq show ?case by metis
next
  case (4 x i ra x')
  then have c: "shared_call (fs_getattr fs i) x = (ra, x')" by simp
  from shared_call_result [OF c 4(1)] have
    "ra = (case view_attr (sh_view view x) i of Some a \<Rightarrow> Inr a | None \<Rightarrow> Inl NotFound)" using getattr_eq by metis
  with shared_call_keeps [OF c 4(1)] getattr_eq show ?case by metis
next
  case (5 x i off rd x')
  then show ?case using shared_call_keeps [of "fs_readdir fs i off" x rd x' inv view live] readdir_keeps by simp
next
  case (6 x i es off rd x')
  then have "shared_call (fs_readdir fs i off) x = (rd, x')" by simp
  from shared_call_result [OF this 6(1)] 6(2) show ?case using readdir_page by metis
next
  case (7 x i d rh x')
  have "\<exists>fh. rh = Inr fh \<and> live s' = (live s)(fh \<mapsto> i) \<and> inv s' \<and> view s' = view s"
    if "inv s" "view s = sh_view view x" "fs_open fs i s = (rh, s')" for s s'
    using open_file [OF that(1) _ that(3), of d] 7(2) that(2) by auto
  then have "(\<exists>fh. rh = Inr fh) \<and> sh_inv inv view live x' \<and> sh_view view x' = sh_view view x \<and>
    sh_live live x' = (case rh of Inl _ \<Rightarrow> sh_live live x | Inr fh \<Rightarrow> (sh_live live x)(fh \<mapsto> i))"
    by (intro interleaved_open [OF 7(3,1), where P = "\<lambda>rh. \<exists>fh. rh = Inr fh"]) fastforce
  then show ?case by auto
next
  case (8 x fh i d off buf rn buf' x')
  then show ?case using interleaved_read [of fh off buf x rn buf' x' i d] by simp
next
  case (9 x fh ru x')
  then show ?case using interleaved_release [OF 9(2,1)] release_live by blast
qed (auto simp: sh_inv_def sh_view_def intro: lookup_attr lookup_listed list_short [simplified] data_size)

end

context ro_fs_stable
begin

lemma interleaved_stable:
  "ro_fs_stable (interleaved fs) (sh_inv inv view live) (sh_view view) (sh_live live)"
proof (intro ro_fs_stable.intro ro_fs_stable_axioms.intro interleaved_contract, goal_cases)
  case (1 x i rh x')
  from interleaved_open [OF 1(2,1), where P = "\<lambda>_. True"] open_keeps show ?case by blast
next
  case (2 x fh off buf rb x')
  then show ?case using shared_call_keeps [of "fs_read_at fs fh off buf" x rb x' inv view live] read_keeps by simp
next
  case (3 x rf x')
  then show ?case using shared_call_keeps [of "fs_statfs fs" x rf x' inv view live] statfs_keeps by simp
qed

text \<open>
  The calls of other workers are harmless: a look, a read; an open, when the handle it returns is not
  one this worker holds; the release of a handle this worker does not hold.
\<close>

lemma other_calls_harmless:
  "harmless inv view live (\<lambda>own s. snd (fs_lookup fs p nm s))"
  "harmless inv view live (\<lambda>own s. snd (fs_getattr fs i s))"
  "harmless inv view live (\<lambda>own s. snd (fs_readdir fs i off s))"
  "harmless inv view live (\<lambda>own s. snd (fs_statfs fs s))"
  "harmless inv view live (\<lambda>own s. snd (fs_read_at fs fh off buf s))"
  unfolding harmless_def
  using lookup_eq getattr_eq readdir_keeps statfs_keeps read_keeps by (metis prod.collapse)+

lemma other_opens_harmless:
  "harmless inv view live (\<lambda>own s. case fs_open fs i s of
     (Inl _, s') \<Rightarrow> s' | (Inr fh, s') \<Rightarrow> if fh \<in> own then s else s')"
  "harmless inv view live (\<lambda>own s. if fh \<in> own then s else snd (fs_release fs fh s))"
  unfolding harmless_def
  by (auto split: prod.split sum.split dest: open_keeps)
    (metis prod.collapse release_live fun_upd_other)+

end

context ro_fs_dirs
begin

lemma interleaved_dirs:
  "ro_fs_dirs (interleaved fs) (sh_inv inv view live) (sh_view view) (sh_live live)"
proof (intro ro_fs_dirs.intro ro_fs_dirs_axioms.intro interleaved_stable, goal_cases)
  case (1 x i off rd x')
  then have "shared_call (fs_readdir fs i off) x = (rd, x')" by simp
  from shared_call_result [OF this 1(1)] 1(2) readdir_refuses show ?case by metis
qed

end

section \<open>One worker among others\<close>

text \<open>A worker starts with no handle of its own.\<close>

definition shared_start :: "(file_handle set \<Rightarrow> 's \<Rightarrow> 's) list \<Rightarrow> 's \<Rightarrow> 's shared" where
  "shared_start others s = \<lparr>sh_fs = s, sh_own = {}, sh_others = others\<rparr>"

lemma shared_start_simps [simp]:
  "sh_inv I view live (shared_start others s) \<longleftrightarrow> I s \<and> list_all (harmless I view live) others"
  "sh_view view (shared_start others s) = view s" "sh_live live (shared_start others s) = Map.empty"
  by (simp_all add: shared_start_def sh_inv_def sh_view_def sh_live_def)

lemma no_own_live:
  assumes "sh_live live x \<subseteq>\<^sub>m Map.empty" "h \<in> sh_own x"
  shows "live (sh_fs x) h = None"
proof (rule ccontr)
  assume "live (sh_fs x) h \<noteq> None"
  then have dom: "h \<in> dom (sh_live live x)" using assms(2) by (simp add: sh_live_def domIff)
  with assms(1) have "sh_live live x h = None" unfolding map_le_def by blast
  with dom show False by (simp add: domIff)
qed

lemma no_more_shared:
  assumes "no_more_open (sh_inv I view live) (sh_view view) (sh_live live) (shared_start others s) x"
  shows "I (sh_fs x) \<and> view (sh_fs x) = view s \<and> (\<forall>h. h \<in> sh_own x \<longrightarrow> live (sh_fs x) h = None)"
proof -
  from assms have "sh_inv I view live x" "sh_view view x = view s" "sh_live live x \<subseteq>\<^sub>m Map.empty"
    by (simp_all add: no_more_open_def)
  then show ?thesis by (simp add: sh_inv_def sh_view_def) (metis no_own_live)
qed

text \<open>Two calls of another worker on the example filesystem: a lookup, and an open.\<close>

definition demo_others :: "(file_handle set \<Rightarrow> mem_fs \<Rightarrow> mem_fs) list" where
  "demo_others =
     [\<lambda>own s. snd (mem_lookup 0 0 ROOT_INO (ascii ''hello.txt'') s),
      \<lambda>own s. case mem_open (Ino 5) s of (Inl _, s') \<Rightarrow> s' | (Inr fh, s') \<Rightarrow> if fh \<in> own then s else s']"

lemma demo_others_harmless: "list_all (harmless mem_inv (mem_view 0 0) open_files) demo_others"
  using memfs_stable.other_calls_harmless(1) [of 0 0 ROOT_INO "ascii ''hello.txt''"]
    memfs_stable.other_opens_harmless(1) [of 0 0 "Ino 5"] by (simp add: demo_others_def)

end
