(* ===== verification/Cfapi_Clients.thy ===== *)
theory Cfapi_Clients
  imports Cfapi_Backend Shared_Fs
begin

text \<open>
  What the Cloud Files callbacks do to the filesystem they read: they change nothing it
  shows and leave no handle open, on success and on every failure, also while other callback
  threads call the same filesystem.
\<close>

section \<open>What the callbacks keep\<close>

definition reads_keep :: "'s read_only_fs \<Rightarrow> file_handle \<Rightarrow> ('s \<Rightarrow> bool) \<Rightarrow> bool" where
  "reads_keep fs fh R \<longleftrightarrow> (\<forall>off buf s rb s'. R s \<longrightarrow> read_at_buf fs fh off buf s = (rb, s') \<longrightarrow> R s')"

lemma reads_keepD: "reads_keep fs fh R \<Longrightarrow> R s \<Longrightarrow> read_at_buf fs fh off buf s = (rb, s') \<Longrightarrow> R s'"
  unfolding reads_keep_def by blast

lemma stream_loop_state:
  assumes "stream_loop wc fs info fh offset len buf sent ops s = Some y"
  shows "reads_keep fs fh R \<longrightarrow> R s \<longrightarrow> R (snd (snd y))"
proof (rule stream_loop.raw_induct [OF _ assms, where
      P = "\<lambda>wc fs info fh offset len buf sent ops s y. reads_keep fs fh R \<longrightarrow> R s \<longrightarrow> R (snd (snd y))"], goal_cases)
  case (1 f wc fs info fh offset len buf sent ops s y)
  show ?case
  proof (intro impI)
    assume K: "reads_keep fs fh R" and R: "R s"
    show "R (snd (snd y))"
    proof (cases "sent < len")
      case True
      let ?w = "unat (min (of_int (len - sent) :: u64) (of_nat (length buf)))"
      obtain r front s1 where ra: "read_at_buf fs fh (of_int (offset + sent)) (take ?w buf) s = ((r, front), s1)"
        by (metis prod.exhaust)
      from reads_keepD [OF K R ra] have "R s1" .
      then show ?thesis using 1 True ra K by (cases r) (auto simp: Let_def split: if_splits)
    qed (use 1(2) R in auto)
  qed
qed

context ro_fs_stable
begin

lemma stream_chunks_unchanged:
  assumes "unchanged inv view live s0 s" "stream_chunks wc fs info fh offset len s = Some (r, ops, s')"
  shows "unchanged inv view live s0 s'"
proof -
  have "reads_keep fs fh (unchanged inv view live s0)"
    unfolding reads_keep_def using calls_unchanged(5) by blast
  with stream_loop_state [of wc fs info fh offset len _ 0 "[]" s "(r, ops, s')"] assms show ?thesis
    by (auto simp: stream_chunks_def Let_def split: if_splits)
qed

lemma stream_fetch_no_more:
  assumes "inv s" "stream_fetch wc fs info i offset len s = Some (r, ops, s')"
  shows "no_more_open inv view live s s'"
proof -
  obtain rh s1 where o: "fs_open fs i s = (rh, s1)" by fastforce
  show ?thesis
  proof (cases rh)
    case (Inl e)
    with o open_keeps [OF assms(1) o] assms(2) show ?thesis by (auto simp: stream_fetch_def no_more_open_def)
  next
    case (Inr fh)
    with open_keeps [OF assms(1) o] have s1: "inv s1" "view s1 = view s" "live s1 = (live s)(fh \<mapsto> i)" by auto
    obtain s2 where c: "stream_chunks wc fs info fh offset len s1 = Some (r, ops, s2)" "s' = snd (fs_release fs fh s2)"
      using assms(2) o Inr by (auto simp: stream_fetch_def split: option.splits prod.splits)
    from stream_chunks_unchanged [OF unchanged_refl c(1)] s1
    have s2: "inv s2" "view s2 = view s" "live s2 = (live s)(fh \<mapsto> i)" by (auto simp: unchanged_def)
    from release_live [OF s2(1), of fh "fst (fs_release fs fh s2)" s'] c(2) s2(2,3) show ?thesis
      by (simp add: no_more_open_def map_le_def)
  qed
qed

lemma fetch_data_no_more:
  assumes "inv s" "handle_fetch_data wc fs info offset len s = Some (ops, s')"
  shows "no_more_open inv view live s s'"
  using assms(2) stream_fetch_no_more [OF assms(1)] no_more_open_refl [of inv s, OF assms(1)]
  by (auto simp: handle_fetch_data_def split: option.splits)

lemma prepare_entries_unchanged:
  "unchanged inv view live s0 s \<Longrightarrow> prepare_entries fs listed es s = (es', s') \<Longrightarrow> unchanged inv view live s0 s'"
proof (induction listed arbitrary: es s)
  case (Cons x listed)
  obtain i nm where x: "x = (i, nm)" by fastforce
  obtain ra s1 where ga: "fs_getattr fs i s = (ra, s1)" by fastforce
  from calls_unchanged(2) [OF Cons.prems(1) ga] Cons.IH Cons.prems(2) x ga show ?case
    by (cases ra) auto
qed simp

lemma fetch_placeholders_no_more:
  assumes "inv s" "handle_fetch_placeholders wc wa fs info s = Some (ops, s')"
  shows "no_more_open inv view live s s'"
proof -
  have K: "keeps_state fs dir listed_sink (unchanged inv view live s)" for dir
    unfolding keeps_state_def listed_sink_def by (auto dest: calls_unchanged)
  have l: "unchanged inv view live s s1" if "list_placeholders fs dir s = Some (r, s1)" for dir r s1
    using that emit_state [OF K unchanged_refl] prepare_entries_unchanged assms(1)
    by (fastforce simp: list_placeholders_def split: option.splits prod.splits sum.splits)
  from assms(2) l unchanged_refl [of inv s, OF assms(1)] have "unchanged inv view live s s'"
    by (auto simp: handle_fetch_placeholders_def split: option.splits if_splits sum.splits)
  then show ?thesis by (rule unchanged_no_more)
qed

end

section \<open>A session of callbacks\<close>

text \<open>
  What the platform calls, with the arguments it passes, and the callbacks of one thread in the
  order it gets them; the result is everything that was executed.
\<close>

datatype cf_callback = FetchData cf_callback_info i64 i64 | FetchPlaceholders cf_callback_info

fun run_callback ::
  "windows_codes \<Rightarrow> win_file_attributes \<Rightarrow> 's read_only_fs \<Rightarrow> cf_callback \<Rightarrow> 's \<Rightarrow> (cf_execute list \<times> 's) option" where
  "run_callback wc wa fs (FetchData info offset len) s = handle_fetch_data wc fs info offset len s"
| "run_callback wc wa fs (FetchPlaceholders info) s = handle_fetch_placeholders wc wa fs info s"

fun run_callbacks ::
  "windows_codes \<Rightarrow> win_file_attributes \<Rightarrow> 's read_only_fs \<Rightarrow> cf_callback list \<Rightarrow> 's \<Rightarrow> (cf_execute list \<times> 's) option" where
  "run_callbacks wc wa fs [] s = Some ([], s)"
| "run_callbacks wc wa fs (cb # cbs) s =
     (case run_callback wc wa fs cb s of
        None \<Rightarrow> None
      | Some (ops, s) \<Rightarrow>
          (case run_callbacks wc wa fs cbs s of
             None \<Rightarrow> None
           | Some (ops', s) \<Rightarrow> Some (ops @ ops', s)))"

text \<open>The arguments of a fetch are 64-bit integers; nothing else is asked of what the platform passes.\<close>

fun callback_typed :: "cf_callback \<Rightarrow> bool" where
  "callback_typed (FetchData info offset len) \<longleftrightarrow>
     - (2 ^ 63) \<le> offset \<and> offset < 2 ^ 63 \<and> - (2 ^ 63) \<le> len \<and> len < 2 ^ 63"
| "callback_typed (FetchPlaceholders info) \<longleftrightarrow> True"

text \<open>
  The loop of a fetch ends for every offset, also where the offset runs over: what is sent grows with
  every turn and never over the length.
\<close>

lemma stream_loop_returns:
  assumes "len < 2 ^ 63" "0 \<le> sent" "sent \<le> len" "0 < length buf" "length buf \<le> TRANSFER_CHUNK"
  shows "\<exists>y. stream_loop wc fs info fh offset len buf sent ops s = Some y"
  using assms(2-5)
proof (induction "nat (len - sent)" arbitrary: sent buf ops s rule: less_induct)
  case less
  show ?case
  proof (cases "sent < len")
    case False
    from stream_loop_end [OF this, of wc fs info fh offset buf ops s] show ?thesis by blast
  next
    case True
    define w where "w = min (nat (len - sent)) (length buf)"
    have want: "unat (min (of_int (len - sent) :: u64) (of_nat (length buf))) = w"
      using want_eq [OF less(2) True assms(1) less(5)] w_def by simp
    obtain r front s1 where ra: "read_at_buf fs fh (of_int (offset + sent)) (take w buf) s = ((r, front), s1)"
      by (metis prod.exhaust)
    have fl: "length front = w" using read_at_buf_length [OF ra] w_def by simp
    have go: "\<exists>y. stream_loop wc fs info fh offset len (front @ drop w buf) (i64_wrap (sent + int (min n w))) ops' s1 = Some y"
      if "n \<noteq> 0" for n ops'
    proof -
      have m: "0 < min n w" "int (min n w) \<le> len - sent" "w \<le> length buf"
        using that True less(4) by (auto simp: w_def)
      then have wrap: "i64_wrap (sent + int (min n w)) = sent + int (min n w)"
        using assms(1) less(2) by (intro i64_wrap_id) linarith+
      show ?thesis unfolding wrap using m fl less(2,4,5) True by (intro less(1)) auto
    qed
    show ?thesis using True go
      by (subst stream_loop.simps, unfold want ra Let_def) (simp split: sum.split)
  qed
qed

lemma stream_chunks_returns:
  assumes "len < 2 ^ 63"
  shows "\<exists>y. stream_chunks wc fs info fh offset len s = Some y"
proof (cases "0 < len")
  case True
  have "0 < length (replicate (min TRANSFER_CHUNK (nat len)) (0 :: u8))"
    "length (replicate (min TRANSFER_CHUNK (nat len)) (0 :: u8)) \<le> TRANSFER_CHUNK"
    using True by (simp_all add: TRANSFER_CHUNK_def)
  from stream_loop_returns [OF assms _ _ this, of 0 wc fs info fh offset "[]" s] True show ?thesis
    by (simp add: stream_chunks_def Let_def)
qed (simp add: stream_chunks_def)

lemma fetch_data_returns:
  assumes "len < 2 ^ 63"
  shows "\<exists>ops s'. handle_fetch_data wc fs info offset len s = Some (ops, s')"
proof -
  have "stream_chunks wc fs info fh offset len s1 \<noteq> None" for fh s1
    using stream_chunks_returns [OF assms, of wc fs info fh offset s1] by simp
  then have "stream_fetch wc fs info i offset len s \<noteq> None" for i
    by (simp add: stream_fetch_def del: not_None_eq split: prod.split sum.split option.split)
  then show ?thesis by (simp add: handle_fetch_data_def del: not_None_eq split: option.split)
qed

context ro_fs_dirs
begin

text \<open>A directory is listed; for anything else the listing is an error.\<close>

lemma list_placeholders_returns:
  assumes "inv s"
  shows "\<exists>y. list_placeholders fs dir s = Some y"
proof (cases "view_list (view s) dir")
  case None
  obtain rd s1 where rd: "fs_readdir fs dir (trait_offset 0) s = (rd, s1)" by fastforce
  from readdir_refuses [OF assms None rd] obtain e where "rd = Inl e" by (auto simp: isl_def)
  with rd show ?thesis
    by (simp add: list_placeholders_def emit_def Let_def emit_loop.simps [of fs dir listed_sink])
next
  case (Some es)
  from list_placeholders_correct [OF assms Some] show ?thesis by blast
qed

lemma fetch_placeholders_returns:
  assumes "inv s"
  shows "\<exists>ops s'. handle_fetch_placeholders wc wa fs info s = Some (ops, s')"
proof -
  have "list_placeholders fs dir s \<noteq> None" for dir using list_placeholders_returns [OF assms, of dir] by simp
  then show ?thesis
    unfolding handle_fetch_placeholders_def by (simp del: not_None_eq split: option.split sum.split)
qed

lemma run_callback_no_more:
  assumes "inv s" "callback_typed cb"
  shows "\<exists>ops s'. run_callback wc wa fs cb s = Some (ops, s') \<and> no_more_open inv view live s s'"
proof (cases cb)
  case (FetchData info offset len)
  with assms(2) have "len < 2 ^ 63" by simp
  from fetch_data_returns [OF this, of wc fs info offset s] obtain ops s' where
    "handle_fetch_data wc fs info offset len s = Some (ops, s')" by blast
  with fetch_data_no_more [OF assms(1) this] FetchData show ?thesis by simp
next
  case (FetchPlaceholders info)
  from fetch_placeholders_returns [OF assms(1), of wc wa info] obtain ops s' where
    "handle_fetch_placeholders wc wa fs info s = Some (ops, s')" by blast
  with fetch_placeholders_no_more [OF assms(1) this] FetchPlaceholders show ?thesis by simp
qed

lemma run_callbacks_no_more:
  "inv s \<Longrightarrow> list_all callback_typed cbs \<Longrightarrow>
    \<exists>ops s'. run_callbacks wc wa fs cbs s = Some (ops, s') \<and> no_more_open inv view live s s'"
proof (induction cbs arbitrary: s)
  case (Cons cb cbs)
  then obtain ops s1 where cb: "run_callback wc wa fs cb s = Some (ops, s1)" "no_more_open inv view live s s1"
    using run_callback_no_more [of s cb wc wa] by auto
  then have "inv s1" by (simp add: no_more_open_def)
  with Cons obtain ops' s2 where
    "run_callbacks wc wa fs cbs s1 = Some (ops', s2)" "no_more_open inv view live s1 s2" by fastforce
  with cb show ?case by (auto intro: no_more_open_trans)
qed (simp add: no_more_open_refl)

end

section \<open>Properties\<close>

text \<open>
  C15: The Cloud Files callbacks change nothing and leave nothing open. For every filesystem that
  keeps its contract, listing what is not a directory being an error included, every
  sequence of callbacks with any identities and any 64-bit ranges, and whatever the other callback
  threads call meanwhile as long as they leave this thread's handles alone, every callback
  returns; afterwards the filesystem shows exactly what it showed before, and of the handles this
  thread opened none is live.
\<close>

theorem cfapi_callbacks_change_nothing:
  assumes "ro_fs_dirs fs I view live" "I s" "list_all (harmless I view live) others"
    and "list_all callback_typed cbs"
  shows "\<exists>ops x. run_callbacks wc wa (interleaved fs) cbs (shared_start others s) = Some (ops, x) \<and>
    I (sh_fs x) \<and> view (sh_fs x) = view s \<and> (\<forall>h. h \<in> sh_own x \<longrightarrow> live (sh_fs x) h = None)"
proof -
  have "ro_fs_dirs (interleaved fs) (sh_inv I view live) (sh_view view) (sh_live live)"
    using assms(1) by (rule ro_fs_dirs.interleaved_dirs)
  from ro_fs_dirs.run_callbacks_no_more [OF this, of "shared_start others s" cbs wc wa] assms(2-4)
  obtain ops x where run: "run_callbacks wc wa (interleaved fs) cbs (shared_start others s) = Some (ops, x)"
    "no_more_open (sh_inv I view live) (sh_view view) (sh_live live) (shared_start others s) x" by auto
  from no_more_shared [OF run(2)] run(1) show ?thesis by blast
qed

theorem cfapi_callbacks_change_nothing_witness:
  "\<exists>ops x. run_callbacks sample_codes \<lparr>FILE_ATTRIBUTE_DIRECTORY = 16, FILE_ATTRIBUTE_READONLY = 1\<rparr>
      (interleaved (mem_impl 0 0))
      [FetchPlaceholders (callback_for 1), FetchPlaceholders (callback_for 5), FetchPlaceholders (callback_for 99),
       FetchData (callback_for 5) 4 100, FetchData (callback_for 1) 0 4096, FetchData (callback_for 99) (-1) (2 ^ 63 - 1)]
      (shared_start demo_others mem_fs_new) = Some (ops, x) \<and>
    mem_inv (sh_fs x) \<and> mem_view 0 0 (sh_fs x) = mem_view 0 0 mem_fs_new \<and>
    (\<forall>h. h \<in> sh_own x \<longrightarrow> open_files (sh_fs x) h = None)"
proof -
  have ok: "list_all callback_typed
      [FetchPlaceholders (callback_for 1), FetchPlaceholders (callback_for 5), FetchPlaceholders (callback_for 99),
       FetchData (callback_for 5) 4 100, FetchData (callback_for 1) 0 4096, FetchData (callback_for 99) (-1) (2 ^ 63 - 1)]"
    by simp
  from cfapi_callbacks_change_nothing [OF memfs_dirs.ro_fs_dirs_axioms mem_fs_new_inv demo_others_harmless ok]
  show ?thesis .
qed

end
