(* ===== verification/Cfapi_Mount.thy ===== *)
theory Cfapi_Mount
  imports Cfapi_Backend Mount_Lifecycle
begin

text \<open>
  Making and unmaking a Cloud Files mount, \<open>mount\<close>, \<open>unmount\<close> and
  \<open>remove_leftover_placeholders\<close> of \<open>src/backend/cfapi.rs\<close>. The functions of the platform and of
  \<open>std::fs\<close> they call are answered by an environment, a function of the calls made so far, and
  the state passed on is the trace of the calls with whether each succeeded.

  The lemmas follow the sync root through a trace: not registered, registered, connected. Every
  mount that fails has asked for its registration back, every teardown asks for both steps back
  and clears the directory, whatever fails on the way; what the platform refuses to take back is
  accounted for as such.
\<close>

section \<open>The platform\<close>

record platform_info =
  pi_build :: u32
  pi_revision :: u32
  pi_integration :: u32

datatype hydration_primary = HydrationFull
datatype hydration_modifier = StreamingAllowed | AutoDehydrationAllowed
datatype population_primary = PopulationPartial
datatype population_modifier = PopulationModifierNone
datatype insync_policy = InSyncNone
datatype hardlink_policy = HardLinkNone
datatype placeholder_management = PlaceholderManagementDefault

record cf_sync_policies =
  sp_hydration :: hydration_primary
  sp_hydration_modifier :: "hydration_modifier list"
  sp_population :: population_primary
  sp_population_modifier :: population_modifier
  sp_in_sync :: insync_policy
  sp_hard_link :: hardlink_policy
  sp_placeholder_management :: placeholder_management

record cf_sync_registration =
  sr_provider_name :: "u16 list"
  sr_provider_version :: "u16 list"
  sr_sync_root_identity :: bytes
  sr_file_identity :: bytes
  sr_provider_id :: "128 word"

datatype cf_callback_type = CbFetchData | CbFetchPlaceholders

text \<open>A connection that was made is recorded with the key the platform returned for it.\<close>

datatype cf_call =
    CfGetPlatformInfo
  | CfRegisterSyncRoot "u16 list" cf_sync_registration cf_sync_policies
  | CfConnectSyncRoot "u16 list" "cf_callback_type list" "i64 option"
  | CfDisconnectSyncRoot i64
  | CfUnregisterSyncRoot "u16 list"
  | FsReadDir string | FsMetadata string | FsSetWritable string
  | FsRemoveDirAll string | FsRemoveFile string

type_synonym cf_trace = "(cf_call \<times> bool) list"

text \<open>
  What \<open>read_dir\<close> yields: an error, or the path of an entry and whether its \<open>file_type\<close> is
  a directory (an error there counts as a file).
\<close>

record cf_env =
  cfe_platform :: "cf_trace \<Rightarrow> win_error + platform_info"
  cfe_call :: "cf_trace \<Rightarrow> cf_call \<Rightarrow> win_error + unit"
  cfe_connect :: "cf_trace \<Rightarrow> win_error + i64"
  cfe_read_dir :: "cf_trace \<Rightarrow> io_error + (io_error + (string \<times> (io_error + bool))) list"
  cfe_readonly :: "cf_trace \<Rightarrow> string \<Rightarrow> io_error + bool"
  cfe_io :: "cf_trace \<Rightarrow> cf_call \<Rightarrow> io_error + unit"

definition cf_log :: "cf_call \<Rightarrow> bool \<Rightarrow> cf_trace \<Rightarrow> cf_trace" where
  "cf_log c ok tr = tr @ [(c, ok)]"

definition cf_try :: "cf_env \<Rightarrow> cf_call \<Rightarrow> cf_trace \<Rightarrow> (win_error + unit) \<times> cf_trace" where
  "cf_try env c tr = (let r = cfe_call env tr c in (r, cf_log c (\<not> isl r) tr))"

definition cf_io :: "cf_env \<Rightarrow> cf_call \<Rightarrow> cf_trace \<Rightarrow> cf_trace" where
  "cf_io env c tr = cf_log c (\<not> isl (cfe_io env tr c)) tr"

section \<open>Mounting\<close>

definition CFAPI_CAPS :: caps where
  "CFAPI_CAPS =
     \<lparr>caps_name = ''cfapi'', caps_allow_other = False, caps_auto_unmount = False, caps_threads = False,
      caps_empty_mountpoint = True, caps_nfs_local_socket = False\<rparr>"

definition PROVIDER_ID :: "128 word" where
  "PROVIDER_ID = 0x38f69b725e8a4f5388e96b09e09b88c6"

definition probe :: "cf_env \<Rightarrow> cf_trace \<Rightarrow> platform_info option \<times> cf_trace" where
  "probe env tr =
     (let r = cfe_platform env tr
      in ((case r of Inr info \<Rightarrow> Some info | Inl _ \<Rightarrow> None), cf_log CfGetPlatformInfo (\<not> isl r) tr))"

definition register_sync_root ::
  "windows_codes \<Rightarrow> cf_env \<Rightarrow> u16 list \<Rightarrow> rust_str \<Rightarrow> cf_trace \<Rightarrow> unit fs_result \<times> cf_trace" where
  "register_sync_root wc env path_wide fs_name tr =
     (let registration =
            \<lparr>sr_provider_name = to_wide (str_utf8 fs_name), sr_provider_version = to_wide (ascii ''1.0.0''),
             sr_sync_root_identity = [], sr_file_identity = [], sr_provider_id = PROVIDER_ID\<rparr>;
          policies =
            \<lparr>sp_hydration = HydrationFull, sp_hydration_modifier = [StreamingAllowed, AutoDehydrationAllowed],
             sp_population = PopulationPartial, sp_population_modifier = PopulationModifierNone,
             sp_in_sync = InSyncNone, sp_hard_link = HardLinkNone,
             sp_placeholder_management = PlaceholderManagementDefault\<rparr>
      in case cf_try env (CfRegisterSyncRoot path_wide registration policies) tr of
           (Inl e, tr) \<Rightarrow> (Inl (fs_error_from_win wc e), tr)
         | (Inr _, tr) \<Rightarrow> (Inr (), tr))"

definition connect_sync_root :: "windows_codes \<Rightarrow> cf_env \<Rightarrow> u16 list \<Rightarrow> cf_trace \<Rightarrow> i64 fs_result \<times> cf_trace" where
  "connect_sync_root wc env path_wide tr =
     (let r = cfe_connect env tr;
          key = (case r of Inr k \<Rightarrow> Some k | Inl _ \<Rightarrow> None);
          tr = cf_log (CfConnectSyncRoot path_wide [CbFetchData, CbFetchPlaceholders] key) (\<not> isl r) tr
      in case r of
           Inl e \<Rightarrow> (Inl (fs_context ''connecting the cfapi sync root'' (fs_error_from_win wc e)), tr)
         | Inr key \<Rightarrow> (Inr key, tr))"

text \<open>The handle keeps the filesystem its callbacks use until it is dropped.\<close>

record 'f cfapi_handle =
  cah_mountpoint :: string
  cah_connection :: i64
  cah_context :: 'f

definition cfapi_mount ::
  "windows_codes \<Rightarrow> host \<Rightarrow> cf_env \<Rightarrow> 'f \<Rightarrow> mount_builder \<Rightarrow> cf_trace \<Rightarrow> 'f cfapi_handle fs_result \<times> cf_trace" where
  "cfapi_mount wc hst env fs b tr =
     (case preflight_check hst b CFAPI_CAPS of
        Inl e \<Rightarrow> (Inl e, tr)
      | Inr _ \<Rightarrow>
          (case probe env tr of
             (None, tr) \<Rightarrow>
               (Inl (Unsupported ''Cloud Files API unavailable: requires Windows 10 1709 or later''), tr)
           | (Some _, tr) \<Rightarrow>
               (let path_wide = to_wide (ascii (mb_mountpoint b))
                in case register_sync_root wc env path_wide (mb_fs_name b) tr of
                     (Inl e, tr) \<Rightarrow> (Inl (fs_context ''registering the cfapi sync root'' e), tr)
                   | (Inr _, tr) \<Rightarrow>
                       (case connect_sync_root wc env path_wide tr of
                          (Inr connection, tr) \<Rightarrow>
                            (Inr \<lparr>cah_mountpoint = mb_mountpoint b, cah_connection = connection,
                                  cah_context = fs\<rparr>, tr)
                        | (Inl e, tr) \<Rightarrow>
                            (case cf_try env (CfUnregisterSyncRoot path_wide) tr of (_, tr) \<Rightarrow> (Inl e, tr))))))"

section \<open>Unmounting\<close>

text \<open>One entry: a read-only file is made writable first; failures are logged.\<close>

definition remove_entry :: "cf_env \<Rightarrow> string \<times> (io_error + bool) \<Rightarrow> cf_trace \<Rightarrow> cf_trace" where
  "remove_entry env entry tr =
     (let path = fst entry;
          is_dir = (case snd entry of Inr d \<Rightarrow> d | Inl _ \<Rightarrow> False);
          tr = (if \<not> is_dir then
                  (let r = cfe_readonly env tr path; tr = cf_log (FsMetadata path) (\<not> isl r) tr
                   in case r of
                        Inr readonly \<Rightarrow> if readonly then cf_io env (FsSetWritable path) tr else tr
                      | Inl _ \<Rightarrow> tr)
                else tr)
      in cf_io env (if is_dir then FsRemoveDirAll path else FsRemoveFile path) tr)"

definition remove_leftover_placeholders :: "cf_env \<Rightarrow> string \<Rightarrow> cf_trace \<Rightarrow> cf_trace" where
  "remove_leftover_placeholders env mountpoint tr =
     (let r = cfe_read_dir env tr; tr = cf_log (FsReadDir mountpoint) (\<not> isl r) tr
      in case r of
           Inl _ \<Rightarrow> tr
         | Inr entries \<Rightarrow>
             fold (remove_entry env) (concat (map (\<lambda>x. case x of Inr e \<Rightarrow> [e] | Inl _ \<Rightarrow> []) entries)) tr)"

definition cfapi_unmount ::
  "windows_codes \<Rightarrow> cf_env \<Rightarrow> 'f cfapi_handle \<Rightarrow> cf_trace \<Rightarrow> unit fs_result \<times> cf_trace" where
  "cfapi_unmount wc env h tr =
     (case cf_try env (CfDisconnectSyncRoot (cah_connection h)) tr of
        (r1, tr) \<Rightarrow>
          (let disconnected = (case r1 of
                 Inl e \<Rightarrow> Inl (fs_context ''disconnecting the cfapi sync root'' (fs_error_from_win wc e))
               | Inr _ \<Rightarrow> Inr ());
               wide = to_wide (ascii (cah_mountpoint h))
           in case cf_try env (CfUnregisterSyncRoot wide) tr of
                (r2, tr) \<Rightarrow>
                  (let unregistered = (case r2 of
                         Inl e \<Rightarrow> Inl (fs_context ''unregistering the cfapi sync root'' (fs_error_from_win wc e))
                       | Inr _ \<Rightarrow> Inr ());
                       tr = remove_leftover_placeholders env (cah_mountpoint h) tr
                   in (case (disconnected, unregistered) of
                         (Inl e, Inl second) \<Rightarrow> Inl e
                       | (Inl e, Inr _) \<Rightarrow> Inl e
                       | (Inr _, Inl e) \<Rightarrow> Inl e
                       | (Inr _, Inr _) \<Rightarrow> Inr (), tr))))"

definition cfapi_mounted :: "windows_codes \<Rightarrow> cf_env \<Rightarrow> ('f cfapi_handle, cf_trace) mounted" where
  "cfapi_mounted wc env =
     \<lparr>md_unmount = cfapi_unmount wc env, md_backend = (\<lambda>_. CfApi), md_uses_local_socket = (\<lambda>_. False)\<rparr>"

section \<open>What a trace leaves behind\<close>

text \<open>
  What the platform keeps for this process: sync roots that are registered, connections that
  are open. Both can be refused to be taken back.
\<close>

datatype cf_resource = CrRegistration "u16 list" | CrConnection i64

fun cf_release_call :: "cf_resource \<Rightarrow> cf_call option" where
  "cf_release_call (CrRegistration p) = Some (CfUnregisterSyncRoot p)"
| "cf_release_call (CrConnection k) = Some (CfDisconnectSyncRoot k)"

definition cf_nothing :: "cf_resource ledger" where
  "cf_nothing = \<lparr>lg_held = {}, lg_refused = {}\<rparr>"

fun cf_account_step :: "cf_call \<times> bool \<Rightarrow> cf_resource ledger \<Rightarrow> cf_resource ledger" where
  "cf_account_step (CfRegisterSyncRoot p r q, ok) a = (if ok then ledger_take (CrRegistration p) a else a)"
| "cf_account_step (CfUnregisterSyncRoot p, ok) a = ledger_give ok (CrRegistration p) a"
| "cf_account_step (CfConnectSyncRoot p t (Some k), ok) a = (if ok then ledger_take (CrConnection k) a else a)"
| "cf_account_step (CfDisconnectSyncRoot k, ok) a = ledger_give ok (CrConnection k) a"
| "cf_account_step (c, ok) a = a"

definition cf_account :: "cf_trace \<Rightarrow> cf_resource ledger" where
  "cf_account tr = fold cf_account_step tr cf_nothing"

definition cf_released :: "cf_trace \<Rightarrow> bool" where
  "cf_released tr \<longleftrightarrow> lg_held (cf_account tr) = {} \<and>
     (\<forall>x\<in>lg_refused (cf_account tr). \<exists>c. cf_release_call x = Some c \<and> (c, False) \<in> set tr)"

definition cf_holds :: "'f cfapi_handle \<Rightarrow> cf_trace \<Rightarrow> bool" where
  "cf_holds h tr \<longleftrightarrow>
     lg_held (cf_account tr) = {CrRegistration (to_wide (ascii (cah_mountpoint h))), CrConnection (cah_connection h)}"

interpretation cf_ledger: ledger_account cf_account_step cf_nothing cf_release_call
proof
  show "lg_refused cf_nothing = {}" by (simp add: cf_nothing_def)
  show "x \<in> lg_refused (cf_account_step (c, ok) l) \<Longrightarrow> x \<in> lg_refused l \<or> \<not> ok \<and> cf_release_call x = Some c" for x c ok l
    by (cases "((c, ok), l)" rule: cf_account_step.cases) (auto dest!: ledger_refused_give split: if_splits)
qed

lemma cf_released_iff: "cf_released tr \<longleftrightarrow> lg_held (cf_account tr) = {}"
  using cf_ledger.refused_recorded by (auto simp: cf_released_def cf_account_def)

lemma cf_account_log [simp]: "cf_account (cf_log c ok tr) = cf_account_step (c, ok) (cf_account tr)"
  by (simp add: cf_account_def cf_log_def)

lemma cf_account_io [simp]: "cf_account (cf_io env c tr) = cf_account_step (c, \<not> isl (cfe_io env tr c)) (cf_account tr)"
  by (simp add: cf_io_def)

lemma cf_account_remove_entry [simp]: "cf_account (remove_entry env e tr) = cf_account tr"
  by (auto simp: remove_entry_def Let_def split: sum.split)

lemma cf_account_fold_remove [simp]: "cf_account (fold (remove_entry env) es tr) = cf_account tr"
  by (induction es arbitrary: tr) simp_all

lemma cf_account_leftover [simp]: "cf_account (remove_leftover_placeholders env mp tr) = cf_account tr"
  by (simp add: remove_leftover_placeholders_def Let_def split: sum.split)

lemma account_cf_try: "cf_try env c tr = (r, tr') \<Longrightarrow> cf_account tr' = cf_account_step (c, \<not> isl r) (cf_account tr)"
  by (auto simp: cf_try_def Let_def)

lemma cfapi_unmount_releases:
  assumes "cf_holds h tr" "cfapi_unmount wc env h tr = (r, tr')"
  shows "cf_released tr'"
proof -
  let ?wide = "to_wide (ascii (cah_mountpoint h))"
  obtain r1 tr1 where d: "cf_try env (CfDisconnectSyncRoot (cah_connection h)) tr = (r1, tr1)" by fastforce
  obtain r2 tr2 where u: "cf_try env (CfUnregisterSyncRoot ?wide) tr1 = (r2, tr2)" by fastforce
  have "tr' = remove_leftover_placeholders env (cah_mountpoint h) tr2"
    using assms(2) by (simp add: cfapi_unmount_def d u Let_def)
  with account_cf_try [OF d] account_cf_try [OF u] assms(1) show ?thesis
    by (auto simp: cf_holds_def cf_released_iff)
qed

lemma account_probe: "probe env tr = (x, tr') \<Longrightarrow> cf_account tr' = cf_account tr"
  by (auto simp: probe_def Let_def)

lemma account_register:
  "register_sync_root wc env p name tr = (r, tr') \<Longrightarrow>
     cf_account tr' = (case r of Inr _ \<Rightarrow> ledger_take (CrRegistration p) (cf_account tr) | Inl _ \<Rightarrow> cf_account tr)"
  by (auto simp: register_sync_root_def cf_try_def Let_def split: sum.splits)

lemma account_connect:
  "connect_sync_root wc env p tr = (r, tr') \<Longrightarrow>
     cf_account tr' = (case r of Inr k \<Rightarrow> ledger_take (CrConnection k) (cf_account tr) | Inl _ \<Rightarrow> cf_account tr)"
  by (auto simp: connect_sync_root_def Let_def split: sum.splits)

lemma cfapi_mount_accounts:
  assumes "cf_released tr" "cfapi_mount wc hst env fs b tr = (r, tr')"
  shows "case r of Inr h \<Rightarrow> cf_holds h tr' | Inl _ \<Rightarrow> cf_released tr'"
  using assms
  by (auto simp: cfapi_mount_def Let_def cf_released_iff cf_holds_def
      dest!: account_probe account_register account_connect account_cf_try
      split: prod.splits sum.splits option.splits)

interpretation cfapi_backend: backend_contract "cfapi_mounted wc env" cf_holds cf_released "cfapi_mount wc hst env fs"
  for wc env hst fs
proof
  show "cf_holds h w \<Longrightarrow> md_unmount (cfapi_mounted wc env) h w = (r, w') \<Longrightarrow> cf_released w'" for h w r w'
    using cfapi_unmount_releases by (simp add: cfapi_mounted_def)
  show "cf_released w \<Longrightarrow> cfapi_mount wc hst env fs b w = (r, w') \<Longrightarrow>
      (case r of Inr h \<Rightarrow> cf_holds h w' | Inl _ \<Rightarrow> cf_released w')" for w b r w'
    by (rule cfapi_mount_accounts)
qed

section \<open>Clearing the directory\<close>

text \<open>The removals of a trace, and the one an entry calls for.\<close>

definition removals :: "cf_trace \<Rightarrow> cf_call list" where
  "removals tr = filter (\<lambda>c. case c of FsRemoveDirAll _ \<Rightarrow> True | FsRemoveFile _ \<Rightarrow> True | _ \<Rightarrow> False) (map fst tr)"

definition removal_of :: "string \<times> (io_error + bool) \<Rightarrow> cf_call" where
  "removal_of e = (if snd e = Inr True then FsRemoveDirAll (fst e) else FsRemoveFile (fst e))"

lemma removals_append [simp]: "removals (a @ b) = removals a @ removals b"
  by (simp add: removals_def)

lemma removals_entry: "removals (remove_entry env e tr) = removals tr @ [removal_of e]"
  by (auto simp: remove_entry_def removal_of_def Let_def cf_io_def cf_log_def removals_def split: sum.split)

lemma removals_fold: "removals (fold (remove_entry env) es tr) = removals tr @ map removal_of es"
  by (induction es arbitrary: tr) (simp_all add: removals_entry)

lemma remove_entry_extends: "\<exists>x. remove_entry env e tr = tr @ x"
  by (auto simp: remove_entry_def Let_def cf_io_def cf_log_def split: sum.split)

lemma fold_remove_extends: "\<exists>x. fold (remove_entry env) es tr = tr @ x"
proof (induction es arbitrary: tr)
  case (Cons e es)
  with remove_entry_extends [of env e tr] show ?case by (metis append.assoc fold_simps(2))
qed simp

text \<open>The entries a directory listing yields, without the ones that could not be read.\<close>

definition readable :: "(io_error + (string \<times> (io_error + bool))) list \<Rightarrow> (string \<times> (io_error + bool)) list" where
  "readable es = concat (map (\<lambda>x. case x of Inr e \<Rightarrow> [e] | Inl _ \<Rightarrow> []) es)"

lemma leftover_removals:
  "\<exists>rest. remove_leftover_placeholders env mp tr = tr @ [(FsReadDir mp, \<not> isl (cfe_read_dir env tr))] @ rest \<and>
    removals rest = (case cfe_read_dir env tr of Inl _ \<Rightarrow> [] | Inr es \<Rightarrow> map removal_of (readable es))"
proof (cases "cfe_read_dir env tr")
  case (Inl e)
  then show ?thesis by (simp add: remove_leftover_placeholders_def cf_log_def removals_def)
next
  case (Inr es)
  let ?tr = "tr @ [(FsReadDir mp, True)]"
  obtain x where x: "fold (remove_entry env) (readable es) ?tr = ?tr @ x" using fold_remove_extends by blast
  have "removals x = map removal_of (readable es)"
    using removals_fold [of env "readable es" ?tr] unfolding x by (simp add: removals_def)
  with x Inr show ?thesis by (simp add: remove_leftover_placeholders_def cf_log_def readable_def)
qed

section \<open>Properties\<close>

text \<open>
  C27: Whatever the platform answers, a Cloud Files mount accounts for the sync root. A mount
  that fails, at whichever call, keeps no connection and has asked for its registration to be
  taken back; a mount that succeeds holds exactly its own registration and connection;
  unmounting or dropping it asks for both back even when one of them is refused. What is left after a
  failed mount or a teardown was refused: the call that takes it back was made and failed, so that
  nothing is left when no such call fails.
\<close>

theorem cfapi_lifecycle_releases:
  "case cfapi_mount wc hst env fs b [] of
     (Inl _, tr) \<Rightarrow> cf_released tr
   | (Inr h, tr) \<Rightarrow> cf_holds h tr \<and>
       cf_released (snd (mount_unmount (cfapi_mounted wc env) (mount_new (cfapi_mounted wc env) h p) tr)) \<and>
       cf_released (snd (mount_drop (cfapi_mounted wc env) (mount_new (cfapi_mounted wc env) h p) tr))"
  by (rule cfapi_backend.lifecycle_releases) (simp add: cf_released_iff cf_account_def cf_nothing_def)

text \<open>
  C28: Teardown never stops half way. Unmounting disconnects, then unregisters, then lists the
  directory, in that order and whatever fails, and tries to remove every entry it could list,
  each once, directories with everything in them; it reports the disconnect's error if there
  is one, otherwise the unregistration's, and succeeds exactly when both succeeded.
\<close>

theorem cfapi_unmount_complete:
  "\<exists>ok1 ok2 ok3 rest. snd (cfapi_unmount wc env h tr) =
      tr @ [(CfDisconnectSyncRoot (cah_connection h), ok1),
            (CfUnregisterSyncRoot (to_wide (ascii (cah_mountpoint h))), ok2),
            (FsReadDir (cah_mountpoint h), ok3)] @ rest \<and>
    (ok1 \<longleftrightarrow> \<not> isl (cfe_call env tr (CfDisconnectSyncRoot (cah_connection h)))) \<and>
    fst (cfapi_unmount wc env h tr) =
      (case cfe_call env tr (CfDisconnectSyncRoot (cah_connection h)) of
         Inl e \<Rightarrow> Inl (fs_context ''disconnecting the cfapi sync root'' (fs_error_from_win wc e))
       | Inr _ \<Rightarrow>
           (case cfe_call env (tr @ [(CfDisconnectSyncRoot (cah_connection h), ok1)])
                   (CfUnregisterSyncRoot (to_wide (ascii (cah_mountpoint h)))) of
              Inl e \<Rightarrow> Inl (fs_context ''unregistering the cfapi sync root'' (fs_error_from_win wc e))
            | Inr _ \<Rightarrow> Inr ())) \<and>
    removals rest = (case cfe_read_dir env
          (tr @ [(CfDisconnectSyncRoot (cah_connection h), ok1),
                 (CfUnregisterSyncRoot (to_wide (ascii (cah_mountpoint h))), ok2)]) of
        Inl _ \<Rightarrow> []
      | Inr es \<Rightarrow> map removal_of (readable es))"
proof -
  let ?d = "CfDisconnectSyncRoot (cah_connection h)"
  let ?u = "CfUnregisterSyncRoot (to_wide (ascii (cah_mountpoint h)))"
  define ok1 where "ok1 = (\<not> isl (cfe_call env tr ?d))"
  define tr1 where "tr1 = tr @ [(?d, ok1)]"
  define ok2 where "ok2 = (\<not> isl (cfe_call env tr1 ?u))"
  define tr2 where "tr2 = tr1 @ [(?u, ok2)]"
  have t1: "cf_try env ?d tr = (cfe_call env tr ?d, tr1)"
    by (simp add: cf_try_def cf_log_def ok1_def tr1_def Let_def)
  have t2: "cf_try env ?u tr1 = (cfe_call env tr1 ?u, tr2)"
    by (simp add: cf_try_def cf_log_def ok2_def tr2_def Let_def)
  have s: "snd (cfapi_unmount wc env h tr) = remove_leftover_placeholders env (cah_mountpoint h) tr2"
    by (simp add: cfapi_unmount_def t1 t2 Let_def)
  have f: "fst (cfapi_unmount wc env h tr) =
      (case cfe_call env tr ?d of
         Inl e \<Rightarrow> Inl (fs_context ''disconnecting the cfapi sync root'' (fs_error_from_win wc e))
       | Inr _ \<Rightarrow> (case cfe_call env (tr @ [(?d, ok1)]) ?u of
              Inl e \<Rightarrow> Inl (fs_context ''unregistering the cfapi sync root'' (fs_error_from_win wc e))
            | Inr _ \<Rightarrow> Inr ()))"
    by (simp add: cfapi_unmount_def t1 t2 Let_def flip: tr1_def split: sum.split)
  have e: "tr2 = tr @ [(?d, ok1), (?u, ok2)]" by (simp add: tr2_def tr1_def)
  from leftover_removals [of env "cah_mountpoint h" tr2] obtain rest where rest:
    "remove_leftover_placeholders env (cah_mountpoint h) tr2 =
       tr2 @ [(FsReadDir (cah_mountpoint h), \<not> isl (cfe_read_dir env tr2))] @ rest"
    "removals rest = (case cfe_read_dir env tr2 of Inl _ \<Rightarrow> [] | Inr es \<Rightarrow> map removal_of (readable es))" by blast
  show ?thesis
    by (rule exI [of _ ok1], rule exI [of _ ok2], rule exI [of _ "\<not> isl (cfe_read_dir env tr2)"], rule exI [of _ rest])
      (use s f rest ok1_def in \<open>simp add: e\<close>)
qed

end
