(* ===== verification/Mount_Args.thy ===== *)
theory Mount_Args
  imports Xdr_Grammar Anymount_Types
begin

text \<open>
  The argument buffer handed to \<open>mount(2)\<close> for an NFS mount over a Unix socket,
  \<open>src/backend/nfs/mount_args.rs\<close>. The kernel reads a bitmap of attribute numbers and then the
  values of exactly those attributes, ascending; a value of the wrong shape shifts every one
  after it. The types of the attributes are stated here apart from the encoder, from the
  layout its module documentation gives, and the encoder is shown to follow them.
\<close>

section \<open>Constants\<close>

definition ARGSVERSION_XDR :: u32 where "ARGSVERSION_XDR = 88"
definition XDRARGS_VERSION_0 :: u32 where "XDRARGS_VERSION_0 = 0"
definition MATTR_BITMAP_LEN :: u32 where "MATTR_BITMAP_LEN = 2"
definition MFLAG_BITMAP_LEN :: u32 where "MFLAG_BITMAP_LEN = 1"
definition HEADER_LEN :: usize where "HEADER_LEN = 7 * 4"

definition MATTR_FLAGS :: u32 where "MATTR_FLAGS = 0"
definition MATTR_NFS_VERSION :: u32 where "MATTR_NFS_VERSION = 1"
definition MATTR_SOCKET_TYPE :: u32 where "MATTR_SOCKET_TYPE = 14"
definition MATTR_REQUEST_TIMEOUT :: u32 where "MATTR_REQUEST_TIMEOUT = 17"
definition MATTR_SOFT_RETRY_COUNT :: u32 where "MATTR_SOFT_RETRY_COUNT = 18"
definition MATTR_FH :: u32 where "MATTR_FH = 20"
definition MATTR_FS_LOCATIONS :: u32 where "MATTR_FS_LOCATIONS = 21"
definition MATTR_MNTFLAGS :: u32 where "MATTR_MNTFLAGS = 22"
definition MATTR_MNTFROM :: u32 where "MATTR_MNTFROM = 23"
definition MATTR_LOCAL_NFS_PORT :: u32 where "MATTR_LOCAL_NFS_PORT = 29"

definition MFLAG_SOFT :: u32 where "MFLAG_SOFT = 0"
definition MFLAG_RESVPORT :: u32 where "MFLAG_RESVPORT = 2"
definition MFLAG_CALLUMNT :: u32 where "MFLAG_CALLUMNT = 5"

definition MNT_RDONLY :: u32 where "MNT_RDONLY = 1"
definition SOCKET_TYPE_LOCAL :: bytes where "SOCKET_TYPE_LOCAL = ascii ''ticotsord''"
definition SUN_PATH_MAX :: usize where "SUN_PATH_MAX = 104"

section \<open>The encoder\<close>

record local_mount_args =
  la_socket_path :: bytes
  la_root_handle :: bytes
  la_label :: bytes
  la_request_timeout :: duration
  la_soft_retry_count :: u32

definition mattr_bit :: "u32 \<Rightarrow> u32" where
  "mattr_bit n = push_bit (unat n) 1"

definition mntfrom :: "local_mount_args \<Rightarrow> bytes" where
  "mntfrom args = la_socket_path args @ ascii '':/'' @ la_label args"

definition attr_set :: "u32 list" where
  "attr_set =
     [MATTR_FLAGS, MATTR_NFS_VERSION, MATTR_SOCKET_TYPE, MATTR_REQUEST_TIMEOUT, MATTR_SOFT_RETRY_COUNT,
      MATTR_FH, MATTR_FS_LOCATIONS, MATTR_MNTFLAGS, MATTR_MNTFROM, MATTR_LOCAL_NFS_PORT]"

definition attr_bitmap :: "u32 \<times> u32" where
  "attr_bitmap =
     (let words = fold (\<lambda>attr words.
            words[unat (attr div 32) := words ! unat (attr div 32) OR mattr_bit (attr mod 32)]) attr_set [0, 0]
      in (words ! 0, words ! 1))"

definition encode_values :: "local_mount_args \<Rightarrow> writer" where
  "encode_values args =
     (let values = writer_new;
          mask = mattr_bit MFLAG_SOFT OR mattr_bit MFLAG_RESVPORT OR mattr_bit MFLAG_CALLUMNT;
          values = write_u32 MFLAG_BITMAP_LEN values;
          values = write_u32 mask values;
          values = write_u32 MFLAG_BITMAP_LEN values;
          values = write_u32 (mattr_bit MFLAG_SOFT) values;
          values = write_u32 3 values;
          values = write_opaque_var SOCKET_TYPE_LOCAL values;
          values = write_u32 (ucast (dur_secs (la_request_timeout args))) values;
          values = write_u32 (dur_nanos (la_request_timeout args)) values;
          values = write_u32 (la_soft_retry_count args) values;
          values = write_opaque_var (la_root_handle args) values;
          values = write_u32 1 values;
          values = write_u32 1 values;
          values = write_opaque_var (la_socket_path args) values;
          values = write_u32 1 values;
          values = write_opaque_var (la_socket_path args) values;
          values = write_u32 0 values;
          values = write_u32 1 values;
          values = write_opaque_var (la_label args) values;
          values = write_u32 0 values;
          values = write_u32 MNT_RDONLY values;
          values = write_opaque_var (mntfrom args) values;
          values = write_opaque_var (la_socket_path args) values
      in values)"

definition encode_mount_args :: "local_mount_args \<Rightarrow> bytes" where
  "encode_mount_args args =
     (let values = into_bytes (encode_values args);
          out = writer_new;
          out = write_u32 ARGSVERSION_XDR out;
          out = write_u32 (of_nat (HEADER_LEN + length values)) out;
          out = write_u32 XDRARGS_VERSION_0 out;
          out = write_u32 MATTR_BITMAP_LEN out;
          (word0, word1) = attr_bitmap;
          out = write_u32 word0 out;
          out = write_u32 word1 out;
          out = write_u32 (of_nat (length values)) out;
          out = write_opaque_fixed values out
      in into_bytes out)"

section \<open>What the kernel reads\<close>

text \<open>
  The attributes a two-word bitmap announces, ascending, and the shape of each attribute's
  value: two one-word bitmaps of flags, one location with one server with one address and one
  path component, and words and byte strings otherwise.
\<close>

definition bitmap_attrs :: "u32 \<times> u32 \<Rightarrow> nat list" where
  "bitmap_attrs ws = filter (\<lambda>i. bit (if i < 32 then fst ws else snd ws) (i mod 32)) [0..<64]"

definition T_string :: xdr_type where
  "T_string = T_opaque 4294967295"

definition mattr_type :: "nat \<Rightarrow> xdr_type" where
  "mattr_type i =
     (if i = 0 then T_seq [T_u32, T_u32, T_u32, T_u32]
      else if i \<in> {1, 18, 22} then T_u32
      else if i = 17 then T_seq [T_u32, T_u32]
      else if i = 20 then T_opaque 64
      else if i = 21 then
        T_seq [T_u32, T_u32, T_string, T_u32, T_string, T_u32, T_u32, T_string, T_u32]
      else if i = 29 then T_opaque 104
      else T_string)"

section \<open>Lemmas\<close>

lemma attr_bitmap_eval: "attr_bitmap = (0x20F64003, 0)"
  by (simp add: attr_bitmap_def attr_set_def mattr_bit_def Let_def MATTR_FLAGS_def MATTR_NFS_VERSION_def
      MATTR_SOCKET_TYPE_def MATTR_REQUEST_TIMEOUT_def MATTR_SOFT_RETRY_COUNT_def MATTR_FH_def
      MATTR_FS_LOCATIONS_def MATTR_MNTFLAGS_def MATTR_MNTFROM_def MATTR_LOCAL_NFS_PORT_def)

lemma upt_64: "[0..<64] = [0,1,2,3,4,5,6,7,8,9,10,11,12,13,14,15,16,17,18,19,20,21,22,23,24,25,26,27,28,29,30,31,
  32,33,34,35,36,37,38,39,40,41,42,43,44,45,46,47,48,49,50,51,52,53,54,55,56,57,58,59,60,61,62,63]"
  by (simp add: upt_rec)

lemma bitmap_attrs_eval: "bitmap_attrs attr_bitmap = [0, 1, 14, 17, 18, 20, 21, 22, 23, 29]"
  unfolding bitmap_attrs_def attr_bitmap_eval upt_64 by simp

lemma xdr_enc_seqI: "list_all2 xdr_enc ts bss \<Longrightarrow> xdr_enc (T_seq ts) (concat bss)"
  by (induction rule: list_all2_induct) (auto intro: xdr_enc_seq)

lemma xdr_enc_string: "length d < 2 ^ 32 \<Longrightarrow> xdr_enc T_string (enc_opaque_var d)"
  unfolding T_string_def by (rule enc_opaque) simp_all

lemma length_enc_opaque_var: "length (enc_opaque_var d) \<le> length d + 7"
proof -
  have "(4 - length d mod 4) mod 4 < 4" by simp
  then show ?thesis by (simp add: enc_opaque_var_def enc_opaque_fixed_def)
qed

text \<open>The value of every attribute, in the order of the bitmap.\<close>

definition attr_values :: "local_mount_args \<Rightarrow> bytes list" where
  "attr_values args =
     [concat (map u32_to_be_bytes [1, 0x25, 1, 1]),
      u32_to_be_bytes 3,
      enc_opaque_var SOCKET_TYPE_LOCAL,
      concat (map u32_to_be_bytes
        [ucast (dur_secs (la_request_timeout args)), dur_nanos (la_request_timeout args)]),
      u32_to_be_bytes (la_soft_retry_count args),
      enc_opaque_var (la_root_handle args),
      concat [u32_to_be_bytes 1, u32_to_be_bytes 1, enc_opaque_var (la_socket_path args), u32_to_be_bytes 1,
        enc_opaque_var (la_socket_path args), u32_to_be_bytes 0, u32_to_be_bytes 1,
        enc_opaque_var (la_label args), u32_to_be_bytes 0],
      u32_to_be_bytes MNT_RDONLY,
      enc_opaque_var (la_socket_path args @ ascii '':/'' @ la_label args),
      enc_opaque_var (la_socket_path args)]"

lemma encode_values_concat: "writer_buf (encode_values args) = concat (attr_values args)"
  by (simp add: encode_values_def attr_values_def Let_def wire mntfrom_def mattr_bit_def
      MFLAG_BITMAP_LEN_def MFLAG_SOFT_def MFLAG_RESVPORT_def MFLAG_CALLUMNT_def)

lemma values_length:
  assumes "length (la_socket_path args) \<le> 104" "length (la_root_handle args) \<le> 64" "length (la_label args) \<le> 256"
  shows "length (writer_buf (encode_values args)) \<le> 2000"
  using length_enc_opaque_var [of "la_socket_path args"] length_enc_opaque_var [of "la_root_handle args"]
    length_enc_opaque_var [of "la_label args"] length_enc_opaque_var [of SOCKET_TYPE_LOCAL]
    length_enc_opaque_var [of "la_socket_path args @ ascii '':/'' @ la_label args"] assms
  by (simp add: encode_values_concat attr_values_def SOCKET_TYPE_LOCAL_def)

lemma values_typed:
  assumes "length (la_socket_path args) \<le> 104" "length (la_root_handle args) \<le> 64" "length (la_label args) \<le> 256"
  shows "xdr_enc (T_seq (map mattr_type (bitmap_attrs attr_bitmap))) (writer_buf (encode_values args))"
proof -
  have s: "xdr_enc T_string (enc_opaque_var (la_socket_path args))"
    "xdr_enc T_string (enc_opaque_var (la_label args))"
    "xdr_enc T_string (enc_opaque_var SOCKET_TYPE_LOCAL)"
    "xdr_enc T_string (enc_opaque_var (la_socket_path args @ ascii '':/'' @ la_label args))"
    by (rule xdr_enc_string, use assms in \<open>simp add: SOCKET_TYPE_LOCAL_def\<close>)+
  have o: "xdr_enc (T_opaque 64) (enc_opaque_var (la_root_handle args))"
    "xdr_enc (T_opaque 104) (enc_opaque_var (la_socket_path args))"
    using assms by (auto intro: enc_opaque)
  have flags: "xdr_enc (T_seq [T_u32, T_u32, T_u32, T_u32]) (concat (map u32_to_be_bytes [a, b, c, d]))" for a b c d
    by (rule xdr_enc_seqI) (simp add: enc_u32)
  have time: "xdr_enc (T_seq [T_u32, T_u32]) (concat (map u32_to_be_bytes [a, b]))" for a b
    by (rule xdr_enc_seqI) (simp add: enc_u32)
  have loc: "xdr_enc (T_seq [T_u32, T_u32, T_string, T_u32, T_string, T_u32, T_u32, T_string, T_u32])
      (concat [u32_to_be_bytes 1, u32_to_be_bytes 1, enc_opaque_var (la_socket_path args), u32_to_be_bytes 1,
        enc_opaque_var (la_socket_path args), u32_to_be_bytes 0, u32_to_be_bytes 1,
        enc_opaque_var (la_label args), u32_to_be_bytes 0])"
    by (rule xdr_enc_seqI) (simp add: enc_u32 s)
  show ?thesis
    unfolding encode_values_concat bitmap_attrs_eval
    by (rule xdr_enc_seqI) (simp only: attr_values_def mattr_type_def list.map list_all2_Cons list_all2_Nil2,
        simp add: flags [simplified] time [simplified] loc [simplified] enc_u32 s o)
qed

section \<open>Properties\<close>

text \<open>
  C26: The argument buffer is the one the kernel expects. Its second word is the length of
  the whole buffer and its seventh the length of what follows that word, both without loss;
  its bitmap announces the ten attributes the module documents and nothing in its second
  word; and what follows is, for exactly the attributes the bitmap announces and in ascending
  order, one value of the type each attribute has, so that no value is read out of place.
\<close>

theorem mount_args_layout:
  assumes "length (la_socket_path args) \<le> SUN_PATH_MAX" "length (la_root_handle args) = 24"
    and "length (la_label args) \<le> 256"
  shows "\<exists>total rest values. encode_mount_args args =
      concat (map u32_to_be_bytes [88, total, 0, 2, fst attr_bitmap, snd attr_bitmap, rest]) @ values \<and>
    unat total = length (encode_mount_args args) \<and> unat rest = length values \<and>
    bitmap_attrs attr_bitmap = [0, 1, 14, 17, 18, 20, 21, 22, 23, 29] \<and>
    xdr_enc (T_seq (map mattr_type (bitmap_attrs attr_bitmap))) values"
proof -
  let ?v = "writer_buf (encode_values args)"
  have pre: "length (la_socket_path args) \<le> 104" "length (la_root_handle args) \<le> 64"
    using assms by (simp_all add: SUN_PATH_MAX_def)
  note len = values_length [OF pre assms(3)] and typed = values_typed [OF pre assms(3)]
  have nopad: "enc_opaque_fixed ?v = ?v" by (rule enc_opaque_fixed_multiple, rule xdr_enc_aligned [OF typed])
  have enc: "encode_mount_args args =
      concat (map u32_to_be_bytes [88, of_nat (28 + length ?v), 0, 2, fst attr_bitmap, snd attr_bitmap,
        of_nat (length ?v)]) @ ?v"
    by (simp add: encode_mount_args_def Let_def wire nopad ARGSVERSION_XDR_def XDRARGS_VERSION_0_def
        MATTR_BITMAP_LEN_def HEADER_LEN_def case_prod_beta)
  have small: "unat (of_nat n :: u32) = n" if "n \<le> 4000" for n
    using that by (simp add: unat_of_nat)
  have "length (encode_mount_args args) = 28 + length ?v" unfolding enc by simp
  with enc have "unat (of_nat (28 + length ?v) :: u32) = length (encode_mount_args args)"
    "unat (of_nat (length ?v) :: u32) = length ?v"
    using small [of "28 + length ?v"] small [of "length ?v"] len by linarith+
  with enc show ?thesis using bitmap_attrs_eval typed by blast
qed

theorem mount_args_layout_witness:
  "\<exists>total rest values. encode_mount_args \<lparr>la_socket_path = ascii ''/tmp/.anymount-00/s'',
       la_root_handle = replicate 24 7, la_label = ascii ''docs'',
       la_request_timeout = \<lparr>dur_secs = 2, dur_nanos = 0\<rparr>, la_soft_retry_count = 2\<rparr> =
      concat (map u32_to_be_bytes [88, total, 0, 2, fst attr_bitmap, snd attr_bitmap, rest]) @ values \<and>
    unat rest = length values"
  using mount_args_layout [of "\<lparr>la_socket_path = ascii ''/tmp/.anymount-00/s'',
       la_root_handle = replicate 24 7, la_label = ascii ''docs'',
       la_request_timeout = \<lparr>dur_secs = 2, dur_nanos = 0\<rparr>, la_soft_retry_count = 2\<rparr>"]
  by (simp add: SUN_PATH_MAX_def) blast

end
