(* ===== verification/Nfs_Mount.thy ===== *)
theory Nfs_Mount
  imports Nfs_Server Mount_Args Mount_Lifecycle
begin

text \<open>
  Making and unmaking an NFS mount: \<open>src/backend/nfs/mod.rs\<close> (labels, teardown and the choice
  of a transport), \<open>src/backend/nfs/local.rs\<close> (the Unix socket) and
  \<open>src/backend/nfs/tcp.rs\<close> (loopback and \<open>mount_nfs\<close>).

  What these functions do is call the operating system, so the state they pass on is the
  trace of their calls, each with whether it succeeded; the operating system answers every call
  by a function of the trace so far, which makes every history of answers one environment. A
  theorem for all environments is a theorem for every way the calls can fail. A listening socket
  that goes out of scope is closed there, which is the call \<open>SysDropListener\<close>; one that was moved into a
  server thread is closed when the thread ends. A join is one that returns: when the server thread
  ends is the subject of \<open>Nfs_System\<close>. Server threads
  are numbered in the order they are started, and their \<open>stop\<close> and \<open>serve_mount\<close> flags go
  by that number.
\<close>

section \<open>Volume labels\<close>

definition MAX_LABEL_LEN :: usize where "MAX_LABEL_LEN = 64"
definition DEFAULT_LABEL :: rust_str where "DEFAULT_LABEL = chars ''anymount''"

text \<open>\<open>char::is_control\<close> (category Cc) and \<open>char::is_whitespace\<close> (property White_Space).\<close>

definition is_control :: "u32 \<Rightarrow> bool" where
  "is_control c \<longleftrightarrow> c < 0x20 \<or> (0x7F \<le> c \<and> c < 0xA0)"

definition is_whitespace :: "u32 \<Rightarrow> bool" where
  "is_whitespace c \<longleftrightarrow>
     (9 \<le> c \<and> c \<le> 13) \<or> c \<in> {0x20, 0x85, 0xA0, 0x1680, 0x2028, 0x2029, 0x202F, 0x205F, 0x3000} \<or>
     (0x2000 \<le> c \<and> c \<le> 0x200A)"

definition label_push :: "u32 \<Rightarrow> rust_str \<Rightarrow> rust_str" where
  "label_push ch out =
     (case (ch = 0x2F \<or> is_control ch, out \<noteq> [] \<and> last out = 0x2D) of
        (False, _) \<Rightarrow> out @ [ch]
      | (True, False) \<Rightarrow> out @ [0x2D]
      | (True, True) \<Rightarrow> out)"

definition trim_matches :: "('a \<Rightarrow> bool) \<Rightarrow> 'a list \<Rightarrow> 'a list" where
  "trim_matches f xs = rev (dropWhile f (rev (dropWhile f xs)))"

definition label_trimmed :: "u32 \<Rightarrow> bool" where
  "label_trimmed c \<longleftrightarrow> c = 0x2D \<or> c = 0x2E \<or> is_whitespace c"

definition volume_label :: "rust_str \<Rightarrow> rust_str" where
  "volume_label fs_name =
     (let out = fold label_push (take MAX_LABEL_LEN fs_name) [];
          trimmed = trim_matches label_trimmed out
      in if trimmed = [] then DEFAULT_LABEL else trimmed)"

section \<open>The operating system\<close>

record nfs_config =
  nc_serve_mount :: bool
  nc_export :: export_secret

datatype sys_call =
    SysRandom nat
  | SysMkdir bytes nat | SysBindUnix bytes | SysSetMode bytes nat
  | SysBindTcp | SysLocalAddr | SysDropListener
  | SysSpawnServer nat file_handle3 nfs_config
  | SysStoreServeMount nat bool | SysStoreStop nat | SysJoinServer nat
  | SysMount bytes bytes u32 bytes | SysUnmount bytes | SysStat bytes
  | SysMountNfs "bytes list"
  | SysRemoveFile bytes | SysRemoveDir bytes

type_synonym sys_trace = "(sys_call \<times> bool) list"

record sys_output =
  out_success :: bool
  out_status :: string
  out_stderr :: string

record sys_env =
  env_call :: "sys_trace \<Rightarrow> sys_call \<Rightarrow> io_error + unit"
  env_random :: "sys_trace \<Rightarrow> bytes"
  env_port :: "sys_trace \<Rightarrow> io_error + u16"
  env_stat :: "sys_trace \<Rightarrow> bytes \<Rightarrow> io_error + (u64 \<times> u64)"
  env_output :: "sys_trace \<Rightarrow> io_error + sys_output"

definition sys_try :: "sys_env \<Rightarrow> sys_call \<Rightarrow> sys_trace \<Rightarrow> (io_error + unit) \<times> sys_trace" where
  "sys_try env c tr = (let r = env_call env tr c in (r, tr @ [(c, \<not> isl r)]))"

definition sys_do :: "sys_call \<Rightarrow> sys_trace \<Rightarrow> sys_trace" where
  "sys_do c tr = tr @ [(c, True)]"

definition random_bytes :: "sys_env \<Rightarrow> nat \<Rightarrow> sys_trace \<Rightarrow> bytes \<times> sys_trace" where
  "random_bytes env n tr = (slice_overwrite (replicate n 0) (env_random env tr), sys_do (SysRandom n) tr)"

text \<open>\<open>metadata(path)\<close>: the inode number and the device number.\<close>

definition sys_stat :: "sys_env \<Rightarrow> bytes \<Rightarrow> sys_trace \<Rightarrow> (io_error + (u64 \<times> u64)) \<times> sys_trace" where
  "sys_stat env path tr = (let r = env_stat env tr path in (r, tr @ [(SysStat path, \<not> isl r)]))"

definition display :: "bytes \<Rightarrow> string" where
  "display bs = map (char_of \<circ> unat) bs"

text \<open>\<open>CString::new\<close>: an interior NUL is an error that names its position.\<close>

definition cstring_error :: "bytes \<Rightarrow> string option" where
  "cstring_error bs =
     (if 0 \<in> set bs
      then Some (''nul byte found in provided data at position: '' @ decimal (length (takeWhile (\<lambda>b. b \<noteq> 0) bs)))
      else None)"

text \<open>
  \<open>Path::parent\<close>: trailing separators and \<open>.\<close> components do not count, the root and the
  empty path have no parent. The paths are reversed.
\<close>

fun rtrim_path :: "bytes \<Rightarrow> bytes" where
  "rtrim_path [] = []"
| "rtrim_path (a # p) =
     (if a = 0x2F then (if p = [] then [0x2F] else rtrim_path p)
      else if a = 0x2E \<and> p \<noteq> [] \<and> hd p = 0x2F then rtrim_path p
      else a # p)"

definition path_parent :: "bytes \<Rightarrow> bytes option" where
  "path_parent path =
     (let q = rtrim_path (rev path)
      in if q = [] \<or> q = [0x2F] then None
         else let up = dropWhile (\<lambda>b. b \<noteq> 0x2F) q
              in Some (if up = [] then [] else rev (rtrim_path up)))"

section \<open>Taking a mount down\<close>

definition still_mounted :: "sys_env \<Rightarrow> bytes \<Rightarrow> sys_trace \<Rightarrow> bool \<times> sys_trace" where
  "still_mounted env path tr =
     (case sys_stat env path tr of
        (Inl _, tr) \<Rightarrow> (False, tr)
      | (Inr meta, tr) \<Rightarrow>
          (case path_parent path of
             None \<Rightarrow> (True, tr)
           | Some p \<Rightarrow>
               (let parent = (if p = [] then ascii ''.'' else p)
                in case sys_stat env parent tr of
                     (Inr parent_meta, tr) \<Rightarrow> (snd parent_meta \<noteq> snd meta, tr)
                   | (Inl _, tr) \<Rightarrow> (True, tr))))"

definition unmount_path :: "sys_env \<Rightarrow> bytes \<Rightarrow> sys_trace \<Rightarrow> unit fs_result \<times> sys_trace" where
  "unmount_path env mountpoint tr =
     (case cstring_error mountpoint of
        Some e \<Rightarrow> (Inl (Other (''mountpoint has an interior NUL: '' @ e)), tr)
      | None \<Rightarrow>
          (case sys_try env (SysUnmount mountpoint) tr of
             (Inr _, tr) \<Rightarrow> (Inr (), tr)
           | (Inl err, tr) \<Rightarrow>
               (case still_mounted env mountpoint tr of
                  (False, tr) \<Rightarrow> (Inr (), tr)
                | (True, tr) \<Rightarrow> (Inl (fs_context (''unmount failed for '' @ display mountpoint) (Io err)), tr))))"

datatype transport = LocalSocket | Tcp

record nfs_handle =
  nh_mountpoint :: bytes
  nh_server :: nat
  nh_transport :: transport
  nh_socket_dir :: "bytes option"

definition nfs_handle_new :: "bytes \<Rightarrow> nat \<Rightarrow> transport \<Rightarrow> bytes option \<Rightarrow> nfs_handle" where
  "nfs_handle_new mountpoint server_thread transport socket_dir =
     \<lparr>nh_mountpoint = mountpoint, nh_server = server_thread, nh_transport = transport,
      nh_socket_dir = socket_dir\<rparr>"

definition socket_path :: "bytes \<Rightarrow> bytes" where
  "socket_path dir = dir @ ascii ''/s''"

text \<open>Both results are ignored.\<close>

definition socket_dir_remove :: "sys_env \<Rightarrow> bytes \<Rightarrow> sys_trace \<Rightarrow> sys_trace" where
  "socket_dir_remove env dir tr =
     (let tr = snd (sys_try env (SysRemoveFile (socket_path dir)) tr)
      in snd (sys_try env (SysRemoveDir dir) tr))"

text \<open>\<open>Mounted::unmount\<close>; a server thread that panicked is logged.\<close>

definition nfs_unmount :: "sys_env \<Rightarrow> nfs_handle \<Rightarrow> sys_trace \<Rightarrow> unit fs_result \<times> sys_trace" where
  "nfs_unmount env h tr =
     (case unmount_path env (nh_mountpoint h) tr of
        (unmounted, tr) \<Rightarrow>
          (let tr = sys_do (SysStoreStop (nh_server h)) tr;
               tr = sys_do (SysJoinServer (nh_server h)) tr;
               tr = (case nh_socket_dir h of Some dir \<Rightarrow> socket_dir_remove env dir tr | None \<Rightarrow> tr)
           in (unmounted, tr)))"

definition nfs_uses_local_socket :: "nfs_handle \<Rightarrow> bool" where
  "nfs_uses_local_socket h = (case nh_transport h of LocalSocket \<Rightarrow> True | Tcp \<Rightarrow> False)"

definition nfs_mounted :: "sys_env \<Rightarrow> (nfs_handle, sys_trace) mounted" where
  "nfs_mounted env =
     \<lparr>md_unmount = nfs_unmount env, md_backend = (\<lambda>_. Nfs), md_uses_local_socket = nfs_uses_local_socket\<rparr>"

text \<open>The number the next server thread gets.\<close>

definition next_server :: "sys_trace \<Rightarrow> nat" where
  "next_server tr =
     length (filter (\<lambda>(c, _). case c of SysSpawnServer _ _ _ \<Rightarrow> True | _ \<Rightarrow> False) tr)"

section \<open>The local socket\<close>

definition SOCKET_PARENT :: bytes where "SOCKET_PARENT = ascii ''/tmp''"
definition REQUEST_TIMEOUT :: duration where "REQUEST_TIMEOUT = \<lparr>dur_secs = 2, dur_nanos = 0\<rparr>"
definition SOFT_RETRY_COUNT :: u32 where "SOFT_RETRY_COUNT = 2"

definition socket_dir_create :: "sys_env \<Rightarrow> sys_trace \<Rightarrow> bytes fs_result \<times> sys_trace" where
  "socket_dir_create env tr =
     (case random_bytes env 8 tr of
        (sfx, tr) \<Rightarrow>
          (let hex = concat (map hex_byte sfx);
               path = SOCKET_PARENT @ ascii ''/'' @ ascii ''.anymount-'' @ hex
           in case sys_try env (SysMkdir path 0x1C0) tr of
                (Inl e, tr) \<Rightarrow>
                  (Inl (fs_context (''creating the socket directory '' @ display path @
                     '' for the local NFS transport'') (Io e)), tr)
              | (Inr _, tr) \<Rightarrow> (Inr path, tr)))"

definition call_mount ::
  "sys_env \<Rightarrow> mount_builder \<Rightarrow> bytes \<Rightarrow> file_handle3 \<Rightarrow> rust_str \<Rightarrow> sys_trace \<Rightarrow> unit fs_result \<times> sys_trace" where
  "call_mount env b sock handle label tr =
     (let root = handle_encode handle ROOT_INO;
          args = encode_mount_args
            \<lparr>la_socket_path = sock, la_root_handle = root, la_label = str_utf8 label,
             la_request_timeout = REQUEST_TIMEOUT, la_soft_retry_count = SOFT_RETRY_COUNT\<rparr>;
          fstype = ascii ''nfs'';
          mountpoint = ascii (mb_mountpoint b)
      in case cstring_error mountpoint of
           Some e \<Rightarrow> (Inl (Other (''mountpoint has an interior NUL: '' @ e)), tr)
         | None \<Rightarrow>
             (case sys_try env (SysMount fstype mountpoint MNT_RDONLY args) tr of
                (Inr _, tr) \<Rightarrow> (Inr (), tr)
              | (Inl err, tr) \<Rightarrow>
                  (Inl (fs_context (''mount(2) refused the local-socket NFS arguments for '' @
                     mb_mountpoint b) (Io err)), tr)))"

definition verify_mount :: "sys_env \<Rightarrow> string \<Rightarrow> sys_trace \<Rightarrow> unit fs_result \<times> sys_trace" where
  "verify_mount env mountpoint tr =
     (case sys_stat env (ascii mountpoint) tr of
        (Inl e, tr) \<Rightarrow>
          (Inl (fs_context (''reading '' @ mountpoint @
             '' back after mounting; mount(2) reported success'') (Io e)), tr)
      | (Inr meta, tr) \<Rightarrow>
          if fst meta \<noteq> ino_num ROOT_INO then
            (Inl (Other (mountpoint @ '' mounted but its root has inode '' @ decimal (unat (fst meta)) @
               '' rather than '' @ decimal (unat (ino_num ROOT_INO)) @
               ''; the mount is not this filesystem'')), tr)
          else (Inr (), tr))"

text \<open>The part of \<open>mount_in\<close> once the socket is bound and restricted.\<close>

definition local_serve :: "sys_env \<Rightarrow> mount_builder \<Rightarrow> bytes \<Rightarrow> bytes \<Rightarrow> sys_trace \<Rightarrow> nfs_handle fs_result \<times> sys_trace" where
  "local_serve env b dir sock tr =
     (case random_bytes env 16 tr of
        (secret, tr) \<Rightarrow>
          (let handle = handle_from_secret secret;
               label = volume_label (mb_fs_name b);
               config = \<lparr>nc_serve_mount = False, nc_export = export_from_secret (replicate 16 0)\<rparr>;
               srv = next_server tr;
               tr = sys_do (SysSpawnServer srv handle config) tr
           in case (case call_mount env b sock handle label tr of
                      (Inl e, tr) \<Rightarrow> (Inl e, tr)
                    | (Inr _, tr) \<Rightarrow> verify_mount env (mb_mountpoint b) tr) of
                (Inl e, tr) \<Rightarrow>
                  (let tr = snd (unmount_path env (ascii (mb_mountpoint b)) tr);
                       tr = sys_do (SysStoreStop srv) tr;
                       tr = sys_do (SysJoinServer srv) tr
                   in (Inl e, tr))
              | (Inr _, tr) \<Rightarrow>
                  (Inr (nfs_handle_new (ascii (mb_mountpoint b)) srv LocalSocket (Some dir)), tr)))"

definition mount_in :: "sys_env \<Rightarrow> mount_builder \<Rightarrow> bytes \<Rightarrow> sys_trace \<Rightarrow> nfs_handle fs_result \<times> sys_trace" where
  "mount_in env b dir tr =
     (let sock = socket_path dir
      in case to_str sock of
           None \<Rightarrow> (Inl (Other (''socket path '' @ display sock @ '' is not valid UTF-8'')), tr)
         | Some socket_str \<Rightarrow>
             if length socket_str > SUN_PATH_MAX then
               (Inl (Other (''socket path '' @ display socket_str @ '' is '' @ decimal (length socket_str) @
                  '' bytes, over the '' @ decimal SUN_PATH_MAX @ ''-byte sun_path limit'')), tr)
             else
               (case sys_try env (SysBindUnix sock) tr of
                  (Inl e, tr) \<Rightarrow>
                    (Inl (fs_context (''binding the NFS socket at '' @ display socket_str) (Io e)), tr)
                | (Inr _, tr) \<Rightarrow>
                    (case sys_try env (SysSetMode sock 0x180) tr of
                       (Inl e, tr) \<Rightarrow>
                         (Inl (fs_context (''restricting permissions on the NFS socket '' @
                            display socket_str) (Io e)), sys_do SysDropListener tr)
                     | (Inr _, tr) \<Rightarrow> local_serve env b dir socket_str tr)))"

definition local_mount :: "sys_env \<Rightarrow> mount_builder \<Rightarrow> sys_trace \<Rightarrow> nfs_handle fs_result \<times> sys_trace" where
  "local_mount env b tr =
     (case socket_dir_create env tr of
        (Inl e, tr) \<Rightarrow> (Inl e, tr)
      | (Inr dir, tr) \<Rightarrow>
          (case mount_in env b dir tr of
             (Inr handle, tr) \<Rightarrow> (Inr handle, tr)
           | (Inl e, tr) \<Rightarrow> (Inl e, socket_dir_remove env dir tr)))"

section \<open>Loopback TCP\<close>

definition mount_nfs_args :: "u16 \<Rightarrow> bytes \<Rightarrow> string \<Rightarrow> bytes list" where
  "mount_nfs_args port export_path mountpoint =
     [ascii ''-o'',
      ascii (''vers=3,tcp,port='' @ decimal (unat port) @ '',mountport='' @ decimal (unat port) @
        '',noresvport,ro,soft,timeo=20,retrans=2''),
      ascii ''127.0.0.1:'' @ export_path,
      ascii mountpoint]"

definition export_path_of :: "export_secret \<Rightarrow> rust_str \<Rightarrow> bytes" where
  "export_path_of export label = ascii ''/export/'' @ export_hex export @ ascii ''/'' @ str_utf8 label"

text \<open>\<open>Command::output\<close> refuses an argument with a NUL before it starts anything.\<close>

definition run_mount_nfs :: "sys_env \<Rightarrow> bytes list \<Rightarrow> sys_trace \<Rightarrow> unit fs_result \<times> sys_trace" where
  "run_mount_nfs env args tr =
     (let r = (if \<exists>a \<in> set args. 0 \<in> set a
               then Inl (io_error_new EkInvalidInput ''nul byte found in provided data'') else env_output env tr);
          ok = (case r of Inr out \<Rightarrow> out_success out | Inl _ \<Rightarrow> False);
          tr = tr @ [(SysMountNfs args, ok)]
      in case r of
           Inl e \<Rightarrow> (Inl (fs_context ''spawning mount_nfs'' (Io e)), tr)
         | Inr out \<Rightarrow>
             if out_success out then (Inr (), tr)
             else (Inl (Other (''mount_nfs exited with '' @ out_status out @ '': '' @ out_stderr out)), tr))"

text \<open>The part of \<open>mount\<close> once the listener has a port.\<close>

definition tcp_serve ::
  "sys_env \<Rightarrow> mount_builder \<Rightarrow> file_handle3 \<Rightarrow> export_secret \<Rightarrow> u16 \<Rightarrow> sys_trace \<Rightarrow> nfs_handle fs_result \<times> sys_trace" where
  "tcp_serve env b handle export port tr =
     (let export_path = export_path_of export (volume_label (mb_fs_name b));
          config = \<lparr>nc_serve_mount = True, nc_export = export\<rparr>;
          srv = next_server tr;
          tr = sys_do (SysSpawnServer srv handle config) tr
      in case run_mount_nfs env (mount_nfs_args port export_path (mb_mountpoint b)) tr of
           (outcome, tr) \<Rightarrow>
             (let tr = sys_do (SysStoreServeMount srv False) tr
              in case outcome of
                   Inl e \<Rightarrow>
                     (let tr = sys_do (SysStoreStop srv) tr;
                          tr = sys_do (SysJoinServer srv) tr
                      in (Inl e, tr))
                 | Inr _ \<Rightarrow> (Inr (nfs_handle_new (ascii (mb_mountpoint b)) srv Tcp None), tr)))"

definition tcp_mount :: "sys_env \<Rightarrow> mount_builder \<Rightarrow> sys_trace \<Rightarrow> nfs_handle fs_result \<times> sys_trace" where
  "tcp_mount env b tr =
     (case random_bytes env 16 tr of
        (handle_secret, tr) \<Rightarrow>
          (case random_bytes env 16 tr of
             (secret, tr) \<Rightarrow>
               (case sys_try env SysBindTcp tr of
                  (Inl e, tr) \<Rightarrow> (Inl (fs_context ''binding NFS server socket'' (Io e)), tr)
                | (Inr _, tr) \<Rightarrow>
                    (let r = env_port env tr; tr = tr @ [(SysLocalAddr, \<not> isl r)]
                     in case r of
                          Inl e \<Rightarrow> (Inl (fs_context ''reading NFS server socket's assigned port'' (Io e)), sys_do SysDropListener tr)
                        | Inr port \<Rightarrow>
                            tcp_serve env b (handle_from_secret handle_secret) (export_from_secret secret) port tr))))"

section \<open>Choosing a transport\<close>

text \<open>The features of the build: at least one transport is compiled in.\<close>

datatype nfs_features = LocalOnly | TcpOnly | LocalAndTcp

definition NFS_CAPS :: "nfs_features \<Rightarrow> caps" where
  "NFS_CAPS feat =
     \<lparr>caps_name = ''nfs'', caps_allow_other = False, caps_auto_unmount = False, caps_threads = False,
      caps_empty_mountpoint = False, caps_nfs_local_socket = (feat \<noteq> TcpOnly)\<rparr>"

definition nfs_mount ::
  "nfs_features \<Rightarrow> host \<Rightarrow> sys_env \<Rightarrow> mount_builder \<Rightarrow> sys_trace \<Rightarrow> nfs_handle fs_result \<times> sys_trace" where
  "nfs_mount feat hst env b tr =
     (case preflight_check hst b (NFS_CAPS feat) of
        Inl e \<Rightarrow> (Inl e, tr)
      | Inr _ \<Rightarrow>
          if feat = TcpOnly then tcp_mount env b tr
          else (case local_mount env b tr of
                  (Inr handle, tr) \<Rightarrow> (Inr handle, tr)
                | (Inl e, tr) \<Rightarrow>
                    if mb_nfs_require_local_socket b then
                      (Inl (fs_context (''the local-socket transport failed and nfs_require_local_socket '' @
                         ''forbids falling back to loopback TCP'') e), tr)
                    else if feat = LocalAndTcp then tcp_mount env b tr
                    else (Inl e, tr)))"

section \<open>What a trace leaves behind\<close>

text \<open>
  The things the operating system keeps for this process: server threads (with the listening
  socket each owns), servers that answer the MOUNT program, socket directories, socket files and
  mounts. \<open>rs_listening\<close> counts the listening sockets no server owns yet. A server thread is
  over once it was told to stop and joined. Removing a file or a directory and unmounting can be refused.
\<close>

datatype resource = RsServer nat | RsWindow nat | RsDir bytes | RsFile bytes | RsMount bytes

record resources = "resource ledger" +
  rs_stopped :: "nat set"
  rs_listening :: nat

definition no_resources :: resources where
  "no_resources = \<lparr>lg_held = {}, lg_refused = {}, rs_stopped = {}, rs_listening = 0\<rparr>"

fun release_call :: "resource \<Rightarrow> sys_call option" where
  "release_call (RsDir d) = Some (SysRemoveDir d)"
| "release_call (RsFile f) = Some (SysRemoveFile f)"
| "release_call (RsMount p) = Some (SysUnmount p)"
| "release_call _ = None"

definition listening :: "(nat \<Rightarrow> nat) \<Rightarrow> resources \<Rightarrow> resources" where
  "listening f a = a\<lparr>rs_listening := f (rs_listening a)\<rparr>"

fun account_step :: "sys_call \<times> bool \<Rightarrow> resources \<Rightarrow> resources" where
  "account_step (SysSpawnServer i h c, ok) a =
     (let a = ledger_take (RsServer i) (listening (\<lambda>n. n - 1) a)
      in if nc_serve_mount c then ledger_take (RsWindow i) a else a)"
| "account_step (SysStoreServeMount i v, ok) a =
     (if v then ledger_take (RsWindow i) a else ledger_give True (RsWindow i) a)"
| "account_step (SysStoreStop i, ok) a = a\<lparr>rs_stopped := insert i (rs_stopped a)\<rparr>"
| "account_step (SysJoinServer i, ok) a =
     (if i \<in> rs_stopped a then ledger_give True (RsServer i) (ledger_give True (RsWindow i) a) else a)"
| "account_step (SysMkdir d m, ok) a = (if ok then ledger_take (RsDir d) a else a)"
| "account_step (SysRemoveDir d, ok) a = ledger_give ok (RsDir d) a"
| "account_step (SysBindUnix f, ok) a = (if ok then ledger_take (RsFile f) (listening Suc a) else a)"
| "account_step (SysRemoveFile f, ok) a = ledger_give ok (RsFile f) a"
| "account_step (SysBindTcp, ok) a = (if ok then listening Suc a else a)"
| "account_step (SysDropListener, ok) a = listening (\<lambda>n. n - 1) a"
| "account_step (SysMount t p f args, ok) a = (if ok then ledger_take (RsMount p) a else a)"
| "account_step (SysMountNfs args, ok) a = (if ok then ledger_take (RsMount (last args)) a else a)"
| "account_step (SysUnmount p, ok) a = ledger_give ok (RsMount p) a"
| "account_step (c, ok) a = a"

definition account :: "sys_trace \<Rightarrow> resources" where
  "account tr = fold account_step tr no_resources"

text \<open>
  Nothing is kept that was not asked to be taken back, and whatever is kept all the same was
  refused: the call that gives it back was made and failed.
\<close>

definition all_released :: "sys_trace \<Rightarrow> bool" where
  "all_released tr \<longleftrightarrow>
     lg_held (account tr) = {} \<and> rs_listening (account tr) = 0 \<and>
     (\<forall>x\<in>lg_refused (account tr). \<exists>c. release_call x = Some c \<and> (c, False) \<in> set tr)"

text \<open>What a handle stands for: its server, its mount, and its socket file and directory if it has them.\<close>

definition handle_resources :: "nfs_handle \<Rightarrow> resource set" where
  "handle_resources h =
     {RsServer (nh_server h), RsMount (nh_mountpoint h)} \<union>
     (case nh_socket_dir h of Some d \<Rightarrow> {RsDir d, RsFile (socket_path d)} | None \<Rightarrow> {})"

definition holds_exactly :: "nfs_handle \<Rightarrow> sys_trace \<Rightarrow> bool" where
  "holds_exactly h tr \<longleftrightarrow>
     lg_held (account tr) = handle_resources h \<and> rs_listening (account tr) = 0 \<and>
     cstring_error (nh_mountpoint h) = None"

interpretation nfs_ledger: ledger_account account_step no_resources release_call
proof
  show "lg_refused no_resources = {}" by (simp add: no_resources_def)
  show "x \<in> lg_refused (account_step (c, ok) l) \<Longrightarrow> x \<in> lg_refused l \<or> \<not> ok \<and> release_call x = Some c" for x c ok l
    by (cases c) (auto simp: Let_def listening_def dest!: ledger_refused_give split: if_splits)
qed

lemma all_released_iff: "all_released tr \<longleftrightarrow> lg_held (account tr) = {} \<and> rs_listening (account tr) = 0"
  using nfs_ledger.refused_recorded by (auto simp: all_released_def account_def)

named_theorems accounts "what each step of a mount does to the account"

lemma ledger_fields [simp]:
  "rs_stopped (ledger_take x a) = rs_stopped a" "rs_stopped (ledger_give ok x a) = rs_stopped a"
  "rs_listening (ledger_take x a) = rs_listening a" "rs_listening (ledger_give ok x a) = rs_listening a"
  "lg_held (listening f a) = lg_held a" "rs_stopped (listening f a) = rs_stopped a"
  "rs_listening (listening f a) = f (rs_listening a)"
  by (auto simp: ledger_take_def ledger_give_def listening_def)

text \<open>What is held and how many sockets listen, the part of the account the lemmas are about.\<close>

definition kept :: "sys_trace \<Rightarrow> resource set \<times> nat" where
  "kept tr = (lg_held (account tr), rs_listening (account tr))"

lemma released_kept: "all_released tr \<longleftrightarrow> kept tr = ({}, 0)"
  by (simp add: all_released_iff kept_def)

lemma holds_kept:
  "holds_exactly h tr \<longleftrightarrow> kept tr = (handle_resources h, 0) \<and> cstring_error (nh_mountpoint h) = None"
  by (auto simp: holds_exactly_def kept_def)

lemma account_snoc [accounts]: "account (tr @ [e]) = account_step e (account tr)"
  by (simp add: account_def)

lemma account_do [accounts]: "account (sys_do c tr) = account_step (c, True) (account tr)"
  by (simp add: sys_do_def accounts)

lemma account_try: "sys_try env c tr = (r, tr') \<Longrightarrow> account tr' = account_step (c, \<not> isl r) (account tr)"
  by (auto simp: sys_try_def Let_def accounts)

lemma account_snd_try [accounts]:
  "account (snd (sys_try env c tr)) = account_step (c, \<not> isl (env_call env tr c)) (account tr)"
  by (simp add: sys_try_def Let_def accounts)

lemma account_stat: "sys_stat env p tr = (r, tr') \<Longrightarrow> account tr' = account tr"
  by (auto simp: sys_stat_def Let_def accounts)

lemma account_random: "random_bytes env n tr = (bs, tr') \<Longrightarrow> account tr' = account tr \<and> length bs = n"
  by (auto simp: random_bytes_def accounts)

lemma account_still_mounted: "still_mounted env p tr = (x, tr') \<Longrightarrow> account tr' = account tr"
  by (auto simp: still_mounted_def Let_def dest!: account_stat split: prod.splits sum.splits option.splits)

lemma kept_unmount_path:
  "unmount_path env p tr = (r, tr') \<Longrightarrow>
     kept tr' = (if cstring_error p = None then (fst (kept tr) - {RsMount p}, snd (kept tr)) else kept tr)"
  by (auto simp: unmount_path_def kept_def dest!: account_try account_still_mounted
      split: prod.splits sum.splits option.splits bool.splits)

lemma kept_remove_dir:
  "kept (socket_dir_remove env d tr) = (fst (kept tr) - {RsFile (socket_path d), RsDir d}, snd (kept tr))"
  by (auto simp: socket_dir_remove_def Let_def kept_def accounts)

text \<open>A server that is told to stop and joined is gone.\<close>

lemma kept_stop_join:
  "kept (sys_do (SysJoinServer i) (sys_do (SysStoreStop i) tr)) =
     (fst (kept tr) - {RsServer i, RsWindow i}, snd (kept tr))"
  by (auto simp: accounts kept_def)

lemma kept_call_mount:
  "call_mount env b sock h label tr = (r, tr') \<Longrightarrow>
     (case r of
        Inr _ \<Rightarrow> cstring_error (ascii (mb_mountpoint b)) = None \<and>
          kept tr' = (insert (RsMount (ascii (mb_mountpoint b))) (fst (kept tr)), snd (kept tr))
      | Inl _ \<Rightarrow> kept tr' = kept tr)"
  by (auto simp: call_mount_def Let_def kept_def dest!: account_try split: prod.splits sum.splits option.splits)

lemma account_verify: "verify_mount env mp tr = (r, tr') \<Longrightarrow> account tr' = account tr"
  by (auto simp: verify_mount_def dest!: account_stat split: prod.splits sum.splits if_splits)

section \<open>Teardown\<close>

lemma nfs_unmount_releases:
  assumes "holds_exactly h tr" "nfs_unmount env h tr = (r, tr')"
  shows "all_released tr'"
proof -
  obtain u tr1 where um: "unmount_path env (nh_mountpoint h) tr = (u, tr1)" by fastforce
  from kept_unmount_path [OF um] assms(1)
  have a: "kept tr1 = (handle_resources h - {RsMount (nh_mountpoint h)}, 0)" by (simp add: holds_kept)
  have "tr' = (case nh_socket_dir h of
      Some dir \<Rightarrow> socket_dir_remove env dir (sys_do (SysJoinServer (nh_server h)) (sys_do (SysStoreStop (nh_server h)) tr1))
    | None \<Rightarrow> sys_do (SysJoinServer (nh_server h)) (sys_do (SysStoreStop (nh_server h)) tr1))"
    using assms(2) um by (simp add: nfs_unmount_def Let_def)
  with a show ?thesis
    by (cases "nh_socket_dir h")
      (auto simp: released_kept handle_resources_def kept_remove_dir kept_stop_join)
qed

section \<open>Both transports account for everything they take\<close>

lemma local_serve_accounts:
  assumes "local_serve env b dir sock tr = (r, tr')" "kept tr = ({RsDir dir, RsFile (socket_path dir)}, 1)"
  shows "case r of
      Inr h \<Rightarrow> holds_exactly h tr' \<and> nh_transport h = LocalSocket
    | Inl _ \<Rightarrow> kept tr' = ({RsDir dir, RsFile (socket_path dir)}, 0)"
proof -
  let ?mp = "ascii (mb_mountpoint b)"
  let ?own = "{RsDir dir, RsFile (socket_path dir)}"
  obtain secret tr1 where rnd: "random_bytes env 16 tr = (secret, tr1)" by fastforce
  define h where "h = handle_from_secret secret"
  define srv where "srv = next_server tr1"
  define tr2 where "tr2 = sys_do (SysSpawnServer srv h
      \<lparr>nc_serve_mount = False, nc_export = export_from_secret (replicate 16 0)\<rparr>) tr1"
  obtain rc tr3 where cm: "call_mount env b sock h (volume_label (mb_fs_name b)) tr2 = (rc, tr3)" by fastforce
  obtain rv tr4 where vf: "(case rc of Inl e \<Rightarrow> (Inl e, tr3) | Inr _ \<Rightarrow> verify_mount env (mb_mountpoint b) tr3) = (rv, tr4)"
    by fastforce
  obtain ru tr5 where um: "unmount_path env ?mp tr4 = (ru, tr5)" by fastforce
  have res: "(r, tr') = (case rv of
      Inl e \<Rightarrow> (Inl e, sys_do (SysJoinServer srv) (sys_do (SysStoreStop srv) tr5))
    | Inr _ \<Rightarrow> (Inr (nfs_handle_new ?mp srv LocalSocket (Some dir)), tr4))"
    using assms(1) rnd cm vf um
    by (cases rc; cases rv) (simp_all add: local_serve_def Let_def h_def srv_def tr2_def)
  have k2: "kept tr2 = (insert (RsServer srv) ?own, 0)"
    using account_random [OF rnd] assms(2) by (simp add: tr2_def accounts kept_def Let_def)
  have k4: "kept tr4 = kept tr3"
    using vf account_verify by (cases rc) (auto simp: kept_def)
  have m: "kept tr3 = (insert (RsMount ?mp) (insert (RsServer srv) ?own), 0) \<and> cstring_error ?mp = None \<or>
      kept tr3 = kept tr2 \<and> rc \<noteq> Inr ()"
    using kept_call_mount [OF cm] k2 by (cases rc) auto
  show ?thesis
  proof (cases rv)
    case (Inr u)
    then have "rc = Inr ()" using vf by (cases rc) auto
    with m have "kept tr4 = (insert (RsMount ?mp) (insert (RsServer srv) ?own), 0)" "cstring_error ?mp = None"
      using k4 by simp_all
    with Inr res show ?thesis by (auto simp: holds_kept handle_resources_def nfs_handle_new_def)
  next
    case (Inl e)
    have "kept tr5 = (insert (RsServer srv) ?own, 0)"
      using kept_unmount_path [OF um] m k2 k4 by auto
    with Inl res show ?thesis by (simp add: kept_stop_join)
  qed
qed

lemma mount_in_accounts:
  assumes "mount_in env b dir tr = (r, tr')" "kept tr = ({RsDir dir}, 0)"
  shows "case r of
      Inr h \<Rightarrow> holds_exactly h tr' \<and> nh_transport h = LocalSocket
    | Inl _ \<Rightarrow> fst (kept tr') \<subseteq> {RsDir dir, RsFile (socket_path dir)} \<and> snd (kept tr') = 0"
proof -
  let ?sock = "socket_path dir"
  obtain rb tr1 where bd: "sys_try env (SysBindUnix ?sock) tr = (rb, tr1)" by fastforce
  obtain rs tr2 where sm: "sys_try env (SysSetMode ?sock 0x180) tr1 = (rs, tr2)" by fastforce
  have k1: "kept tr1 = (if isl rb then {RsDir dir} else {RsDir dir, RsFile ?sock}, if isl rb then 0 else 1)"
    using account_try [OF bd] assms(2) by (auto simp: kept_def)
  have k2: "kept tr2 = kept tr1" "kept (sys_do SysDropListener tr2) = (fst (kept tr1), snd (kept tr1) - 1)"
    using account_try [OF sm] by (auto simp: kept_def accounts)
  have serve: "case r of
      Inr h \<Rightarrow> holds_exactly h tr' \<and> nh_transport h = LocalSocket
    | Inl _ \<Rightarrow> fst (kept tr') \<subseteq> {RsDir dir, RsFile ?sock} \<and> snd (kept tr') = 0"
    if "local_serve env b dir str tr2 = (r, tr')" "rb = Inr ()" for str
    using local_serve_accounts [OF that(1)] k1 k2 that(2) by (cases r) auto
  consider "r \<noteq> Inr (projr r)" "tr' = tr" | "rb \<noteq> Inr ()" "r \<noteq> Inr (projr r)" "tr' = tr1"
    | "rb = Inr ()" "r \<noteq> Inr (projr r)" "tr' = sys_do SysDropListener tr2"
    | str where "rb = Inr ()" "local_serve env b dir str tr2 = (r, tr')"
    using assms(1) bd sm
    by (auto simp: mount_in_def Let_def split: prod.splits sum.splits option.splits if_splits)
  then show ?thesis
  proof cases
    case 4
    then show ?thesis using serve by blast
  qed (use k1 k2 assms(2) in \<open>cases r; cases rb; auto\<close>)+
qed

lemma local_mount_accounts:
  assumes "local_mount env b tr = (r, tr')" "all_released tr"
  shows "case r of Inr h \<Rightarrow> holds_exactly h tr' \<and> nh_transport h = LocalSocket | Inl _ \<Rightarrow> all_released tr'"
proof -
  obtain rd tr1 where cr: "socket_dir_create env tr = (rd, tr1)" by fastforce
  have k1: "kept tr1 = (case rd of Inr dir \<Rightarrow> ({RsDir dir}, 0) | Inl _ \<Rightarrow> ({}, 0))"
    using cr assms(2) by (auto simp: socket_dir_create_def Let_def released_kept kept_def
        dest!: account_try account_random split: prod.splits sum.splits)
  show ?thesis
  proof (cases rd)
    case (Inl e)
    with assms cr k1 show ?thesis by (auto simp: local_mount_def released_kept)
  next
    case (Inr dir)
    obtain rm tr2 where mi: "mount_in env b dir tr1 = (rm, tr2)" by fastforce
    from k1 Inr have "kept tr1 = ({RsDir dir}, 0)" by simp
    from mount_in_accounts [OF mi this] show ?thesis
      using assms(1) cr Inr mi
      by (cases rm) (auto simp: local_mount_def released_kept kept_remove_dir)
  qed
qed

lemma run_mount_nfs_kept:
  "run_mount_nfs env args tr = (r, tr') \<Longrightarrow>
     (case r of
        Inr _ \<Rightarrow> (\<forall>a \<in> set args. 0 \<notin> set a) \<and> kept tr' = (insert (RsMount (last args)) (fst (kept tr)), snd (kept tr))
      | Inl _ \<Rightarrow> kept tr' = kept tr)"
  by (auto simp: run_mount_nfs_def Let_def accounts kept_def split: sum.splits if_splits)

lemma tcp_serve_accounts:
  assumes "tcp_serve env b hdl ex port tr = (r, tr')" "kept tr = ({}, 1)"
  shows "case r of Inr h \<Rightarrow> holds_exactly h tr' \<and> nh_transport h = Tcp | Inl _ \<Rightarrow> all_released tr'"
proof -
  let ?mp = "ascii (mb_mountpoint b)"
  let ?args = "mount_nfs_args port (export_path_of ex (volume_label (mb_fs_name b))) (mb_mountpoint b)"
  define srv where "srv = next_server tr"
  define tr1 where "tr1 = sys_do (SysSpawnServer srv hdl \<lparr>nc_serve_mount = True, nc_export = ex\<rparr>) tr"
  obtain rn tr2 where rn: "run_mount_nfs env ?args tr1 = (rn, tr2)" by fastforce
  define tr3 where "tr3 = sys_do (SysStoreServeMount srv False) tr2"
  have k1: "kept tr1 = ({RsWindow srv, RsServer srv}, 0)"
    using assms(2) by (auto simp: tr1_def accounts kept_def Let_def)
  have k3: "kept tr3 = (fst (kept tr2) - {RsWindow srv}, snd (kept tr2))"
    by (simp add: tr3_def accounts kept_def)
  have last: "last ?args = ?mp" "?mp \<in> set ?args" by (simp_all add: mount_nfs_args_def)
  show ?thesis
  proof (cases rn)
    case (Inl e)
    then have "kept tr2 = kept tr1" using run_mount_nfs_kept [OF rn] by simp
    moreover have "r = Inl e" "tr' = sys_do (SysJoinServer srv) (sys_do (SysStoreStop srv) tr3)"
      using assms(1) rn Inl by (auto simp: tcp_serve_def Let_def tr3_def simp flip: srv_def tr1_def)
    ultimately show ?thesis using k1 k3 by (simp add: released_kept kept_stop_join)
  next
    case (Inr u)
    then have "kept tr2 = (insert (RsMount ?mp) (fst (kept tr1)), snd (kept tr1))" "0 \<notin> set ?mp"
      using run_mount_nfs_kept [OF rn] last by auto
    moreover have "r = Inr (nfs_handle_new ?mp srv Tcp None)" "tr' = tr3"
      using assms(1) rn Inr by (auto simp: tcp_serve_def Let_def tr3_def simp flip: srv_def tr1_def)
    ultimately show ?thesis using k1 k3
      by (auto simp: holds_kept handle_resources_def nfs_handle_new_def cstring_error_def)
  qed
qed

lemma tcp_mount_accounts:
  assumes "tcp_mount env b tr = (r, tr')" "all_released tr"
  shows "case r of Inr h \<Rightarrow> holds_exactly h tr' \<and> nh_transport h = Tcp | Inl _ \<Rightarrow> all_released tr'"
proof -
  obtain s1 tr1 where r1: "random_bytes env 16 tr = (s1, tr1)" by fastforce
  obtain s2 tr2 where r2: "random_bytes env 16 tr1 = (s2, tr2)" by fastforce
  obtain rb tr3 where bt: "sys_try env SysBindTcp tr2 = (rb, tr3)" by fastforce
  define tr4 where "tr4 = tr3 @ [(SysLocalAddr, \<not> isl (env_port env tr3))]"
  have k3: "kept tr3 = ({}, if isl rb then 0 else 1)"
    using account_random [OF r1] account_random [OF r2] account_try [OF bt] assms(2)
    by (simp add: kept_def released_kept)
  then have k4: "kept tr4 = kept tr3" "kept (sys_do SysDropListener tr4) = ({}, 0)"
    by (auto simp: tr4_def kept_def accounts)
  show ?thesis
  proof (cases "\<exists>u port. rb = Inr u \<and> env_port env tr3 = Inr port")
    case True
    then obtain port where p: "rb = Inr ()" "env_port env tr3 = Inr port" by auto
    with assms(1) r1 r2 bt have "tcp_serve env b (handle_from_secret s1) (export_from_secret s2) port tr4 = (r, tr')"
      by (simp add: tcp_mount_def Let_def tr4_def)
    from tcp_serve_accounts [OF this] k3 k4 p(1) show ?thesis by simp
  next
    case False
    with assms(1) r1 r2 bt k3 k4(2) show ?thesis
      by (cases rb; cases "env_port env tr3") (auto simp: tcp_mount_def Let_def tr4_def released_kept)
  qed
qed

lemma nfs_mount_accounts:
  assumes "nfs_mount feat hst env b tr = (r, tr')" "all_released tr"
  shows "case r of Inr h \<Rightarrow> holds_exactly h tr' | Inl _ \<Rightarrow> all_released tr'"
proof -
  obtain rl tr1 where lm: "local_mount env b tr = (rl, tr1)" by fastforce
  note l = local_mount_accounts [OF lm assms(2)]
  have t: "case r of Inr h \<Rightarrow> holds_exactly h tr' | Inl _ \<Rightarrow> all_released tr'"
    if "tcp_mount env b tr0 = (r, tr')" "all_released tr0" for tr0
    using tcp_mount_accounts [OF that] by (cases r) auto
  show ?thesis
    using assms lm l t
    by (cases rl) (auto simp: nfs_mount_def split: sum.splits if_splits)
qed

end
