(* ===== verification/Nfs_Lifecycle.thy ===== *)
theory Nfs_Lifecycle
  imports Nfs_Mount
begin

text \<open>
  What the mount and unmount functions of the NFS backend guarantee, for every way the
  operating system can answer: they ask for everything they take to be taken back, a caller who forbids the
  loopback transport never gets it, the path published on that transport authorizes exactly
  the mount it was made for, and labels are safe to put into it.
\<close>

section \<open>The contract of a backend\<close>

interpretation nfs_backend: backend_contract "nfs_mounted env" holds_exactly all_released "nfs_mount feat hst env"
  for env feat hst
proof
  show "holds_exactly h w \<Longrightarrow> md_unmount (nfs_mounted env) h w = (r, w') \<Longrightarrow> all_released w'" for h w r w'
    using nfs_unmount_releases by (simp add: nfs_mounted_def)
  show "all_released w \<Longrightarrow> nfs_mount feat hst env b w = (r, w') \<Longrightarrow>
      (case r of Inr h \<Rightarrow> holds_exactly h w' | Inl _ \<Rightarrow> all_released w')" for w b r w'
    by (rule nfs_mount_accounts)
qed

lemma all_released_Nil [simp]: "all_released []"
  by (simp add: all_released_def account_def no_resources_def)

section \<open>Nothing of the loopback transport\<close>

text \<open>A call the local-socket transport may make: no network socket, no \<open>mount_nfs\<close>, no MOUNT program.\<close>

definition local_call :: "sys_call \<times> bool \<Rightarrow> bool" where
  "local_call e = (case fst e of
     SysBindTcp \<Rightarrow> False | SysLocalAddr \<Rightarrow> False | SysMountNfs _ \<Rightarrow> False
   | SysSpawnServer _ _ c \<Rightarrow> \<not> nc_serve_mount c | SysStoreServeMount _ v \<Rightarrow> \<not> v | _ \<Rightarrow> True)"

definition local_trace :: "sys_trace \<Rightarrow> bool" where
  "local_trace tr \<longleftrightarrow> list_all local_call tr"

named_theorems locals "which steps keep a trace free of the loopback transport"

lemma local_snoc [locals]: "local_trace (tr @ [e]) \<longleftrightarrow> local_trace tr \<and> local_call e"
  by (simp add: local_trace_def)

lemma local_do [locals]: "local_trace (sys_do c tr) \<longleftrightarrow> local_trace tr \<and> local_call (c, True)"
  by (simp add: sys_do_def locals)

lemma local_try: "sys_try env c tr = (r, tr') \<Longrightarrow> local_trace tr' \<longleftrightarrow> local_trace tr \<and> local_call (c, \<not> isl r)"
  by (auto simp: sys_try_def Let_def locals)

lemma local_stat: "sys_stat env p tr = (r, tr') \<Longrightarrow> local_trace tr' \<longleftrightarrow> local_trace tr"
  by (auto simp: sys_stat_def Let_def locals local_call_def)

lemma local_random: "random_bytes env n tr = (bs, tr') \<Longrightarrow> local_trace tr' \<longleftrightarrow> local_trace tr"
  by (auto simp: random_bytes_def locals local_call_def)

lemma local_still_mounted: "still_mounted env p tr = (x, tr') \<Longrightarrow> local_trace tr' \<longleftrightarrow> local_trace tr"
  by (auto simp: still_mounted_def Let_def dest!: local_stat split: prod.splits sum.splits option.splits)

lemma local_unmount_path: "unmount_path env p tr = (r, tr') \<Longrightarrow> local_trace tr' \<longleftrightarrow> local_trace tr"
  by (auto simp: unmount_path_def local_call_def dest!: local_try local_still_mounted
      split: prod.splits sum.splits option.splits bool.splits)

lemma local_call_mount: "call_mount env b sock h label tr = (r, tr') \<Longrightarrow> local_trace tr' \<longleftrightarrow> local_trace tr"
  by (auto simp: call_mount_def Let_def local_call_def dest!: local_try split: prod.splits sum.splits option.splits)

lemma local_verify: "verify_mount env mp tr = (r, tr') \<Longrightarrow> local_trace tr' \<longleftrightarrow> local_trace tr"
  by (auto simp: verify_mount_def dest!: local_stat split: prod.splits sum.splits if_splits)

lemma local_snd_unmount_path [locals]: "local_trace (snd (unmount_path env p tr)) \<longleftrightarrow> local_trace tr"
  using local_unmount_path by (metis prod.collapse)

lemma local_remove_dir [locals]: "local_trace (socket_dir_remove env d tr) \<longleftrightarrow> local_trace tr"
  by (simp add: socket_dir_remove_def Let_def sys_try_def local_trace_def local_call_def)

lemma local_serve_local:
  "local_serve env b dir sock tr = (r, tr') \<Longrightarrow> local_trace tr' \<longleftrightarrow> local_trace tr"
  by (auto simp: local_serve_def Let_def locals local_call_def
      dest!: local_random local_call_mount local_verify split: prod.splits sum.splits)

lemma mount_in_local: "mount_in env b dir tr = (r, tr') \<Longrightarrow> local_trace tr' \<longleftrightarrow> local_trace tr"
  by (auto simp: mount_in_def Let_def locals local_call_def dest!: local_try local_serve_local
      split: prod.splits sum.splits option.splits if_splits)

lemma local_mount_local:
  assumes "local_mount env b tr = (r, tr')"
  shows "local_trace tr' \<longleftrightarrow> local_trace tr"
proof -
  have "socket_dir_create env tr = (x, tr1) \<Longrightarrow> local_trace tr1 \<longleftrightarrow> local_trace tr" for x tr1
    by (auto simp: socket_dir_create_def Let_def local_call_def dest!: local_try local_random
        split: prod.splits sum.splits)
  with assms show ?thesis
    by (auto simp: local_mount_def locals dest!: mount_in_local split: prod.splits sum.splits)
qed

section \<open>Properties\<close>

text \<open>
  C12: Whatever the operating system answers, an NFS mount accounts for everything it takes. A
  mount that fails, on whichever transport and at whichever call, has ended its server thread and
  closed its listening socket, no server answers the MOUNT program, and every socket file,
  socket directory and mount it made it has asked to be removed; what is left of those was
  refused, the call that removes it was made and failed, so that nothing is left when no such
  call fails. A mount that succeeds holds exactly one server with its socket, which does not
  answer MOUNT, its mountpoint, and on the local socket its file and directory; unmounting or
  dropping it asks for all of it back, whether or not the other calls of the teardown succeed.
  The wait for the server thread is taken to end here; when it does is the subject of C10.
\<close>

theorem nfs_lifecycle_releases:
  "case nfs_mount feat hst env b [] of
     (Inl _, tr) \<Rightarrow> all_released tr
   | (Inr h, tr) \<Rightarrow> holds_exactly h tr \<and>
       all_released (snd (mount_unmount (nfs_mounted env) (mount_new (nfs_mounted env) h p) tr)) \<and>
       all_released (snd (mount_drop (nfs_mounted env) (mount_new (nfs_mounted env) h p) tr))"
  by (rule nfs_backend.lifecycle_releases) simp

text \<open>
  C25: A caller who requires the local socket never touches the network. With
  \<open>nfs_require_local_socket\<close> set, whatever the operating system answers, mounting binds no
  TCP socket, never runs \<open>mount_nfs\<close> and never starts a server that answers the MOUNT program;
  a mount that is made reports the local socket, and one that is not is an error.
\<close>

theorem nfs_require_local_honored:
  assumes "mb_nfs_require_local_socket b" "nfs_mount feat hst env b [] = (r, tr)"
  shows "local_trace tr \<and> (case r of Inr h \<Rightarrow> nfs_uses_local_socket h | Inl _ \<Rightarrow> True)"
proof -
  obtain rl tr1 where lm: "local_mount env b [] = (rl, tr1)" by fastforce
  have l: "local_trace tr1" using local_mount_local [OF lm] by (simp add: local_trace_def)
  have u: "rl = Inr h \<Longrightarrow> nfs_uses_local_socket h" for h
    using local_mount_accounts [OF lm] by (simp add: nfs_uses_local_socket_def)
  show ?thesis
  proof (cases "preflight_check hst b (NFS_CAPS feat)")
    case (Inl e)
    with assms(2) show ?thesis by (auto simp: nfs_mount_def local_trace_def)
  next
    case (Inr x)
    then have "feat \<noteq> TcpOnly"
      using assms(1) preflight_Inr_iff [of hst b "NFS_CAPS feat"]
      by (auto simp: unsupported_option_def NFS_CAPS_def)
    with assms Inr lm l u show ?thesis by (cases rl) (auto simp: nfs_mount_def)
  qed
qed

text \<open>An environment in which every call succeeds and every mount is the one asked for.\<close>

definition kind_env :: sys_env where
  "kind_env =
     \<lparr>env_call = (\<lambda>_ _. Inr ()), env_random = (\<lambda>tr. replicate 16 (of_nat (length tr))), env_port = (\<lambda>_. Inr 2049),
      env_stat = (\<lambda>_ _. Inr (1, 7)),
      env_output = (\<lambda>_. Inr \<lparr>out_success = True, out_status = [], out_stderr = []\<rparr>)\<rparr>"

definition dir_host :: host where
  "dir_host = \<lparr>host_is_dir = (\<lambda>_. Inr True), host_has_entry = (\<lambda>_. Inr False)\<rparr>"

theorem nfs_require_local_honored_witness:
  "local_trace (snd (nfs_mount LocalAndTcp dir_host kind_env
     (set_nfs_require_local_socket True (builder_new ''/mnt'')) []))"
proof -
  obtain r tr where m: "nfs_mount LocalAndTcp dir_host kind_env
     (set_nfs_require_local_socket True (builder_new ''/mnt'')) [] = (r, tr)" by fastforce
  have "mb_nfs_require_local_socket (set_nfs_require_local_socket True (builder_new ''/mnt''))"
    by (simp add: set_nfs_require_local_socket_def)
  from nfs_require_local_honored [OF this m] m show ?thesis by simp
qed

text \<open>
  C30: When \<open>mount(2)\<close> refuses the local-socket arguments, nothing was mounted, but the failure
  path calls \<open>unmount(2)\<close> on the mountpoint all the same: on a directory that already is the
  root of another mount of the same user, the call succeeds and that mount is taken down.
\<close>

theorem local_refusal_unmounts:
  assumes "0 \<notin> set (ascii (mb_mountpoint b))"
    and "env_call env = (\<lambda>tr c. case c of SysMount _ _ _ _ \<Rightarrow> Inl e | _ \<Rightarrow> Inr ())"
  shows "\<exists>err mid. local_serve env b dir sock tr = (Inl err, tr @ mid) \<and>
    list_all (\<lambda>(c, ok). case c of SysMount _ _ _ _ \<Rightarrow> \<not> ok | _ \<Rightarrow> True) mid \<and>
    (SysUnmount (ascii (mb_mountpoint b)), True) \<in> set mid"
  using assms
  by (auto simp: local_serve_def call_mount_def unmount_path_def cstring_error_def sys_try_def sys_do_def
      random_bytes_def Let_def isl_def)

theorem local_refusal_unmounts_witness:
  "\<exists>err mid. local_serve (kind_env\<lparr>env_call := (\<lambda>tr c. case c of SysMount _ _ _ _ \<Rightarrow> Inl (io_error_other ''busy'') | _ \<Rightarrow> Inr ())\<rparr>)
      (builder_new ''/mnt'') (ascii ''/tmp/d'') (ascii ''/tmp/d/s'') [] = (Inl err, [] @ mid) \<and>
    list_all (\<lambda>(c, ok). case c of SysMount _ _ _ _ \<Rightarrow> \<not> ok | _ \<Rightarrow> True) mid \<and>
    (SysUnmount (ascii (mb_mountpoint (builder_new ''/mnt''))), True) \<in> set mid"
  by (rule local_refusal_unmounts [where e = "io_error_other ''busy''"]) (simp_all add: builder_new_def ascii_def)

section \<open>Labels\<close>

definition label_char :: "u32 \<Rightarrow> bool" where
  "label_char c \<longleftrightarrow> is_scalar c \<and> c \<noteq> 0x2F \<and> \<not> is_control c"

lemma label_push_chars:
  assumes "is_scalar c" "list_all label_char out"
  shows "list_all label_char (label_push c out) \<and> length (label_push c out) \<le> Suc (length out)"
proof -
  have "label_char 0x2D" by (simp add: label_char_def is_scalar_def is_control_def)
  with assms show ?thesis by (auto simp: label_push_def label_char_def split: bool.split)
qed

lemma fold_label_push:
  "list_all is_scalar cs \<Longrightarrow> list_all label_char out \<Longrightarrow>
     list_all label_char (fold label_push cs out) \<and> length (fold label_push cs out) \<le> length out + length cs"
proof (induction cs arbitrary: out)
  case (Cons c cs)
  then have "list_all label_char (label_push c out)" "length (label_push c out) \<le> Suc (length out)"
    using label_push_chars [of c out] by auto
  with Cons.IH [of "label_push c out"] Cons.prems(1) show ?case by fastforce
qed simp

lemma trim_matches_prefix:
  "dropWhile f xs = trim_matches f xs @ rev (takeWhile f (rev (dropWhile f xs)))"
  unfolding trim_matches_def by (metis rev_append rev_rev_ident takeWhile_dropWhile_id)

lemma trim_matches_ends:
  assumes "trim_matches f xs \<noteq> []"
  shows "\<not> f (hd (trim_matches f xs)) \<and> \<not> f (last (trim_matches f xs))"
proof -
  have ne: "dropWhile f xs \<noteq> []"
  proof
    assume "dropWhile f xs = []"
    then have "trim_matches f xs = []" unfolding trim_matches_def by (simp only: rev.simps dropWhile.simps)
    with assms show False by contradiction
  qed
  have "hd (trim_matches f xs) = hd (dropWhile f xs)"
    using assms trim_matches_prefix [of f xs] by (metis hd_append2)
  moreover have "\<not> f (last (trim_matches f xs))"
    using assms hd_dropWhile [of f "rev (dropWhile f xs)"] by (simp add: trim_matches_def last_rev)
  ultimately show ?thesis using hd_dropWhile [OF ne] by simp
qed

lemma trim_matches_part: "set (trim_matches f xs) \<subseteq> set xs \<and> length (trim_matches f xs) \<le> length xs"
proof -
  have "set (dropWhile f ys) \<subseteq> set ys" for ys :: "'a list" by (auto dest: set_dropWhileD)
  moreover have "length (dropWhile f ys) \<le> length ys" for ys :: "'a list" by (rule length_dropWhile_le)
  ultimately show ?thesis unfolding trim_matches_def by (metis length_rev order_trans set_rev)
qed

lemma default_label: "list_all label_char DEFAULT_LABEL \<and> DEFAULT_LABEL \<noteq> [] \<and> length DEFAULT_LABEL \<le> 64 \<and>
    \<not> label_trimmed (hd DEFAULT_LABEL) \<and> \<not> label_trimmed (last DEFAULT_LABEL)"
  by (simp add: DEFAULT_LABEL_def chars_def label_char_def is_scalar_def is_control_def label_trimmed_def
      is_whitespace_def)

lemma volume_label_props:
  assumes "list_all is_scalar name"
  shows "volume_label name \<noteq> [] \<and> length (volume_label name) \<le> 64 \<and> list_all label_char (volume_label name) \<and>
    \<not> label_trimmed (hd (volume_label name)) \<and> \<not> label_trimmed (last (volume_label name))"
proof -
  let ?out = "fold label_push (take MAX_LABEL_LEN name) []"
  let ?l = "trim_matches label_trimmed ?out"
  have "list_all is_scalar (take MAX_LABEL_LEN name)" using assms by (auto simp: list_all_iff dest: in_set_takeD)
  from fold_label_push [OF this, of "[]"]
  have out: "list_all label_char ?out" "length ?out \<le> 64" by (auto simp: MAX_LABEL_LEN_def)
  have l: "list_all label_char ?l" "length ?l \<le> 64"
    using trim_matches_part [of label_trimmed ?out] out by (auto simp: list_all_iff)
  show ?thesis
  proof (cases "?l = []")
    case True
    then have "volume_label name = DEFAULT_LABEL" by (simp add: volume_label_def Let_def)
    with default_label show ?thesis by simp
  next
    case False
    then have "volume_label name = ?l" by (simp add: volume_label_def Let_def)
    with False l trim_matches_ends [OF False] show ?thesis by simp
  qed
qed

section \<open>UTF-8\<close>

lemma u8_le_of_nat: "(a :: u8) \<le> of_nat k \<longleftrightarrow> unat a \<le> k mod 256"
  by (simp add: word_le_nat_alt)

lemma u8_of_nat_le: "of_nat k \<le> (a :: u8) \<longleftrightarrow> k mod 256 \<le> unat a"
  by (simp add: word_le_nat_alt)

lemma u8_of_nat_eq: "of_nat k = (a :: u8) \<longleftrightarrow> k mod 256 = unat a"
  by (simp add: word_unat_eq_iff)

lemmas u8_nat = u8_le_of_nat u8_of_nat_le u8_of_nat_eq

lemma utf8_valid_char:
  assumes "is_scalar c"
  shows "utf8_valid (char_utf8 c @ bs) = utf8_valid bs"
proof -
  define n where "n = unat c"
  have m: "k mod 64 \<le> (63 :: nat)" for k using mod_less_divisor [of 64 k] by linarith
  have sc: "n < 0xD800 \<or> 0xE000 \<le> n \<and> n < 0x110000"
    using assms by (auto simp: is_scalar_def n_def word_less_nat_alt word_le_nat_alt)
  consider (1) "n < 0x80" | (2) "0x80 \<le> n" "n < 0x800" | (3) "0x800 \<le> n" "n < 0x10000" | (4) "0x10000 \<le> n"
    by linarith
  then show ?thesis
  proof cases
    case 1
    then show ?thesis by (simp add: char_utf8_def Let_def utf8_lead_def u8_nat flip: n_def del: of_nat_add)
  next
    case 2
    then have "n div 64 < 32" "2 \<le> n div 64" by auto
    with 2 show ?thesis
      by (simp add: char_utf8_def Let_def utf8_lead_def utf8_cont_def u8_nat m flip: n_def del: of_nat_add)
  next
    case 3
    then have "n div 4096 < 16" by auto
    have e0: "n div 4096 = 0 \<Longrightarrow> 32 \<le> n div 64 mod 64" using 3 by auto
    have ed: "n div 64 mod 64 < 32" if "n div 4096 = 13"
    proof -
      have "n div 64 div 64 = 13" using that by (simp add: div_mult2_eq [symmetric])
      moreover have "n div 64 < 864" using that sc by auto
      ultimately show ?thesis by (simp add: modulo_nat_def)
    qed
    show ?thesis using 3 \<open>n div 4096 < 16\<close> e0 ed
      by (auto simp add: char_utf8_def Let_def utf8_lead_def utf8_cont_def u8_nat m simp flip: n_def simp del: of_nat_add)
  next
    case 4
    then have "n div 262144 < 5" using sc by auto
    have f0: "n div 262144 = 0 \<Longrightarrow> 16 \<le> n div 4096 mod 64" using 4 by auto
    have f4: "n div 4096 mod 64 < 16" if "n div 262144 = 4"
    proof -
      have "n div 4096 div 64 = 4" using that by (simp add: div_mult2_eq [symmetric])
      moreover have "n div 4096 < 272" using sc by auto
      ultimately show ?thesis by (simp add: modulo_nat_def)
    qed
    show ?thesis using 4 \<open>n div 262144 < 5\<close> f0 f4
      by (auto simp add: char_utf8_def Let_def utf8_lead_def utf8_cont_def u8_nat m simp flip: n_def simp del: of_nat_add)
  qed
qed

lemma utf8_valid_str: "list_all is_scalar s \<Longrightarrow> utf8_valid (str_utf8 s @ bs) = utf8_valid bs"
  by (induction s) (simp_all add: str_utf8_def utf8_valid_char)

lemma length_str_utf8: "length (str_utf8 s) \<le> 4 * length s"
proof (induction s)
  case (Cons c s)
  have "length (char_utf8 c) \<le> 4" by (simp add: char_utf8_def Let_def)
  with Cons show ?case by (simp add: str_utf8_def)
qed (simp add: str_utf8_def)

section \<open>The published path\<close>

lemma export_path_ok:
  assumes "length secret = 16" "list_all is_scalar name"
  shows "utf8_valid (export_path_of (export_from_secret secret) (volume_label name)) \<and>
    length (export_path_of (export_from_secret secret) (volume_label name)) \<le> 1024"
proof -
  have l: "list_all is_scalar (volume_label name)" "length (volume_label name) \<le> 64"
    using volume_label_props [OF assms(2)] by (auto simp: list_all_iff label_char_def)
  have hex: "utf8_valid (export_hex (export_from_secret secret) @ bs) = utf8_valid bs" for bs
  proof -
    have "list_all is_ascii_hexdigit h \<Longrightarrow> utf8_valid (h @ bs) = utf8_valid bs" for h
      by (induction h) (auto simp: utf8_lead_def is_ascii_hexdigit_def word_le_nat_alt)
    then show ?thesis using export_hex_digits by blast
  qed
  have lit: "utf8_valid (ascii ''/export/'' @ bs) = utf8_valid bs" "utf8_valid (ascii ''/'' @ bs) = utf8_valid bs" for bs
    by (simp_all add: ascii_def utf8_lead_def)
  have "utf8_valid (str_utf8 (volume_label name))" using utf8_valid_str [OF l(1), of "[]"] by simp
  then have "utf8_valid (export_path_of (export_from_secret secret) (volume_label name))"
    unfolding export_path_of_def lit hex .
  moreover have "length (str_utf8 (volume_label name)) \<le> 256" using length_str_utf8 [of "volume_label name"] l(2) by simp
  ultimately show ?thesis using assms(1) by (simp add: export_path_of_def)
qed

lemma export_path_segment:
  "export_path_of e l = EXPORT_PREFIX @ export_hex e @ (SLASH # str_utf8 l)"
  by (simp add: export_path_of_def EXPORT_PREFIX_def SLASH_def ascii_def)

text \<open>
  C29: The volume label is safe in an export path and on a screen. Whatever the name of the
  filesystem, the label is not empty and has at most 64 characters, contains no slash and no
  control character, so it adds no path segment, and neither starts nor ends with a dash, a dot
  or white space, so it is never a relative path component.
\<close>

theorem volume_label_safe:
  assumes "list_all is_scalar name"
  shows "volume_label name \<noteq> [] \<and> length (volume_label name) \<le> 64 \<and>
    list_all (\<lambda>c. is_scalar c \<and> c \<noteq> 0x2F \<and> \<not> is_control c) (volume_label name) \<and>
    hd (volume_label name) \<notin> {0x2D, 0x2E} \<and> last (volume_label name) \<notin> {0x2D, 0x2E} \<and>
    \<not> is_whitespace (hd (volume_label name)) \<and> \<not> is_whitespace (last (volume_label name))"
  using volume_label_props [OF assms] unfolding label_char_def [abs_def] by (auto simp: label_trimmed_def)

theorem volume_label_safe_witness: "volume_label (chars ''../../etc'') \<noteq> []"
  using volume_label_safe [of "chars ''../../etc''"] by (simp add: chars_def is_scalar_def)

text \<open>
  C24: The path published on the loopback transport opens exactly this mount. The export path
  \<open>tcp::mount\<close> puts on the command line of \<open>mount_nfs\<close> is accepted by this mount's own \<open>MNT\<close>
  procedure, which returns the root handle, for every name the caller gave the filesystem; the
  \<open>MNT\<close> procedure of a mount with any other export value answers it with an error and no handle.
\<close>

theorem published_path_mounts:
  assumes "length secret = 16" "length other = 16" "other \<noteq> secret"
    and "list_all is_scalar name" "reader_ok r"
    and "reader_rest r = enc_opaque_var (export_path_of (export_from_secret secret) (volume_label name)) @ t"
  shows "(\<exists>w. mnt r (export_from_secret secret) h = Success w \<and>
      writer_buf w = u32_to_be_bytes MNT3_OK @ enc_opaque_var (handle_encode h ROOT_INO) @
        u32_to_be_bytes 1 @ u32_to_be_bytes 1) \<and>
    (\<exists>st. st \<in> {MNT3ERR_NOENT, MNT3ERR_ACCES} \<and>
      mnt r (export_from_secret other) h = Success (write_u32 st writer_new))"
proof -
  let ?p = "export_path_of (export_from_secret secret) (volume_label name)"
  from export_path_ok [OF assms(1,4)] have p: "utf8_valid ?p" "length ?p \<le> 1024" by blast+
  have yes: "carries (export_hex (export_from_secret secret)) ?p"
    unfolding carries_def export_path_segment by auto
  have no: "\<not> carries (export_hex (export_from_secret other)) ?p"
  proof
    assume "carries (export_hex (export_from_secret other)) ?p"
    then obtain label where "export_hex (export_from_secret secret) @ (SLASH # str_utf8 (volume_label name)) =
        export_hex (export_from_secret other) @ label" unfolding carries_def export_path_segment by auto
    then have "export_hex (export_from_secret secret) = export_hex (export_from_secret other)"
      using assms(1,2) by (simp add: append_eq_append_conv)
    then show False using assms(3) concat_hex_byte_inj by (auto simp: export_from_secret_def)
  qed
  from mnt_outcome [OF assms(1,5,6) p(2,1), of h] mnt_outcome [OF assms(2,5,6) p(2,1), of h] show ?thesis
    unfolding if_P [OF yes] if_not_P [OF no] by blast
qed

theorem published_path_mounts_witness:
  "\<exists>w. mnt (reader_new (enc_opaque_var (export_path_of (export_from_secret (replicate 16 7)) (volume_label (chars ''docs'')))))
      (export_from_secret (replicate 16 7)) demo_handle = Success w"
proof -
  let ?p = "export_path_of (export_from_secret (replicate 16 7)) (volume_label (chars ''docs''))"
  have sc: "list_all is_scalar (chars ''docs'')" by (simp add: chars_def is_scalar_def)
  have ne: "replicate 16 (8 :: u8) \<noteq> replicate 16 7" by (simp add: replicate_eq_replicate)
  have "length ?p \<le> 1024" using export_path_ok [OF _ sc, of "replicate 16 7"] by simp
  then have ok: "reader_ok (reader_new (enc_opaque_var ?p))"
    using length_enc_opaque_var [of ?p] by simp
  have l: "length (replicate 16 (7 :: u8)) = 16" "length (replicate 16 (8 :: u8)) = 16" by simp_all
  have rest: "reader_rest (reader_new (enc_opaque_var ?p)) = enc_opaque_var ?p @ []" by simp
  from published_path_mounts [OF l ne sc ok rest, of demo_handle] show ?thesis by blast
qed

end
