(* ===== verification/Nfs_Clients.thy ===== *)
theory Nfs_Clients
  imports Nfs_Server Shared_Fs
begin

text \<open>
  What a client of the NFS server can do to the filesystem it serves. Every procedure is
  followed through all its calls, on success and on every error path: nothing that arrives on a connection changes what
  a contract-keeping filesystem shows, and no message leaves a handle open. The server
  as one of its workers sees it, while the others call the same filesystem, is \<open>shared_server\<close>.
\<close>

section \<open>What the procedures keep\<close>

text \<open>Most procedures only look: what every such call keeps, they keep.\<close>

locale looks_keep =
  fixes fs :: "'s read_only_fs"
    and R :: "'s \<Rightarrow> bool"
  assumes lookup_keeps: "R s \<Longrightarrow> fs_lookup fs p nm s = (rl, s') \<Longrightarrow> R s'"
    and getattr_keeps: "R s \<Longrightarrow> fs_getattr fs i s = (ra, s') \<Longrightarrow> R s'"
    and readdir_keeps: "R s \<Longrightarrow> fs_readdir fs i off s = (rd, s') \<Longrightarrow> R s'"
    and statfs_keeps: "R s \<Longrightarrow> fs_statfs fs s = (rf, s') \<Longrightarrow> R s'"
begin

lemma best_effort_keeps:
  "ctx_fs ctx = fs \<Longrightarrow> R s \<Longrightarrow> write_post_op_attr_best_effort ctx i w s = (w', s') \<Longrightarrow> R s'"
  by (auto simp: write_post_op_attr_best_effort_def split: prod.splits sum.splits dest: getattr_keeps)

lemma encode_dirent_keeps:
  "ctx_fs ctx = fs \<Longrightarrow> R s \<Longrightarrow> encode_dirent ctx i nm c is_plus s = (w, s') \<Longrightarrow> R s'"
  by (auto simp: encode_dirent_def Let_def split: prod.splits sum.splits if_splits dest: getattr_keeps)

lemma dirlist_keeps_state:
  assumes "ctx_fs ctx = fs"
  shows "keeps_state fs dir (dirlist_sink ctx is_plus) R"
  unfolding keeps_state_def dirlist_sink_def
  by (auto split: prod.splits if_splits dest: lookup_keeps readdir_keeps encode_dirent_keeps [OF assms])

lemma build_dirlist_keeps:
  assumes "ctx_fs ctx = fs" "R s" "build_dirlist ctx dir c b is_plus s = Some (r, s')"
  shows "R s'"
  using assms(3) emit_state [OF dirlist_keeps_state [OF assms(1)] assms(2)] assms(1)
  by (auto simp: build_dirlist_def split: option.splits prod.splits sum.splits)

lemmas call_rules = lookup_keeps [rotated] getattr_keeps [rotated] statfs_keeps [rotated]
  best_effort_keeps [rotated 2] build_dirlist_keeps [rotated 2]

lemma nfs_getattr_keeps:
  assumes "ctx_fs ctx = fs" "R s" "nfs_getattr r ctx s = (out, s')"
  shows "R s'"
  using assms(2,3) unfolding nfs_getattr_def let_some_def Let_def
  by (auto simp: assms(1) split: prod.splits option.splits sum.splits intro: call_rules assms(1))

lemma nfs_access_keeps:
  assumes "ctx_fs ctx = fs" "R s" "nfs_access r ctx s = (out, s')"
  shows "R s'"
  using assms(2,3) unfolding nfs_access_def let_some_def Let_def
  by (auto simp: assms(1) split: prod.splits option.splits sum.splits intro: call_rules assms(1))

lemma nfs_lookup_keeps:
  assumes "ctx_fs ctx = fs" "R s" "nfs_lookup r ctx s = (out, s')"
  shows "R s'"
  using assms(2,3) unfolding nfs_lookup_def let_some_def Let_def
  by (auto simp: assms(1) split: prod.splits option.splits sum.splits) (blast intro: call_rules assms(1))+

lemma fsstat_keeps:
  assumes "ctx_fs ctx = fs" "R s" "fsstat r ctx s = (out, s')"
  shows "R s'"
  using assms(2,3) unfolding fsstat_def let_some_def Let_def
  by (auto simp: assms(1) split: prod.splits option.splits sum.splits) (blast intro: call_rules assms(1))+

lemma fsinfo_keeps:
  assumes "ctx_fs ctx = fs" "R s" "fsinfo r ctx s = (out, s')"
  shows "R s'"
  using assms(2,3) unfolding fsinfo_def let_some_def Let_def
  by (auto simp: assms(1) split: prod.splits option.splits sum.splits intro: call_rules assms(1))

lemma pathconf_keeps:
  assumes "ctx_fs ctx = fs" "R s" "pathconf r ctx s = (out, s')"
  shows "R s'"
  using assms(2,3) unfolding pathconf_def let_some_def Let_def
  by (auto simp: assms(1) split: prod.splits option.splits sum.splits intro: call_rules assms(1))

lemma readdir_reply_keeps:
  assumes "ctx_fs ctx = fs" "R s" "readdir_reply ctx is_plus fh c b s = Some (out, s')"
  shows "R s'"
  using assms(2,3) unfolding readdir_reply_def Let_def
  by (auto simp: assms(1) split: prod.splits option.splits sum.splits if_splits) (blast intro: call_rules assms(1))+

lemma readdir_common_keeps:
  assumes "ctx_fs ctx = fs" "R s" "readdir_common r ctx is_plus s = Some (out, s')"
  shows "R s'"
  using assms(2,3) unfolding readdir_common_def let_some_def Let_def
  by (auto split: prod.splits option.splits if_splits intro: readdir_reply_keeps assms(1))

end

text \<open>
  \<open>READ\<close> is the one procedure that opens a handle. A request starts in a state with \<open>R\<close>; while it
  holds a handle there is \<open>Op\<close>, and whatever it does it ends with \<open>Q\<close>.
\<close>

locale request_keeps = looks_keep fs R + after: looks_keep fs Q
  for fs :: "'s read_only_fs" and R Q +
  fixes Op :: "file_handle \<Rightarrow> 's \<Rightarrow> bool"
  assumes ends: "R s \<Longrightarrow> Q s"
    and open_fails: "R s \<Longrightarrow> fs_open fs i s = (Inl e, s') \<Longrightarrow> Q s'"
    and opens: "R s \<Longrightarrow> fs_open fs i s = (Inr fh, s') \<Longrightarrow> Op fh s'"
    and reads: "Op fh s \<Longrightarrow> fs_read_at fs fh off buf s = (rb, s') \<Longrightarrow> Op fh s'"
    and releases: "Op fh s \<Longrightarrow> fs_release fs fh s = (ru, s') \<Longrightarrow> Q s'"
begin

lemma read_then_release:
  assumes "ctx_fs ctx = fs" "R s" "fs_open fs i s = (Inr fh, s1)" "read_at_buf fs fh off buf s1 = (rb, s2)"
  shows "Q (release_logging ctx fh s2)"
proof -
  obtain ra where "fs_read_at fs fh off buf s1 = (ra, s2)"
    using assms(4) by (auto simp: read_at_buf_def split: prod.splits)
  from reads [OF opens [OF assms(2,3)] this] have "Op fh s2" .
  moreover obtain ru s3 where "fs_release fs fh s2 = (ru, s3)" by fastforce
  ultimately show ?thesis using releases assms(1) by (auto simp: release_logging_def)
qed

lemma nfs_read_ends:
  assumes "ctx_fs ctx = fs" "R s" "nfs_read r ctx s = (out, s')"
  shows "Q s'"
proof -
  note best = after.best_effort_keeps [OF assms(1)] and released = read_then_release [OF assms(1,2)]
  from assms(3) ends [OF assms(2)] show ?thesis
    unfolding nfs_read_def let_some_def Let_def nfs_read_ok_def assms(1)
    by (auto split: prod.splits option.splits sum.splits)
      (blast intro: best after.getattr_keeps open_fails [OF assms(2)] released)+
qed

lemma nfs_dispatch_ends:
  assumes "ctx_fs ctx = fs" "R s" "nfs_dispatch proc r ctx s = Some (out, s')"
  shows "Q s'"
proof -
  note keep = nfs_getattr_keeps nfs_access_keeps nfs_lookup_keeps fsstat_keeps fsinfo_keeps pathconf_keeps
    readdir_common_keeps
  from assms(3) ends [OF assms(2)] show ?thesis unfolding nfs_dispatch_def
    by (auto split: if_splits intro: nfs_read_ends [OF assms(1,2)] ends [OF keep(1) [OF assms(1,2)]]
        ends [OF keep(2) [OF assms(1,2)]] ends [OF keep(3) [OF assms(1,2)]] ends [OF keep(4) [OF assms(1,2)]]
        ends [OF keep(5) [OF assms(1,2)]] ends [OF keep(6) [OF assms(1,2)]] ends [OF keep(7) [OF assms(1,2)]])
qed

lemma handle_message_ends:
  assumes "srv_fs srv = fs" "R s" "handle_message srv m m' body s = Some (rep, s')"
  shows "Q s'"
proof -
  have "Q s2"
    if "nfs_dispatch p r \<lparr>ctx_fs = srv_fs srv, ctx_handle = srv_handle srv, ctx_fsid = 1\<rparr> s = Some (out, s2)" for p r out s2
    using that by (rule nfs_dispatch_ends [rotated 2]) (simp_all add: assms)
  with assms(3) ends [OF assms(2)] show ?thesis unfolding handle_message_def Let_def
    by (auto split: prod.splits header_outcome.splits option.splits if_splits)
qed

end

text \<open>On a filesystem that keeps its contract, looking changes nothing and a request leaves nothing open.\<close>

definition holding ::
  "('s \<Rightarrow> bool) \<Rightarrow> ('s \<Rightarrow> fs_view) \<Rightarrow> ('s \<Rightarrow> file_handle \<Rightarrow> ino option) \<Rightarrow> 's \<Rightarrow> file_handle \<Rightarrow> 's \<Rightarrow> bool" where
  "holding I view live s fh s' \<longleftrightarrow> I s' \<and> view s' = view s \<and> (\<exists>i. live s' = (live s)(fh \<mapsto> i))"

sublocale ro_fs_stable \<subseteq> request: request_keeps fs "unchanged inv view live s0" "no_more_open inv view live s0"
    "holding inv view live s0" for s0
proof (unfold_locales, goal_cases)
  case (5 s p nm rl s')
  then show ?case using lookup_eq [of s p nm rl s'] by (simp add: no_more_open_def)
next
  case (6 s i ra s')
  then show ?case using getattr_eq [of s i ra s'] by (simp add: no_more_open_def)
next
  case (7 s i off rd s')
  then show ?case using readdir_keeps [of s i off rd s'] by (simp add: no_more_open_def)
next
  case (8 s rf s')
  then show ?case using statfs_keeps [of s rf s'] by (simp add: no_more_open_def)
next
  case (10 s i e s')
  then show ?case using open_keeps [of s i "Inl e" s'] by (simp add: unchanged_def no_more_open_def)
next
  case (11 s i fh s')
  then show ?case using open_keeps [of s i "Inr fh" s'] by (auto simp: unchanged_def holding_def)
next
  case (12 fh s off buf rb s')
  then show ?case using read_keeps [of s fh off buf rb s'] by (auto simp: holding_def)
next
  case (13 fh s ru s')
  then show ?case using release_live [of s fh ru s'] by (auto simp: holding_def no_more_open_def map_le_def split: if_splits)
qed (auto simp: unchanged_no_more dest: calls_unchanged)

context ro_fs_stable
begin

lemma handle_message_no_more:
  assumes "srv_fs srv = fs" "inv s" "handle_message srv m m' body s = Some (rep, s')"
  shows "no_more_open inv view live s s'"
  using request.handle_message_ends [OF assms(1) unchanged_refl [where I = inv, OF assms(2)] assms(3)] .

lemma serve_iter_no_more:
  assumes "srv_fs srv = fs" "inv s" "serve_iter srv ob c s = Some (st, c', s')"
  shows "no_more_open inv view live s s'"
  using assms(3) no_more_open_refl [of inv s, OF assms(2)] handle_message_no_more [OF assms(1,2)]
  unfolding serve_iter_def
  by (auto split: prod.splits sum.splits option.splits if_splits)

lemma serve_connection_no_more:
  assumes "srv_fs srv = fs"
  shows "inv s \<Longrightarrow> serve_connection srv obs c s = Some (st, c', s') \<Longrightarrow> no_more_open inv view live s s'"
proof (induction obs arbitrary: c s)
  case Nil
  then show ?case using no_more_open_refl [of inv s] by simp
next
  case (Cons ob obs)
  obtain st1 c1 s1 where it: "serve_iter srv ob c s = Some (st1, c1, s1)"
    using Cons.prems(2) by (auto split: option.splits)
  from serve_iter_no_more [OF assms Cons.prems(1) it] have n: "no_more_open inv view live s s1" .
  then have "inv s1" by (simp add: no_more_open_def)
  with n it Cons show ?case by (cases st1) (auto intro: no_more_open_trans)
qed

end

section \<open>The server one worker sees\<close>

definition shared_server :: "'s server \<Rightarrow> 's shared server" where
  "shared_server srv =
     \<lparr>srv_fs = interleaved (srv_fs srv), srv_handle = srv_handle srv, srv_export = srv_export srv\<rparr>"

lemma shared_server_sel [simp]:
  "srv_fs (shared_server srv) = interleaved (srv_fs srv)" "srv_handle (shared_server srv) = srv_handle srv"
  "srv_export (shared_server srv) = srv_export srv"
  by (simp_all add: shared_server_def)

section \<open>Properties\<close>

text \<open>
  C8: A client changes nothing and leaves nothing open. For every filesystem that keeps its
  contract, every byte stream a peer sends, split and failing in any way, every moment at which
  the flags are set, and whatever the other workers call meanwhile as long as they leave this
  worker's handles alone, any number of turns of the connection loop returns, with the connection
  closed or still served; afterwards the filesystem shows exactly what it showed before, and of
  the handles this connection opened none is live.
\<close>

theorem connection_changes_nothing:
  assumes "ro_fs_stable (srv_fs srv) I view live" "I s" "list_all (harmless I view live) others"
  shows "\<exists>st c' x. serve_connection (shared_server srv) obs c (shared_start others s) = Some (st, c', x) \<and>
    I (sh_fs x) \<and> view (sh_fs x) = view s \<and> (\<forall>h. h \<in> sh_own x \<longrightarrow> live (sh_fs x) h = None)"
proof -
  let ?fs = "interleaved (srv_fs srv)"
  from serve_connection_total [of "shared_server srv" obs c "shared_start others s"] obtain st c' x where
    run: "serve_connection (shared_server srv) obs c (shared_start others s) = Some (st, c', x)" by blast
  have "ro_fs_stable ?fs (sh_inv I view live) (sh_view view) (sh_live live)"
    using assms(1) by (rule ro_fs_stable.interleaved_stable)
  from ro_fs_stable.serve_connection_no_more [OF this _ _ run] assms(2,3)
  have "no_more_open (sh_inv I view live) (sh_view view) (sh_live live) (shared_start others s) x" by simp
  from no_more_shared [OF this] run show ?thesis by blast
qed

theorem connection_changes_nothing_witness:
  "\<exists>st c' x. serve_connection (shared_server demo_server)
      (replicate 3 \<lparr>obs_stop = False, obs_mount = True, obs_mount' = True\<rparr>)
      \<lparr>inbox = [Data (frame (demo_call NFS_PROG 3 6)), Data [1, 2, 3], Fail (io_error_other ''reset'')],
       sent = [], send_limit = None\<rparr>
      (shared_start demo_others mem_fs_new) =
      Some (st, c', x) \<and>
    mem_inv (sh_fs x) \<and> mem_view 0 0 (sh_fs x) = mem_view 0 0 mem_fs_new \<and>
    (\<forall>h. h \<in> sh_own x \<longrightarrow> open_files (sh_fs x) h = None)"
proof -
  have stable: "ro_fs_stable (srv_fs demo_server) mem_inv (mem_view 0 0) open_files"
    by (simp add: demo_server_def memfs_stable.ro_fs_stable_axioms)
  from connection_changes_nothing [OF stable mem_fs_new_inv demo_others_harmless] show ?thesis .
qed

end
