(* ===== verification/Nfs_Session.thy ===== *)
theory Nfs_Session
  imports Nfs_Clients
begin

text \<open>
  What a client of the NFS program sees. A request is a value of \<open>nfs_request\<close> with its RPC
  message, and \<open>spec_reply\<close> is the body of the reply as a function of what the filesystem shows:
  no state of an implementation, no call of the filesystem and no code of the server occurs in
  it. The theorems say that a connection, with its bytes split in any way and other workers
  calling the same filesystem, is answered by these replies.
\<close>

section \<open>Messages\<close>

text \<open>A call message without credentials and the reply to a call that succeeded.\<close>

definition client_call :: "u32 \<Rightarrow> u32 \<Rightarrow> u32 \<Rightarrow> bytes \<Rightarrow> bytes" where
  "client_call xid prog proc args =
     enc_call \<lparr>ch_xid = xid, ch_prog = prog, ch_vers = 3, ch_proc = proc\<rparr> 0 [] 0 [] @ args"

definition success_reply :: "u32 \<Rightarrow> bytes \<Rightarrow> bytes" where
  "success_reply xid body = build_reply xid (Success \<lparr>writer_buf = body\<rparr>)"

lemma success_reply_writer: "writer_buf w = body \<Longrightarrow> build_reply xid (Success w) = success_reply xid body"
  by (simp add: success_reply_def build_reply_def extend_from_def Let_def)

lemma client_call_header:
  assumes "length args < 2 ^ 62"
  obtains r where "read_call_header (reader_new (client_call xid prog proc args)) =
      (Call \<lparr>ch_xid = xid, ch_prog = prog, ch_vers = 3, ch_proc = proc\<rparr>, r)"
    "reader_ok r" "reader_rest r = args"
proof -
  let ?h = "\<lparr>ch_xid = xid, ch_prog = prog, ch_vers = 3, ch_proc = proc\<rparr>"
  have "length (enc_call ?h 0 [] 0 [] @ args) < 2 ^ 63"
    using assms by (simp add: enc_call_def enc_opaque_var_def enc_opaque_fixed_def)
  from call_header_decoded [OF _ _ this] that show thesis by (auto simp: client_call_def)
qed

lemma nfs_message:
  assumes "read_call_header (reader_new msg) =
      (Call \<lparr>ch_xid = xid, ch_prog = NFS_PROG, ch_vers = 3, ch_proc = proc\<rparr>, r)"
    and "nfs_dispatch proc r \<lparr>ctx_fs = srv_fs srv, ctx_handle = srv_handle srv, ctx_fsid = 1\<rparr> s =
      Some (Success w, s')" "writer_buf w = body"
  shows "handle_message srv m m' msg s = Some (Some (success_reply xid body), s')"
  using assms by (simp add: handle_message_def NFS_PROG_def MOUNT_PROG_def success_reply_writer)

section \<open>Requests\<close>

text \<open>
  The calls of the program with their arguments. \<open>RqChange\<close> is any call that would write, or
  one about symbolic links, by its procedure number and with any argument bytes.
\<close>

datatype nfs_request =
    RqNull
  | RqGetattr bytes
  | RqLookup bytes os_string
  | RqAccess bytes u32
  | RqRead bytes u64 u32
  | RqReaddir bool bytes u64 bytes u32 u32
  | RqFsstat bytes
  | RqFsinfo bytes
  | RqPathconf bytes
  | RqChange u32 bytes

fun request_proc :: "nfs_request \<Rightarrow> u32" where
  "request_proc RqNull = 0"
| "request_proc (RqGetattr fh) = 1"
| "request_proc (RqLookup fh nm) = 3"
| "request_proc (RqAccess fh m) = 4"
| "request_proc (RqRead fh off cnt) = 6"
| "request_proc (RqReaddir is_plus fh c verf dc cnt) = (if is_plus then 17 else 16)"
| "request_proc (RqFsstat fh) = 18"
| "request_proc (RqFsinfo fh) = 19"
| "request_proc (RqPathconf fh) = 20"
| "request_proc (RqChange p args) = p"

fun request_args :: "nfs_request \<Rightarrow> bytes" where
  "request_args RqNull = []"
| "request_args (RqGetattr fh) = enc_opaque_var fh"
| "request_args (RqLookup fh nm) = args_lookup fh nm"
| "request_args (RqAccess fh m) = enc_opaque_var fh @ u32_to_be_bytes m"
| "request_args (RqRead fh off cnt) = args_read fh off cnt"
| "request_args (RqReaddir is_plus fh c verf dc cnt) = args_readdir is_plus fh c verf dc cnt"
| "request_args (RqFsstat fh) = enc_opaque_var fh"
| "request_args (RqFsinfo fh) = enc_opaque_var fh"
| "request_args (RqPathconf fh) = enc_opaque_var fh"
| "request_args (RqChange p args) = args"

definition request_call :: "u32 \<Rightarrow> nfs_request \<Rightarrow> bytes" where
  "request_call xid rq = client_call xid NFS_PROG (request_proc rq) (request_args rq)"

text \<open>The limits of the protocol: a handle of 64 bytes, here a name of 1024, a verifier of 8.\<close>

fun request_ok :: "nfs_request \<Rightarrow> bool" where
  "request_ok RqNull \<longleftrightarrow> True"
| "request_ok (RqGetattr fh) \<longleftrightarrow> length fh \<le> 64"
| "request_ok (RqLookup fh nm) \<longleftrightarrow> length fh \<le> 64 \<and> length nm \<le> 1024"
| "request_ok (RqAccess fh m) \<longleftrightarrow> length fh \<le> 64"
| "request_ok (RqRead fh off cnt) \<longleftrightarrow> length fh \<le> 64"
| "request_ok (RqReaddir is_plus fh c verf dc cnt) \<longleftrightarrow> length fh \<le> 64 \<and> length verf = 8"
| "request_ok (RqFsstat fh) \<longleftrightarrow> length fh \<le> 64"
| "request_ok (RqFsinfo fh) \<longleftrightarrow> length fh \<le> 64"
| "request_ok (RqPathconf fh) \<longleftrightarrow> length fh \<le> 64"
| "request_ok (RqChange p args) \<longleftrightarrow> p \<in> {2, 5, 7, 8, 9, 10, 11, 12, 13, 14, 15, 21}"

section \<open>The replies\<close>

text \<open>The attributes of an object as replies carry them, and the bytes of a read.\<close>

definition post_op :: "fs_view \<Rightarrow> ino \<Rightarrow> bytes" where
  "post_op v i = enc_post_op_attr (view_attr v i) 1"

definition spec_read :: "fs_view \<Rightarrow> ino \<Rightarrow> bytes \<Rightarrow> u64 \<Rightarrow> u32 \<Rightarrow> bytes" where
  "spec_read v i d off cnt =
     (let out = take (min (unat cnt) 1048576) (drop (unat off) d)
      in u32_to_be_bytes 0 @ post_op v i @ u32_to_be_bytes (of_nat (length out)) @
         u32_to_be_bytes (of_bool (length d \<le> unat off + length out)) @ enc_opaque_var out)"

text \<open>An entry of a listing, and the longest front of a list of entries that fits.\<close>

definition spec_entry :: "file_handle3 \<Rightarrow> fs_view \<Rightarrow> bool \<Rightarrow> entry \<Rightarrow> bytes" where
  "spec_entry h v is_plus e =
     u32_to_be_bytes 1 @ u64_to_be_bytes (ino_num (en_ino e)) @ enc_opaque_var (en_name e) @
     u64_to_be_bytes (en_cookie e) @
     (if is_plus then
        (case view_attr v (en_ino e) of
           None \<Rightarrow> u32_to_be_bytes 0 @ u32_to_be_bytes 0
         | Some a \<Rightarrow> u32_to_be_bytes 1 @ enc_fattr3 a 1 @
             u32_to_be_bytes 1 @ enc_opaque_var (handle_encode h (en_ino e)))
      else [])"

fun fitting :: "('a \<Rightarrow> nat) \<Rightarrow> nat \<Rightarrow> 'a list \<Rightarrow> 'a list" where
  "fitting sz room [] = []"
| "fitting sz room (x # xs) = (if sz x \<le> room then x # fitting sz (room - sz x) xs else [])"

definition spec_readdir ::
  "file_handle3 \<Rightarrow> fs_view \<Rightarrow> bool \<Rightarrow> ino \<Rightarrow> dir_entry list \<Rightarrow> u64 \<Rightarrow> u32 \<Rightarrow> bytes" where
  "spec_readdir h v is_plus dir es cookie cnt =
     (let todo = drop (unat cookie) (full_listing v dir es);
          now = fitting (\<lambda>e. length (spec_entry h v is_plus e)) (unat cnt - 128) todo
      in if now = [] \<and> todo \<noteq> [] then u32_to_be_bytes 10005 @ post_op v dir
         else u32_to_be_bytes 0 @ post_op v dir @ enc_opaque_fixed (cookieverf h) @
           concat (map (spec_entry h v is_plus) now) @ u32_to_be_bytes 0 @
           u32_to_be_bytes (of_bool (length now = length todo)))"

text \<open>A request with a handle this mount did not issue, and the fixed replies to changes.\<close>

definition spec_stale :: bytes where
  "spec_stale = u32_to_be_bytes 2 @ u32_to_be_bytes 0"

definition spec_change :: "u32 \<Rightarrow> bytes" where
  "spec_change p =
     (if p = 5 then u32_to_be_bytes 10004 @ u32_to_be_bytes 0
      else if p = 10 then u32_to_be_bytes 10004 @ enc_wcc_none
      else if p = 14 then u32_to_be_bytes 30 @ enc_wcc_none @ enc_wcc_none
      else if p = 15 then u32_to_be_bytes 30 @ u32_to_be_bytes 0 @ enc_wcc_none
      else u32_to_be_bytes 30 @ enc_wcc_none)"

text \<open>
  The whole reply; \<open>None\<close> when what the filesystem shows does not determine it: which error a
  missing name is, reading what is not a file, listing what is not a directory, and the
  counters of \<open>FSSTAT\<close>.
\<close>

fun spec_reply :: "file_handle3 \<Rightarrow> fs_view \<Rightarrow> nfs_request \<Rightarrow> bytes option" where
  "spec_reply h v RqNull = Some []"
| "spec_reply h v (RqGetattr fh) =
     (case handle_resolve h fh of
        None \<Rightarrow> Some (u32_to_be_bytes 2)
      | Some i \<Rightarrow> (case view_attr v i of
                    None \<Rightarrow> Some (u32_to_be_bytes 2)
                  | Some a \<Rightarrow> Some (u32_to_be_bytes 0 @ enc_fattr3 a 1)))"
| "spec_reply h v (RqLookup fh nm) =
     (case handle_resolve h fh of
        None \<Rightarrow> Some spec_stale
      | Some dir \<Rightarrow> map_option (\<lambda>a. u32_to_be_bytes 0 @ enc_opaque_var (handle_encode h (attr_ino a)) @
                      enc_post_op_attr (Some a) 1 @ post_op v dir) (view_lookup v dir nm))"
| "spec_reply h v (RqAccess fh m) =
     (case handle_resolve h fh of
        None \<Rightarrow> Some spec_stale
      | Some i \<Rightarrow> (case view_attr v i of
                    None \<Rightarrow> Some spec_stale
                  | Some a \<Rightarrow> Some (u32_to_be_bytes 0 @ post_op v i @ u32_to_be_bytes (m AND 35))))"
| "spec_reply h v (RqRead fh off cnt) =
     (case handle_resolve h fh of
        None \<Rightarrow> Some spec_stale
      | Some i \<Rightarrow> map_option (\<lambda>d. spec_read v i d off cnt) (view_data v i))"
| "spec_reply h v (RqReaddir is_plus fh c verf dc cnt) =
     (case handle_resolve h fh of
        None \<Rightarrow> Some spec_stale
      | Some dir \<Rightarrow> map_option (\<lambda>es. spec_readdir h v is_plus dir es c cnt) (view_list v dir))"
| "spec_reply h v (RqFsstat fh) =
     (case handle_resolve h fh of None \<Rightarrow> Some spec_stale | Some i \<Rightarrow> None)"
| "spec_reply h v (RqFsinfo fh) =
     (case handle_resolve h fh of
        None \<Rightarrow> Some spec_stale
      | Some i \<Rightarrow> Some (u32_to_be_bytes 0 @ post_op v i @
          concat (map u32_to_be_bytes [1048576, 1048576, 4096, 1048576, 1048576, 4096, 32768]) @
          u64_to_be_bytes (- 1) @ concat (map u32_to_be_bytes [1, 0, 8])))"
| "spec_reply h v (RqPathconf fh) =
     (case handle_resolve h fh of
        None \<Rightarrow> Some spec_stale
      | Some i \<Rightarrow> Some (u32_to_be_bytes 0 @ post_op v i @ concat (map u32_to_be_bytes [1, 255, 1, 1, 0, 1])))"
| "spec_reply h v (RqChange p args) = Some (spec_change p)"

text \<open>
  What a client may expect of any request: the determined reply where there is one, a failure
  with the directory's attributes for a name that is not there, and a reply of the procedure's type
  otherwise.
\<close>

inductive nfs_spec :: "file_handle3 \<Rightarrow> fs_view \<Rightarrow> nfs_request \<Rightarrow> bytes \<Rightarrow> bool" for h v where
  shown: "spec_reply h v rq = Some b \<Longrightarrow> nfs_spec h v rq b"
| no_name: "handle_resolve h fh = Some dir \<Longrightarrow> view_lookup v dir nm = None \<Longrightarrow> st \<noteq> 0 \<Longrightarrow>
    nfs_spec h v (RqLookup fh nm) (u32_to_be_bytes st @ post_op v dir)"
| no_file: "handle_resolve h fh = Some i \<Longrightarrow> view_data v i = None \<Longrightarrow> xdr_enc (nfs_result_type 6) b \<Longrightarrow>
    nfs_spec h v (RqRead fh off cnt) b"
| no_dir: "handle_resolve h fh = Some i \<Longrightarrow> view_list v i = None \<Longrightarrow>
    xdr_enc (nfs_result_type (if is_plus then 17 else 16)) b \<Longrightarrow> nfs_spec h v (RqReaddir is_plus fh c verf dc cnt) b"
| counters: "handle_resolve h fh = Some i \<Longrightarrow> xdr_enc (nfs_result_type 18) b \<Longrightarrow> nfs_spec h v (RqFsstat fh) b"

section \<open>Every request is answered as specified\<close>

lemma dispatch_change:
  assumes "proc \<in> {2, 5, 7, 8, 9, 10, 11, 12, 13, 14, 15, 21}"
  shows "nfs_dispatch proc r ctx s = Some (Success \<lparr>writer_buf = spec_change proc\<rparr>, s)"
  using assms
  by (auto simp: nfs_dispatch_def reject_rofs_wcc_def reject_notsupp_wcc_def reject_rofs_rename_def
      reject_rofs_link_def reject_notsupp_readlink_def Let_def wire nfs_consts spec_change_def)

lemma fitting_le: "length (fitting sz room xs) \<le> length xs"
  by (induction xs arbitrary: room) auto

text \<open>The closure of \<open>build_dirlist\<close> over what is shown.\<close>

definition dirlist_put :: "file_handle3 \<Rightarrow> fs_view \<Rightarrow> bool \<Rightarrow> entry \<Rightarrow> dirlist_acc \<Rightarrow> sink_result \<times> dirlist_acc" where
  "dirlist_put h v is_plus e k =
     (let b = spec_entry h v is_plus e
      in if int (length b) > acc_remaining k then (Full, k)
         else (Accepted,
               \<lparr>acc_entries = extend_from \<lparr>writer_buf = b\<rparr> (acc_entries k),
                acc_remaining = acc_remaining k - int (length b), acc_packed = acc_packed k + 1\<rparr>))"

lemma feed_dirlist:
  assumes "0 \<le> acc_remaining k"
  shows "\<exists>k'. feed (dirlist_put h v is_plus) es k =
      (length (fitting (\<lambda>e. length (spec_entry h v is_plus e)) (nat (acc_remaining k)) es) < length es, k') \<and>
    writer_buf (acc_entries k') = writer_buf (acc_entries k) @
      concat (map (spec_entry h v is_plus) (fitting (\<lambda>e. length (spec_entry h v is_plus e)) (nat (acc_remaining k)) es)) \<and>
    acc_packed k' = acc_packed k + length (fitting (\<lambda>e. length (spec_entry h v is_plus e)) (nat (acc_remaining k)) es)"
  using assms
proof (induction es arbitrary: k)
  case (Cons e es)
  let ?n = "length (spec_entry h v is_plus e)"
  show ?case
  proof (cases "int ?n \<le> acc_remaining k")
    case True
    let ?k = "snd (dirlist_put h v is_plus e k)"
    have put: "fst (dirlist_put h v is_plus e k) = Accepted" using True by (simp add: dirlist_put_def Let_def)
    have k: "acc_remaining ?k = acc_remaining k - int ?n" "acc_packed ?k = acc_packed k + 1"
      "writer_buf (acc_entries ?k) = writer_buf (acc_entries k) @ spec_entry h v is_plus e"
      using True by (simp_all add: dirlist_put_def extend_from_def Let_def)
    have room: "nat (acc_remaining ?k) = nat (acc_remaining k) - ?n" "?n \<le> nat (acc_remaining k)"
      using True k(1) by (simp_all add: nat_diff_distrib le_nat_iff)
    from Cons.IH [of ?k] True k room put show ?thesis by (simp add: feed_Cons)
  next
    case False
    then have "\<not> ?n \<le> nat (acc_remaining k)" using Cons.prems by (simp add: le_nat_iff)
    with False show ?thesis by (simp add: feed_Cons dirlist_put_def Let_def)
  qed
qed simp

lemma readdir_reply_list:
  assumes "handle_resolve (ctx_handle ctx) fh = Some dir"
    and "build_dirlist ctx dir cookie (saturating_sub cnt DIRLIST_OVERHEAD) is_plus s =
      Some (Inr \<lparr>dl_entries = l, dl_eof = eof, dl_packed = n\<rparr>, s1)"
  shows "\<exists>w s'. readdir_reply ctx is_plus fh cookie cnt s = Some (Success w, s') \<and>
    writer_buf w =
      (if n = 0 \<and> \<not> eof then u32_to_be_bytes 10005 @ post_op_of ctx dir s1
       else u32_to_be_bytes 0 @ post_op_of ctx dir s1 @ enc_opaque_fixed (cookieverf (ctx_handle ctx)) @
         writer_buf l @ u32_to_be_bytes 0 @ u32_to_be_bytes (of_bool eof))"
  using assms by (simp add: readdir_reply_def best_effort_eq wire Let_def nfs_consts)

context ro_fs
begin

lemma dirlist_sink_pure:
  assumes "ctx_fs ctx = fs" "ctx_fsid ctx = 1"
  shows "sink_pure inv view v (dirlist_sink ctx is_plus) (dirlist_put (ctx_handle ctx) v is_plus)"
  unfolding sink_pure_def
proof (intro allI impI)
  fix e :: entry and k s assume s: "inv s" "view s = v"
  obtain ra s1 where ga: "fs_getattr fs (en_ino e) s = (ra, s1)" by fastforce
  from getattr_eq [OF s(1) ga] s(2) have r: "inv s1" "view s1 = v" "res_ok ra = view_attr v (en_ino e)"
    by (auto split: option.splits)
  have "u32_to_be_bytes 1 @ enc_dirent ctx is_plus (en_ino e) (en_name e) (en_cookie e)
      (dirent_attr ctx is_plus (en_ino e) s) = spec_entry (ctx_handle ctx) v is_plus e"
    using r(3) ga assms
    by (simp add: enc_dirent_def dirent_attr_def spec_entry_def enc_post_op_attr_def split: option.split)
  then show "\<exists>s'. dirlist_sink ctx is_plus e k s =
      (fst (dirlist_put (ctx_handle ctx) v is_plus e k), snd (dirlist_put (ctx_handle ctx) v is_plus e k), s') \<and>
      inv s' \<and> view s' = v"
    using r(1,2) s ga assms(1)
    by (auto simp: dirlist_sink_def encode_dirent_eq dirlist_put_def dirent_state_def writer_len_def Let_def)
qed

lemma post_op_shown:
  assumes "ctx_fs ctx = fs" "ctx_fsid ctx = 1" "inv s"
  shows "post_op_of ctx i s = post_op (view s) i"
proof -
  obtain ra s1 where ga: "fs_getattr fs i s = (ra, s1)" by fastforce
  from getattr_eq [OF assms(3) ga] ga assms(1,2) show ?thesis
    by (simp add: post_op_of_def post_op_def split: option.split)
qed

lemma readdir_reply_spec:
  assumes "ctx_fs ctx = fs" "ctx_fsid ctx = 1" "inv s"
    and "handle_resolve (ctx_handle ctx) fh = Some dir" "view_list (view s) dir = Some es"
  shows "\<exists>w s'. readdir_reply ctx is_plus fh cookie cnt s = Some (Success w, s') \<and>
    writer_buf w = spec_readdir (ctx_handle ctx) (view s) is_plus dir es cookie cnt"
proof -
  let ?h = "ctx_handle ctx" and ?v = "view s"
  let ?todo = "drop (unat cookie) (full_listing ?v dir es)"
  let ?now = "fitting (\<lambda>e. length (spec_entry ?h ?v is_plus e)) (unat cnt - 128) ?todo"
  let ?k = "dirlist_start (saturating_sub cnt DIRLIST_OVERHEAD)"
  have room: "nat (acc_remaining ?k) = unat cnt - 128"
    by (simp add: dirlist_start_def unat_saturating_sub DIRLIST_OVERHEAD_def)
  have k0: "0 \<le> acc_remaining ?k" "acc_packed ?k = 0" "writer_buf (acc_entries ?k) = []"
    by (simp_all add: dirlist_start_def)
  from feed_dirlist [OF k0(1), of ?h ?v is_plus ?todo] obtain k' where
    k': "feed (dirlist_put ?h ?v is_plus) ?todo ?k = (length ?now < length ?todo, k')"
      "writer_buf (acc_entries k') = concat (map (spec_entry ?h ?v is_plus) ?now)" "acc_packed k' = length ?now"
    unfolding room by (auto simp: k0)
  from emit_synthesize_feed [OF dirlist_sink_pure [OF assms(1,2)] assms(5,3) refl, of cookie is_plus ?k] k'(1)
  obtain s1 where em: "emit fs dir cookie Synthesize (dirlist_sink ctx is_plus) ?k s =
      Some (Inr (\<not> length ?now < length ?todo), k', s1)" "inv s1" "view s1 = ?v" by auto
  have eof: "(\<not> length ?now < length ?todo) = (length ?now = length ?todo)"
    using fitting_le [of "\<lambda>e. length (spec_entry ?h ?v is_plus e)" "unat cnt - 128" ?todo] by linarith
  note em = em [unfolded eof]
  have "build_dirlist ctx dir cookie (saturating_sub cnt DIRLIST_OVERHEAD) is_plus s =
      Some (Inr \<lparr>dl_entries = acc_entries k', dl_eof = (length ?now = length ?todo), dl_packed = length ?now\<rparr>, s1)"
    using em(1) k'(3) assms(1) by (simp add: build_dirlist_def)
  from readdir_reply_list [OF assms(4) this] obtain w s' where
    out: "readdir_reply ctx is_plus fh cookie cnt s = Some (Success w, s')"
    and w: "writer_buf w =
      (if length ?now = 0 \<and> \<not> length ?now = length ?todo then u32_to_be_bytes 10005 @ post_op_of ctx dir s1
       else u32_to_be_bytes 0 @ post_op_of ctx dir s1 @ enc_opaque_fixed (cookieverf ?h) @
         writer_buf (acc_entries k') @ u32_to_be_bytes 0 @ u32_to_be_bytes (of_bool (length ?now = length ?todo)))"
    by blast
  have "(length ?now = 0 \<and> \<not> length ?now = length ?todo) = (?now = [] \<and> ?todo \<noteq> [])"
    by (metis length_0_conv)
  note w = w [unfolded this k'(2) post_op_shown [OF assms(1,2) em(2)] em(3)]
  from out w show ?thesis unfolding spec_readdir_def Let_def by blast
qed

lemma getattr_shown:
  assumes "inv s"
  obtains s' where "fs_getattr fs i s = (case view_attr (view s) i of None \<Rightarrow> Inl NotFound | Some a \<Rightarrow> Inr a, s')"
    "inv s'" "view s' = view s"
proof -
  obtain ra s' where ga: "fs_getattr fs i s = (ra, s')" by fastforce
  from getattr_eq [OF assms ga] ga that show thesis by (auto split: option.splits)
qed

lemma lookup_spec:
  assumes "ctx_fs ctx = fs" "ctx_fsid ctx = 1" "inv s" "request_ok (RqLookup fh nm)"
    and "reader_ok r" "reader_rest r = args_lookup fh nm"
  shows "\<exists>w s'. nfs_lookup r ctx s = (Success w, s') \<and>
    nfs_spec (ctx_handle ctx) (view s) (RqLookup fh nm) (writer_buf w)"
proof -
  from handle_arg [OF assms(5)] assms(4,6) obtain r1 where r1: "reader_ok r1"
    "reader_rest r1 = enc_opaque_var nm" "read_opaque_var 64 r = (Some fh, r1)"
    by (auto simp: args_lookup_def)
  have "length nm \<le> unat (1024 :: u32)" using assms(4) by simp
  from string_item.get_rest [OF this r1(1), of "[]"] r1(2) obtain r2
    where r2: "read_string 1024 r1 = (Some nm, r2)" by auto
  show ?thesis
  proof (cases "handle_resolve (ctx_handle ctx) fh")
    case None
    with r1(3) r2 show ?thesis
      by (auto simp: nfs_lookup_def let_some_def wire spec_stale_def nfs_consts intro!: nfs_spec.shown)
  next
    case (Some dir)
    obtain rl s1 where lk: "fs_lookup fs dir nm s = (rl, s1)" by fastforce
    from lookup_eq [OF assms(3) lk] have s1: "inv s1" "view s1 = view s"
      "view_lookup (view s) dir nm = (case rl of Inr a \<Rightarrow> Some a | Inl _ \<Rightarrow> None)" by auto
    note po = post_op_shown [OF assms(1,2) s1(1), of dir]
    show ?thesis
    proof (cases rl)
      case (Inl e)
      then have "nfs_spec (ctx_handle ctx) (view s) (RqLookup fh nm) (u32_to_be_bytes (to_nfsstat3 e) @ post_op (view s) dir)"
        using s1(3) Some by (intro nfs_spec.no_name to_nfsstat3_nonzero) simp_all
      with Some r1(3) r2 lk Inl po s1(2) assms(1) show ?thesis
        by (simp add: nfs_lookup_def let_some_def Let_def best_effort_eq wire)
    next
      case (Inr a)
      with Some r1(3) r2 lk po s1(2,3) assms(1,2) show ?thesis
        by (simp add: nfs_lookup_def let_some_def Let_def best_effort_eq wire nfs_consts nfs_spec.shown)
    qed
  qed
qed

lemma getattr_spec:
  assumes "ctx_fs ctx = fs" "ctx_fsid ctx = 1" "inv s" "request_ok (RqGetattr fh)"
    and "reader_ok r" "reader_rest r = enc_opaque_var fh"
  shows "\<exists>w s'. nfs_getattr r ctx s = (Success w, s') \<and>
    nfs_spec (ctx_handle ctx) (view s) (RqGetattr fh) (writer_buf w)"
proof -
  from handle_arg [OF assms(5), of fh "[]"] assms(4,6) obtain r1 where r1: "read_opaque_var 64 r = (Some fh, r1)"
    by auto
  obtain i where i: "handle_resolve (ctx_handle ctx) fh = None \<or> handle_resolve (ctx_handle ctx) fh = Some i"
    by fastforce
  obtain s' where "fs_getattr fs i s = (case view_attr (view s) i of None \<Rightarrow> Inl NotFound | Some a \<Rightarrow> Inr a, s')"
    by (rule getattr_shown [OF assms(3)])
  with r1 i assms(1,2) show ?thesis
    by (cases "view_attr (view s) i")
      (auto simp: nfs_getattr_def let_some_def Let_def wire nfs_consts intro!: nfs_spec.shown)
qed

lemma access_spec:
  assumes "ctx_fs ctx = fs" "ctx_fsid ctx = 1" "inv s" "request_ok (RqAccess fh m)"
    and "reader_ok r" "reader_rest r = enc_opaque_var fh @ u32_to_be_bytes m"
  shows "\<exists>w s'. nfs_access r ctx s = (Success w, s') \<and>
    nfs_spec (ctx_handle ctx) (view s) (RqAccess fh m) (writer_buf w)"
proof -
  from handle_arg [OF assms(5,6)] assms(4) obtain r1 where r1: "reader_ok r1" "reader_rest r1 = u32_to_be_bytes m"
    "read_opaque_var 64 r = (Some fh, r1)" by auto
  from u32_item.get_rest [OF _ r1(1), of m "[]"] r1(2) obtain r2 where r2: "read_u32 r1 = (Some m, r2)" by auto
  obtain i where i: "handle_resolve (ctx_handle ctx) fh = None \<or> handle_resolve (ctx_handle ctx) fh = Some i"
    by fastforce
  obtain s' where "fs_getattr fs i s = (case view_attr (view s) i of None \<Rightarrow> Inl NotFound | Some a \<Rightarrow> Inr a, s')"
    by (rule getattr_shown [OF assms(3)])
  with r1(3) r2 i assms(1,2) show ?thesis
    by (cases "view_attr (view s) i")
      (auto simp: nfs_access_def let_some_def Let_def wire nfs_consts spec_stale_def post_op_def intro!: nfs_spec.shown)
qed

text \<open>The three requests whose only argument is a handle.\<close>

lemma fsinfo_spec:
  assumes "ctx_fs ctx = fs" "ctx_fsid ctx = 1" "inv s" "request_ok (RqFsinfo fh)"
    and "reader_ok r" "reader_rest r = enc_opaque_var fh"
  shows "\<exists>w s'. fsinfo r ctx s = (Success w, s') \<and>
    nfs_spec (ctx_handle ctx) (view s) (RqFsinfo fh) (writer_buf w)"
proof -
  from handle_arg [OF assms(5), of fh "[]"] assms(4,6) obtain r1 where "read_opaque_var 64 r = (Some fh, r1)" by auto
  with post_op_shown [OF assms(1-3)] show ?thesis
    by (cases "handle_resolve (ctx_handle ctx) fh")
      (auto simp: fsinfo_def let_some_def Let_def best_effort_eq wire nfs_consts spec_stale_def intro!: nfs_spec.shown)
qed

lemma pathconf_spec:
  assumes "ctx_fs ctx = fs" "ctx_fsid ctx = 1" "inv s" "request_ok (RqPathconf fh)"
    and "reader_ok r" "reader_rest r = enc_opaque_var fh"
  shows "\<exists>w s'. pathconf r ctx s = (Success w, s') \<and>
    nfs_spec (ctx_handle ctx) (view s) (RqPathconf fh) (writer_buf w)"
proof -
  from handle_arg [OF assms(5), of fh "[]"] assms(4,6) obtain r1 where "read_opaque_var 64 r = (Some fh, r1)" by auto
  with post_op_shown [OF assms(1-3)] show ?thesis
    by (cases "handle_resolve (ctx_handle ctx) fh")
      (auto simp: pathconf_def let_some_def Let_def best_effort_eq wire nfs_consts spec_stale_def intro!: nfs_spec.shown)
qed

lemma fsstat_spec:
  assumes "request_ok (RqFsstat fh)" "reader_ok r" "reader_rest r = enc_opaque_var fh"
  shows "\<exists>w s'. fsstat r ctx s = (Success w, s') \<and>
    nfs_spec (ctx_handle ctx) (view s) (RqFsstat fh) (writer_buf w)"
proof -
  from handle_arg [OF assms(2), of fh "[]"] assms(1,3) obtain r1 where r1: "read_opaque_var 64 r = (Some fh, r1)" by auto
  show ?thesis
  proof (cases "handle_resolve (ctx_handle ctx) fh")
    case None
    with r1 show ?thesis
      by (auto simp: fsstat_def let_some_def wire nfs_consts spec_stale_def intro!: nfs_spec.shown)
  next
    case (Some i)
    have "\<exists>w s'. fsstat r ctx s = (Success w, s')"
      using r1 Some by (auto simp: fsstat_def let_some_def Let_def best_effort_eq split: prod.splits sum.splits)
    then obtain w s' where w: "fsstat r ctx s = (Success w, s')" by blast
    from reply_fsstat [OF this] have "xdr_enc (nfs_result_type 18) (writer_buf w)" by (simp add: nfs_result_type_def)
    with w Some show ?thesis by (auto intro: nfs_spec.counters)
  qed
qed

lemma read_spec:
  assumes "ctx_fs ctx = fs" "ctx_fsid ctx = 1" "inv s" "handle_ok (ctx_handle ctx)" "request_ok (RqRead fh off cnt)"
    and "reader_ok r" "reader_rest r = args_read fh off cnt"
  shows "\<exists>w s'. nfs_read r ctx s = (Success w, s') \<and>
    nfs_spec (ctx_handle ctx) (view s) (RqRead fh off cnt) (writer_buf w)"
proof (cases "handle_resolve (ctx_handle ctx) fh")
  case None
  from read_args [OF assms(6), of fh off cnt "[]"] assms(5,7) obtain r1 r2 r3 where
    "read_opaque_var 64 r = (Some fh, r1)" "read_u64 r1 = (Some off, r2)" "read_u32 r2 = (Some cnt, r3)" by auto
  with None show ?thesis
    by (auto simp: nfs_read_def let_some_def Let_def wire nfs_consts spec_stale_def intro!: nfs_spec.shown)
next
  case (Some i)
  then have fh: "fh = handle_encode (ctx_handle ctx) i" using fh3.resolve_iff [OF assms(4)] by blast
  show ?thesis
  proof (cases "view_data (view s) i")
    case None
    have len: "length fh \<le> 64" using assms(5) by simp
    have "\<exists>w s'. nfs_read r ctx s = (Success w, s')"
      using nfs_read_args [OF assms(6) _ len Some, of off cnt "[]" s] assms(7)
      by (auto simp: best_effort_eq nfs_read_ok_def Let_def split: prod.splits sum.splits)
    then obtain w s' where w: "nfs_read r ctx s = (Success w, s')" by blast
    from reply_read [OF this] have "xdr_enc (nfs_result_type 6) (writer_buf w)" by (simp add: nfs_result_type_def)
    with w Some None show ?thesis by (auto intro: nfs_spec.no_file)
  next
    case d: (Some d)
    have fs: "ro_fs (ctx_fs ctx) inv view live" unfolding assms(1) by (rule ro_fs_axioms)
    from nfs_read_outcome [OF fs assms(3,4) d assms(6), of off cnt] assms(7) fh Some d assms(2) show ?thesis
      by (auto simp: spec_read_def post_op_def Let_def intro!: nfs_spec.shown)
  qed
qed

lemma readdir_spec:
  assumes "ctx_fs ctx = fs" "ctx_fsid ctx = 1" "inv s" "handle_ok (ctx_handle ctx)"
    and "request_ok (RqReaddir is_plus fh c verf dc cnt)"
    and "reader_ok r" "reader_rest r = args_readdir is_plus fh c verf dc cnt"
  shows "\<exists>w s'. readdir_common r ctx is_plus s = Some (Success w, s') \<and>
    nfs_spec (ctx_handle ctx) (view s) (RqReaddir is_plus fh c verf dc cnt) (writer_buf w)"
proof -
  have com: "readdir_common r ctx is_plus s = readdir_reply ctx is_plus fh c cnt s"
    using readdir_args [OF assms(6), of is_plus fh c verf dc cnt "[]"] assms(5,7) by simp
  show ?thesis unfolding com
  proof (cases "handle_resolve (ctx_handle ctx) fh")
    case None
    then show "\<exists>w s'. readdir_reply ctx is_plus fh c cnt s = Some (Success w, s') \<and>
        nfs_spec (ctx_handle ctx) (view s) (RqReaddir is_plus fh c verf dc cnt) (writer_buf w)"
      by (auto simp: readdir_reply_def wire nfs_consts spec_stale_def intro!: nfs_spec.shown)
  next
    case (Some dir)
    show "\<exists>w s'. readdir_reply ctx is_plus fh c cnt s = Some (Success w, s') \<and>
        nfs_spec (ctx_handle ctx) (view s) (RqReaddir is_plus fh c verf dc cnt) (writer_buf w)"
    proof (cases "view_list (view s) dir")
      case None
      obtain w s' where w: "readdir_reply ctx is_plus fh c cnt s = Some (Success w, s')"
        using readdir_reply_success [of ctx is_plus fh c cnt s] by blast
      from reply_readdir [OF assms(4) this]
      have "xdr_enc (nfs_result_type (if is_plus then 17 else 16)) (writer_buf w)"
        by (cases is_plus) (simp_all add: nfs_result_type_def)
      with w Some None show ?thesis by (auto intro: nfs_spec.no_dir)
    next
      case es: (Some es)
      from readdir_reply_spec [OF assms(1-3) Some es, of is_plus c cnt] Some es show ?thesis
        by (auto intro!: nfs_spec.shown)
    qed
  qed
qed

lemma dispatch_spec:
  assumes "ctx_fs ctx = fs" "ctx_fsid ctx = 1" "inv s" "handle_ok (ctx_handle ctx)" "request_ok rq"
    and "reader_ok r" "reader_rest r = request_args rq"
  shows "\<exists>w s'. nfs_dispatch (request_proc rq) r ctx s = Some (Success w, s') \<and>
    nfs_spec (ctx_handle ctx) (view s) rq (writer_buf w)"
proof (cases rq)
  case RqNull
  then show ?thesis by (auto simp: nfs_dispatch_def intro!: nfs_spec.shown)
next
  case (RqChange p args)
  with assms(5) dispatch_change [of p r ctx s] show ?thesis by (auto intro!: nfs_spec.shown)
next
  case (RqReaddir is_plus fh c verf dc cnt)
  with readdir_spec [OF assms(1-4), of is_plus fh c verf dc cnt r] assms(5-7) show ?thesis
    by (cases is_plus) (simp_all add: nfs_dispatch_def)
next
  case (RqFsstat fh)
  with fsstat_spec [of fh r ctx s] assms(5-7) show ?thesis by (simp add: nfs_dispatch_def)
qed (use assms getattr_spec [OF assms(1-3)] lookup_spec [OF assms(1-3)] access_spec [OF assms(1-3)]
      read_spec [OF assms(1-4)] fsinfo_spec [OF assms(1-3)] pathconf_spec [OF assms(1-3)] in
      \<open>simp_all add: nfs_dispatch_def\<close>)

end

section \<open>A connection\<close>

text \<open>The replies to a sequence of calls, each with its transaction id.\<close>

definition answered :: "file_handle3 \<Rightarrow> fs_view \<Rightarrow> (u32 \<times> nfs_request) list \<Rightarrow> bytes list \<Rightarrow> bool" where
  "answered h v = list_all2 (\<lambda>(xid, rq) rep. \<exists>b. rep = success_reply xid b \<and> nfs_spec h v rq b)"

context ro_fs_stable
begin

lemma message_spec:
  assumes "srv_fs srv = fs" "inv s" "handle_ok (srv_handle srv)" "request_ok rq" "length (request_args rq) < 2 ^ 62"
  shows "\<exists>b s'. handle_message srv m m' (request_call xid rq) s = Some (Some (success_reply xid b), s') \<and>
    nfs_spec (srv_handle srv) (view s) rq b \<and> no_more_open inv view live s s'"
proof -
  let ?ctx = "\<lparr>ctx_fs = srv_fs srv, ctx_handle = srv_handle srv, ctx_fsid = 1\<rparr>"
  from client_call_header [OF assms(5), of xid NFS_PROG "request_proc rq"] obtain r where r:
    "read_call_header (reader_new (request_call xid rq)) =
      (Call \<lparr>ch_xid = xid, ch_prog = NFS_PROG, ch_vers = 3, ch_proc = request_proc rq\<rparr>, r)"
    "reader_ok r" "reader_rest r = request_args rq" unfolding request_call_def .
  from dispatch_spec [of ?ctx s rq r] assms(1-4) r(2,3) obtain w s' where
    w: "nfs_dispatch (request_proc rq) r ?ctx s = Some (Success w, s')"
      "nfs_spec (srv_handle srv) (view s) rq (writer_buf w)" by auto
  from nfs_message [OF r(1) w(1) refl, of m m'] have
    h: "handle_message srv m m' (request_call xid rq) s = Some (Some (success_reply xid (writer_buf w)), s')" .
  from handle_message_no_more [OF assms(1,2) h] h w(2) show ?thesis by blast
qed

lemma answers_spec:
  assumes "srv_fs srv = fs" "handle_ok (srv_handle srv)"
  shows "inv s \<Longrightarrow> list_all (\<lambda>(xid, rq). request_ok rq \<and> length (request_args rq) < 2 ^ 62) calls \<Longrightarrow>
    answered (srv_handle srv) (view s) calls (fst (answers srv m m' (map (\<lambda>(xid, rq). request_call xid rq) calls) s)) \<and>
    no_more_open inv view live s (snd (answers srv m m' (map (\<lambda>(xid, rq). request_call xid rq) calls) s))"
proof (induction calls arbitrary: s)
  case Nil
  then show ?case by (simp add: answered_def no_more_open_refl)
next
  case (Cons call calls)
  obtain xid rq where c: "call = (xid, rq)" by fastforce
  from message_spec [OF assms(1) Cons.prems(1) assms(2), of rq m m' xid] Cons.prems(2) c obtain b s1 where
    m: "handle_message srv m m' (request_call xid rq) s = Some (Some (success_reply xid b), s1)"
      "nfs_spec (srv_handle srv) (view s) rq b" "no_more_open inv view live s s1" by auto
  then have "inv s1" "view s1 = view s" by (simp_all add: no_more_open_def)
  with Cons.IH [of s1] Cons.prems(2) m c show ?case
    by (auto simp: answered_def split: prod.split intro: no_more_open_trans)
qed

end

lemma request_call_length: "length (request_args rq) \<le> length (request_call xid rq)"
  by (simp add: request_call_def client_call_def)

section \<open>Properties\<close>

text \<open>
  C1: A connection is served as what the filesystem shows. For every filesystem that keeps its
  contract, every sequence of NFS calls, reads, listings, handles of other mounts and calls
  that would write included, sent back to back and split into pieces in any way, and whatever the
  other workers call meanwhile as long as they leave this worker's handles alone: every call is
  answered, in order, with its transaction id, by the reply that \<open>nfs_spec\<close> gives it from what the
  filesystem showed at the start; then the connection is closed, the filesystem shows the
  same, and no handle opened for the client is live.
\<close>

theorem nfs_session_refines:
  assumes "ro_fs_stable (srv_fs srv) I view live" "I s" "list_all (harmless I view live) others"
    and "handle_ok (srv_handle srv)" "inbox_clean (inbox c)" "send_limit c = None" "\<not> obs_stop ob"
    and "inbox_data (inbox c) = concat (map (\<lambda>(xid, rq). frame (request_call xid rq)) calls)"
    and "list_all (\<lambda>(xid, rq). request_ok rq \<and> length (request_call xid rq) \<le> unat MAX_FRAGMENT_LEN) calls"
    and "length calls < n"
  shows "\<exists>c' x reps.
    serve_connection (shared_server srv) (replicate n ob) c (shared_start others s) = Some (Closed, c', x) \<and>
    sent c' = sent c @ concat (map frame reps) \<and> answered (srv_handle srv) (view s) calls reps \<and>
    I (sh_fs x) \<and> view (sh_fs x) = view s \<and> (\<forall>h. h \<in> sh_own x \<longrightarrow> live (sh_fs x) h = None)"
proof -
  let ?srv = "shared_server srv" and ?s = "shared_start others s"
  let ?bodies = "map (\<lambda>(xid, rq). request_call xid rq) calls"
  let ?ans = "answers ?srv (obs_mount ob) (obs_mount' ob) ?bodies ?s"
  have stable: "ro_fs_stable (interleaved (srv_fs srv)) (sh_inv I view live) (sh_view view) (sh_live live)"
    using assms(1) by (rule ro_fs_stable.interleaved_stable)
  have data: "inbox_data (inbox c) = concat (map frame ?bodies)"
    unfolding assms(8) by (simp add: o_def case_prod_unfold)
  have short: "\<forall>b \<in> set ?bodies. length b \<le> unat MAX_FRAGMENT_LEN"
    using assms(9) by (auto simp: list_all_iff)
  have ok: "list_all (\<lambda>(xid, rq). request_ok rq \<and> length (request_args rq) < 2 ^ 62) calls"
    unfolding list_all_iff
  proof (clarify)
    fix xid rq assume "(xid, rq) \<in> set calls"
    with assms(9) have "request_ok rq" "length (request_call xid rq) \<le> unat MAX_FRAGMENT_LEN"
      by (auto simp: list_all_iff)
    with request_call_length [of rq xid] show "request_ok rq \<and> length (request_args rq) < 2 ^ 62"
      by (simp add: MAX_FRAGMENT_LEN_def)
  qed
  from serve_connection_answers [OF assms(5) data short assms(6,7), of n ?srv ?s] assms(10) obtain c' where
    run: "serve_connection ?srv (replicate n ob) c ?s = Some (Closed, c', snd ?ans)"
      "sent c' = sent c @ concat (map frame (fst ?ans))" by auto
  from ro_fs_stable.answers_spec [OF stable, of ?srv ?s calls "obs_mount ob" "obs_mount' ob"] assms(2-4) ok
  have "answered (srv_handle srv) (view s) calls (fst ?ans)"
    and n: "no_more_open (sh_inv I view live) (sh_view view) (sh_live live) ?s (snd ?ans)" by simp_all
  with run no_more_shared [OF n] show ?thesis
    by (intro exI [of _ c'] exI [of _ "snd ?ans"] exI [of _ "fst ?ans"] conjI) simp_all
qed

text \<open>Four calls on the example filesystem: a lookup, a read of another file, a listing and a write.\<close>

definition demo_calls :: "(u32 \<times> nfs_request) list" where
  "demo_calls =
     [(1, RqLookup (handle_encode demo_handle ROOT_INO) (ascii ''hello.txt'')),
      (2, RqRead (handle_encode demo_handle (Ino 5)) 5 100),
      (3, RqReaddir True (handle_encode demo_handle ROOT_INO) 0 (replicate 8 0) 4096 4096),
      (4, RqChange 7 [1, 2, 3])]"

definition demo_bytes :: bytes where
  "demo_bytes = concat (map (\<lambda>(xid, rq). frame (request_call xid rq)) demo_calls)"

lemma demo_calls_ok:
  "list_all (\<lambda>(xid, rq). request_ok rq \<and> length (request_call xid rq) \<le> unat MAX_FRAGMENT_LEN) demo_calls"
  by (simp add: demo_calls_def request_call_def client_call_def enc_call_def enc_opaque_var_def enc_opaque_fixed_def
      args_lookup_def args_read_def args_readdir_def fh3.length_encode ascii_def MAX_FRAGMENT_LEN_def)

lemma demo_bytes_long: "33 < length demo_bytes"
  by (simp add: demo_bytes_def demo_calls_def frame_def request_call_def client_call_def enc_call_def)

theorem nfs_session_refines_witness:
  "\<exists>c' x reps.
    serve_connection (shared_server demo_server)
      (replicate 5 \<lparr>obs_stop = False, obs_mount = False, obs_mount' = False\<rparr>)
      \<lparr>inbox = [Data (take 33 demo_bytes), Data (drop 33 demo_bytes)], sent = [], send_limit = None\<rparr>
      (shared_start demo_others mem_fs_new) = Some (Closed, c', x) \<and>
    sent c' = concat (map frame reps) \<and> answered demo_handle (mem_view 0 0 mem_fs_new) demo_calls reps \<and>
    mem_inv (sh_fs x) \<and> mem_view 0 0 (sh_fs x) = mem_view 0 0 mem_fs_new \<and>
    (\<forall>h. h \<in> sh_own x \<longrightarrow> open_files (sh_fs x) h = None)"
proof -
  let ?ob = "\<lparr>obs_stop = False, obs_mount = False, obs_mount' = False\<rparr>"
  let ?c = "\<lparr>inbox = [Data (take 33 demo_bytes), Data (drop 33 demo_bytes)], sent = [], send_limit = None\<rparr>"
  have stable: "ro_fs_stable (srv_fs demo_server) mem_inv (mem_view 0 0) open_files"
    by (simp add: demo_server_def memfs_stable.ro_fs_stable_axioms)
  have h: "srv_handle demo_server = demo_handle" by (simp add: demo_server_def)
  have c: "inbox_clean (inbox ?c)" "send_limit ?c = None" "\<not> obs_stop ?ob"
    "inbox_data (inbox ?c) = concat (map (\<lambda>(xid, rq). frame (request_call xid rq)) demo_calls)"
    using demo_bytes_long by (auto simp flip: demo_bytes_def)
  have "handle_ok (srv_handle demo_server)" "length demo_calls < 5" by (simp_all add: h demo_calls_def)
  from nfs_session_refines [OF stable mem_fs_new_inv demo_others_harmless this(1) c demo_calls_ok this(2)]
  show ?thesis unfolding h by simp
qed

text \<open>
  C17: Nothing a client sends can write. Every mutating procedure, and \<open>READLINK\<close> and
  \<open>SYMLINK\<close>, is answered by one fixed reply, given byte for byte by the procedure's number:
  \<open>NFS3ERR_NOTSUPP\<close> for \<open>READLINK\<close> and \<open>SYMLINK\<close> and \<open>NFS3ERR_ROFS\<close> for the others, followed by
  the procedure's failure body with every optional attribute absent. The reply depends on
  neither the arguments nor the filesystem, and the filesystem is not called.
\<close>

theorem nfs_mutations_rejected:
  assumes "proc \<in> {2, 5, 7, 8, 9, 10, 11, 12, 13, 14, 15, 21}"
  shows "nfs_dispatch proc r ctx s = Some (Success \<lparr>writer_buf = spec_change proc\<rparr>, s)"
  using assms by (rule dispatch_change)

theorem nfs_mutations_rejected_witness:
  "nfs_dispatch 7 (reader_new [1, 2, 3]) demo_ctx mem_fs_new =
     Some (Success \<lparr>writer_buf = u32_to_be_bytes 30 @ enc_wcc_none\<rparr>, mem_fs_new) \<and>
   nfs_dispatch 10 (reader_new []) demo_ctx mem_fs_new =
     Some (Success \<lparr>writer_buf = u32_to_be_bytes 10004 @ enc_wcc_none\<rparr>, mem_fs_new)"
  using nfs_mutations_rejected [of 7 "reader_new [1, 2, 3]" demo_ctx mem_fs_new]
    nfs_mutations_rejected [of 10 "reader_new []" demo_ctx mem_fs_new] by (simp add: spec_change_def)

text \<open>The handle a request carries, and the reply to one this mount did not issue.\<close>

fun request_carries :: "bytes \<Rightarrow> nfs_request \<Rightarrow> bool" where
  "request_carries fh RqNull \<longleftrightarrow> False"
| "request_carries fh (RqGetattr x) \<longleftrightarrow> x = fh"
| "request_carries fh (RqLookup x nm) \<longleftrightarrow> x = fh"
| "request_carries fh (RqAccess x m) \<longleftrightarrow> x = fh"
| "request_carries fh (RqRead x off cnt) \<longleftrightarrow> x = fh"
| "request_carries fh (RqReaddir is_plus x c verf dc cnt) \<longleftrightarrow> x = fh"
| "request_carries fh (RqFsstat x) \<longleftrightarrow> x = fh"
| "request_carries fh (RqFsinfo x) \<longleftrightarrow> x = fh"
| "request_carries fh (RqPathconf x) \<longleftrightarrow> x = fh"
| "request_carries fh (RqChange p args) \<longleftrightarrow> take (length (enc_opaque_var fh)) args = enc_opaque_var fh"

fun foreign_reply :: "nfs_request \<Rightarrow> bytes" where
  "foreign_reply (RqGetattr fh) = u32_to_be_bytes 2"
| "foreign_reply (RqChange p args) = spec_change p"
| "foreign_reply rq = spec_stale"

lemma foreign_access_lookup:
  assumes "handle_resolve (ctx_handle ctx) fh = None" "reader_ok r" "length fh \<le> 64"
  shows "reader_rest r = args_lookup fh nm @ t \<Longrightarrow> length nm \<le> 1024 \<Longrightarrow>
      nfs_lookup r ctx s = (Success \<lparr>writer_buf = spec_stale\<rparr>, s)"
    and "reader_rest r = enc_opaque_var fh @ u32_to_be_bytes m @ t \<Longrightarrow>
      nfs_access r ctx s = (Success \<lparr>writer_buf = spec_stale\<rparr>, s)"
proof -
  assume rest: "reader_rest r = args_lookup fh nm @ t" and "length nm \<le> 1024"
  from handle_arg [OF assms(2) _ assms(3), of "enc_opaque_var nm @ t"] rest obtain r1 where r1: "reader_ok r1"
    "reader_rest r1 = enc_opaque_var nm @ t" "read_opaque_var 64 r = (Some fh, r1)" by (auto simp: args_lookup_def)
  have "length nm \<le> unat (1024 :: u32)" using \<open>length nm \<le> 1024\<close> by simp
  from string_item.get_rest [OF this r1(1,2)] obtain r2 where "read_string 1024 r1 = (Some nm, r2)" by auto
  with r1(3) assms(1) show "nfs_lookup r ctx s = (Success \<lparr>writer_buf = spec_stale\<rparr>, s)"
    by (simp add: nfs_lookup_def let_some_def Let_def wire nfs_consts spec_stale_def)
next
  assume rest: "reader_rest r = enc_opaque_var fh @ u32_to_be_bytes m @ t"
  from handle_arg [OF assms(2) rest assms(3)] obtain r1 where r1: "reader_ok r1"
    "reader_rest r1 = u32_to_be_bytes m @ t" "read_opaque_var 64 r = (Some fh, r1)" by blast
  from u32_item.get_rest [OF _ r1(1,2)] obtain r2 where "read_u32 r1 = (Some m, r2)" by auto
  with r1(3) assms(1) show "nfs_access r ctx s = (Success \<lparr>writer_buf = spec_stale\<rparr>, s)"
    by (simp add: nfs_access_def let_some_def Let_def wire nfs_consts spec_stale_def)
qed

lemma foreign_read_readdir:
  assumes "handle_resolve (ctx_handle ctx) fh = None" "reader_ok r" "length fh \<le> 64"
  shows "reader_rest r = args_read fh off cnt @ t \<Longrightarrow>
      nfs_read r ctx s = (Success \<lparr>writer_buf = spec_stale\<rparr>, s)"
    and "reader_rest r = args_readdir is_plus fh c verf dc cnt @ t \<Longrightarrow> length verf = 8 \<Longrightarrow>
      readdir_common r ctx is_plus s = Some (Success \<lparr>writer_buf = spec_stale\<rparr>, s)"
proof -
  assume "reader_rest r = args_read fh off cnt @ t"
  from read_args [OF assms(2) this assms(3)] obtain r1 r2 r3 where
    "read_opaque_var 64 r = (Some fh, r1)" "read_u64 r1 = (Some off, r2)" "read_u32 r2 = (Some cnt, r3)" .
  with assms(1) show "nfs_read r ctx s = (Success \<lparr>writer_buf = spec_stale\<rparr>, s)"
    by (simp add: nfs_read_def let_some_def Let_def wire nfs_consts spec_stale_def)
next
  assume "reader_rest r = args_readdir is_plus fh c verf dc cnt @ t" "length verf = 8"
  from readdir_args [OF assms(2) this(1) assms(3) this(2), of ctx s] assms(1)
  show "readdir_common r ctx is_plus s = Some (Success \<lparr>writer_buf = spec_stale\<rparr>, s)"
    by (simp add: readdir_reply_def wire nfs_consts spec_stale_def)
qed

lemma foreign_handle_only:
  assumes "handle_resolve (ctx_handle ctx) fh = None" "reader_ok r" "length fh \<le> 64"
    and "reader_rest r = enc_opaque_var fh @ t"
  shows "nfs_getattr r ctx s = (Success \<lparr>writer_buf = u32_to_be_bytes 2\<rparr>, s)"
    and "fsstat r ctx s = (Success \<lparr>writer_buf = spec_stale\<rparr>, s)"
    and "fsinfo r ctx s = (Success \<lparr>writer_buf = spec_stale\<rparr>, s)"
    and "pathconf r ctx s = (Success \<lparr>writer_buf = spec_stale\<rparr>, s)"
proof -
  from handle_arg [OF assms(2,4,3)] obtain r' where "read_opaque_var 64 r = (Some fh, r')" by blast
  with assms(1) show "nfs_getattr r ctx s = (Success \<lparr>writer_buf = u32_to_be_bytes 2\<rparr>, s)"
    "fsstat r ctx s = (Success \<lparr>writer_buf = spec_stale\<rparr>, s)"
    "fsinfo r ctx s = (Success \<lparr>writer_buf = spec_stale\<rparr>, s)"
    "pathconf r ctx s = (Success \<lparr>writer_buf = spec_stale\<rparr>, s)"
    by (simp_all add: nfs_getattr_def fsstat_def fsinfo_def pathconf_def let_some_def wire nfs_consts spec_stale_def)
qed

text \<open>
  C16: A handle this mount did not issue reaches nothing. Every request with well-formed
  arguments that carries a file handle which is not the encoding of an inode under this
  mount's secret, whatever bytes follow its arguments, is answered for every filesystem by one
  fixed reply: \<open>NFS3ERR_NOENT\<close> without attributes (the status alone for \<open>GETATTR\<close>), or the
  refusal of a procedure that would write. The filesystem is not called at all.
\<close>

theorem nfs_foreign_handle:
  assumes "handle_ok (ctx_handle ctx)" "fh \<notin> range (handle_encode (ctx_handle ctx))"
    and "request_ok rq" "request_carries fh rq"
    and "reader_ok r" "reader_rest r = request_args rq @ t"
  shows "nfs_dispatch (request_proc rq) r ctx s = Some (Success \<lparr>writer_buf = foreign_reply rq\<rparr>, s)"
proof -
  have none: "handle_resolve (ctx_handle ctx) fh = None"
    using fh3.resolve_None_iff [OF assms(1)] assms(2) by simp
  note f = foreign_access_lookup [OF none assms(5)] foreign_read_readdir [OF none assms(5)]
    foreign_handle_only [OF none assms(5)]
  show ?thesis
  proof (cases rq)
    case (RqReaddir is_plus x c verf dc cnt)
    with f(4) [of is_plus c verf dc cnt t] assms(3,4,6) show ?thesis by (cases is_plus) (simp_all add: nfs_dispatch_def)
  next
    case (RqChange p args)
    with assms(3) dispatch_change [of p r ctx s] show ?thesis by simp
  qed (use assms(3,4,6) f in \<open>simp_all add: nfs_dispatch_def\<close>)
qed

theorem nfs_foreign_handle_witness:
  "nfs_dispatch 6 (reader_new (args_read [1, 2, 3] 0 100)) demo_ctx mem_fs_new =
     Some (Success \<lparr>writer_buf = u32_to_be_bytes 2 @ u32_to_be_bytes 0\<rparr>, mem_fs_new)"
proof -
  have "[1, 2, 3] \<notin> range (handle_encode (ctx_handle demo_ctx))"
    using fh3.length_encode [of demo_handle] by (force dest: arg_cong [where f = length])
  from nfs_foreign_handle [OF _ this, of "RqRead [1, 2, 3] 0 100" "reader_new (args_read [1, 2, 3] 0 100)" "[]"]
  show ?thesis
    by (simp add: args_read_def enc_opaque_var_def enc_opaque_fixed_def spec_stale_def)
qed

end
