(* ===== verification/Nfs_Client.thy ===== *)
theory Nfs_Client
  imports Nfs_Session
begin

text \<open>
  A client that decodes what it gets. The decoder is written from RFC 1831, RFC 1832 and RFC 1813
  on byte strings and shares no code with the server. Two loops use it: one reads a file with
  \<open>READ\<close> calls until it is told the end, one lists a directory with \<open>READDIR\<close> or
  \<open>READDIRPLUS\<close>, each call from the last cookie it saw. Their theorems tie the whole server
  together, from the bytes of a call to the bytes of its reply.
\<close>

section \<open>Decoding\<close>

definition get_u32 :: "bytes \<Rightarrow> (u32 \<times> bytes) option" where
  "get_u32 b = (if length b < 4 then None else Some (u32_from_be_bytes (take 4 b), drop 4 b))"

definition get_u64 :: "bytes \<Rightarrow> (u64 \<times> bytes) option" where
  "get_u64 b = (if length b < 8 then None else Some (u64_from_be_bytes (take 8 b), drop 8 b))"

definition get_skip :: "nat \<Rightarrow> bytes \<Rightarrow> bytes option" where
  "get_skip n b = (if length b < n then None else Some (drop n b))"

definition get_opaque :: "bytes \<Rightarrow> (bytes \<times> bytes) option" where
  "get_opaque b =
     Option.bind (get_u32 b) (\<lambda>(n, b).
       map_option (\<lambda>rest. (take (unat n) b, rest)) (get_skip (unat n + (4 - unat n mod 4) mod 4) b))"

text \<open>An optional item that is not looked at.\<close>

definition get_optional :: "(bytes \<Rightarrow> bytes option) \<Rightarrow> bytes \<Rightarrow> bytes option" where
  "get_optional item b = Option.bind (get_u32 b) (\<lambda>(there, b). if there = 0 then Some b else item b)"

text \<open>The body of an accepted, successful reply to the call \<open>xid\<close> whose status is \<open>NFS3_OK\<close>.\<close>

definition get_success :: "u32 \<Rightarrow> bytes \<Rightarrow> bytes option" where
  "get_success xid b =
     (if take 28 b = concat (map u32_to_be_bytes [xid, 1, 0, 0, 0, 0, 0]) then Some (drop 28 b) else None)"

definition decode_read :: "bytes \<Rightarrow> (bool \<times> bytes) option" where
  "decode_read b =
     Option.bind (get_optional (get_skip 84) b) (\<lambda>b.
     Option.bind (get_u32 b) (\<lambda>(n, b).
     Option.bind (get_u32 b) (\<lambda>(eof, b).
     Option.bind (get_opaque b) (\<lambda>(d, b).
       if length d = unat n then Some (eof \<noteq> 0, d) else None))))"

text \<open>What \<open>READDIRPLUS\<close> adds to an entry: optional attributes and an optional handle.\<close>

definition get_plus :: "bool \<Rightarrow> bytes \<Rightarrow> bytes option" where
  "get_plus is_plus b =
     (if is_plus then
        Option.bind (get_optional (get_skip 84) b) (get_optional (\<lambda>b. map_option snd (get_opaque b)))
      else Some b)"

type_synonym listed = "u64 \<times> os_string \<times> u64"

fun decode_entries :: "bool \<Rightarrow> nat \<Rightarrow> bytes \<Rightarrow> (listed list \<times> bool) option" where
  "decode_entries is_plus 0 b = None"
| "decode_entries is_plus (Suc n) b =
     Option.bind (get_u32 b) (\<lambda>(more, b).
       if more = 0 then map_option (\<lambda>(eof, b). ([], eof \<noteq> 0)) (get_u32 b)
       else
         Option.bind (get_u64 b) (\<lambda>(fileid, b).
         Option.bind (get_opaque b) (\<lambda>(nm, b).
         Option.bind (get_u64 b) (\<lambda>(cookie, b).
         Option.bind (get_plus is_plus b) (\<lambda>b.
           map_option (\<lambda>(es, eof). ((fileid, nm, cookie) # es, eof)) (decode_entries is_plus n b))))))"

definition decode_readdir :: "bool \<Rightarrow> bytes \<Rightarrow> (listed list \<times> bool) option" where
  "decode_readdir is_plus b =
     Option.bind (get_optional (get_skip 84) b) (\<lambda>b.
     Option.bind (get_skip 8 b) (\<lambda>b. decode_entries is_plus (length b) b))"

section \<open>The loops\<close>

text \<open>One call and its reply.\<close>

definition client_send :: "'s server \<Rightarrow> u32 \<Rightarrow> nfs_request \<Rightarrow> 's \<Rightarrow> bytes option \<times> 's" where
  "client_send srv xid rq s =
     (case handle_message srv False False (request_call xid rq) s of
        Some (Some rep, s) \<Rightarrow> (get_success xid rep, s)
      | Some (None, s) \<Rightarrow> (None, s)
      | None \<Rightarrow> (None, s))"

fun fetch_file :: "nat \<Rightarrow> 's server \<Rightarrow> bytes \<Rightarrow> u32 \<Rightarrow> u32 \<Rightarrow> u64 \<Rightarrow> 's \<Rightarrow> bytes option \<times> 's" where
  "fetch_file 0 srv fh cnt xid off s = (None, s)"
| "fetch_file (Suc calls) srv fh cnt xid off s =
     (case client_send srv xid (RqRead fh off cnt) s of
        (rep, s) \<Rightarrow>
          (case Option.bind rep decode_read of
             None \<Rightarrow> (None, s)
           | Some (eof, d) \<Rightarrow>
               if eof then (Some d, s)
               else (case fetch_file calls srv fh cnt (xid + 1) (off + of_nat (length d)) s of
                       (rest, s) \<Rightarrow> (map_option ((@) d) rest, s))))"

fun list_directory ::
  "nat \<Rightarrow> 's server \<Rightarrow> bool \<Rightarrow> bytes \<Rightarrow> u32 \<Rightarrow> u32 \<Rightarrow> u64 \<Rightarrow> 's \<Rightarrow> listed list option \<times> 's" where
  "list_directory 0 srv is_plus fh cnt xid cookie s = (None, s)"
| "list_directory (Suc calls) srv is_plus fh cnt xid cookie s =
     (case client_send srv xid (RqReaddir is_plus fh cookie (replicate 8 0) cnt cnt) s of
        (rep, s) \<Rightarrow>
          (case Option.bind rep (decode_readdir is_plus) of
             None \<Rightarrow> (None, s)
           | Some (es, eof) \<Rightarrow>
               if eof then (Some es, s)
               else if es = [] then (None, s)
               else (case list_directory calls srv is_plus fh cnt (xid + 1) (snd (snd (last es))) s of
                       (rest, s) \<Rightarrow> (map_option ((@) es) rest, s))))"

section \<open>What the decoder makes of the replies\<close>

lemma get_u32_enc [simp]: "get_u32 (u32_to_be_bytes x @ t) = Some (x, t)"
  by (simp add: get_u32_def)

lemma get_u32_enc_end [simp]: "get_u32 (u32_to_be_bytes x) = Some (x, [])"
  using get_u32_enc [of x "[]"] by simp

lemma get_u64_enc [simp]: "get_u64 (u64_to_be_bytes x @ t) = Some (x, t)"
  by (simp add: get_u64_def)

lemma get_skip_append: "length a = n \<Longrightarrow> get_skip n (a @ t) = Some t"
  by (simp add: get_skip_def)

lemma get_opaque_enc:
  assumes "length d < 2 ^ 32"
  shows "get_opaque (enc_opaque_var d @ t) = Some (d, t)"
proof -
  have n: "unat (of_nat (length d) :: u32) = length d" using assms by (simp add: unat_of_nat)
  then show ?thesis
    by (simp add: get_opaque_def enc_opaque_var_def enc_opaque_fixed_def get_skip_def)
qed

lemma get_post_op [simp]: "get_optional (get_skip 84) (post_op v i @ t) = Some t"
  by (simp add: get_optional_def post_op_def enc_post_op_attr_def get_skip_append split: option.split)

lemma get_success_reply [simp]: "get_success xid (success_reply xid (u32_to_be_bytes 0 @ b)) = Some b"
  by (simp add: get_success_def success_reply_def build_reply_def write_reply_header_def wire Let_def SUCCESS_def)

lemma decode_read_reply:
  "length d < 2 ^ 32 \<Longrightarrow>
   decode_read (post_op v i @ u32_to_be_bytes (of_nat (length d)) @ u32_to_be_bytes (of_bool eof) @ enc_opaque_var d) =
     Some (eof, d)"
  using get_opaque_enc [of d "[]"] by (simp add: decode_read_def unat_of_nat)

definition listed_of :: "entry \<Rightarrow> listed" where
  "listed_of e = (ino_num (en_ino e), en_name e, en_cookie e)"

lemma name_in_entry: "length (en_name e) \<le> length (spec_entry h v is_plus e)"
  by (simp add: spec_entry_def enc_opaque_var_def enc_opaque_fixed_def)

lemma decode_entry:
  assumes "handle_ok h" "length (en_name e) < 2 ^ 32"
  shows "decode_entries is_plus (Suc n) (spec_entry h v is_plus e @ t) =
    map_option (\<lambda>(es, eof). (listed_of e # es, eof)) (decode_entries is_plus n t)"
proof -
  have "length (handle_encode h (en_ino e)) < 2 ^ 32" using fh3.length_encode [OF assms(1)] by simp
  note fh = get_opaque_enc [OF this]
  let ?tail = "if is_plus then
      (case view_attr v (en_ino e) of
         None \<Rightarrow> u32_to_be_bytes 0 @ u32_to_be_bytes 0
       | Some a \<Rightarrow> u32_to_be_bytes 1 @ enc_fattr3 a 1 @ u32_to_be_bytes 1 @ enc_opaque_var (handle_encode h (en_ino e)))
    else []"
  have "get_plus is_plus (?tail @ t) = Some t"
    by (simp add: get_plus_def get_optional_def get_skip_append fh split: option.split)
  then show ?thesis
    by (simp add: spec_entry_def get_opaque_enc [OF assms(2)] listed_of_def del: if_split)
qed

lemma decode_entries_spec:
  assumes "handle_ok h"
  shows "length es < n \<Longrightarrow> \<forall>e \<in> set es. length (en_name e) < 2 ^ 32 \<Longrightarrow>
    decode_entries is_plus n (concat (map (spec_entry h v is_plus) es) @ u32_to_be_bytes 0 @ u32_to_be_bytes (of_bool eof)) =
      Some (map listed_of es, eof)"
proof (induction es arbitrary: n)
  case Nil
  then show ?case by (cases n) simp_all
next
  case (Cons e es)
  then obtain m where n: "n = Suc m" "length es < m" by (cases n) auto
  from Cons.IH [OF n(2)] Cons.prems(2) have rest:
    "decode_entries is_plus m (concat (map (spec_entry h v is_plus) es) @ u32_to_be_bytes 0 @ u32_to_be_bytes (of_bool eof)) =
      Some (map listed_of es, eof)" by simp
  have "length (en_name e) < 2 ^ 32" using Cons.prems(2) by simp
  from decode_entry [OF assms this] show ?case by (simp add: n(1) rest del: decode_entries.simps)
qed

lemma fitting_take: "fitting sz room xs = take (length (fitting sz room xs)) xs"
  by (induction xs arbitrary: room) auto

lemma fitting_ne: "xs \<noteq> [] \<Longrightarrow> sz (hd xs) \<le> room \<Longrightarrow> fitting sz room xs \<noteq> []"
  by (cases xs) auto

lemma decode_readdir_spec:
  assumes "handle_ok h" "\<forall>e \<in> set es. length (en_name e) < 2 ^ 32"
  shows "decode_readdir is_plus (post_op v dir @ enc_opaque_fixed (cookieverf h) @
      concat (map (spec_entry h v is_plus) es) @ u32_to_be_bytes 0 @ u32_to_be_bytes (of_bool eof)) =
    Some (map listed_of es, eof)"
proof -
  have "length es \<le> length (concat (map (spec_entry h v is_plus) es))"
    by (induction es) (simp_all add: spec_entry_def)
  then have n: "length es < length (concat (map (spec_entry h v is_plus) es) @ u32_to_be_bytes 0 @ u32_to_be_bytes (of_bool eof))"
    by simp
  have "length (enc_opaque_fixed (cookieverf h)) = 8" by (simp add: enc_opaque_fixed_multiple)
  with decode_entries_spec [OF assms(1) n assms(2)] show ?thesis
    by (simp only: decode_readdir_def get_post_op get_skip_append Option.bind.simps)
qed

section \<open>The loops end with everything\<close>

lemma fetch_file_step:
  assumes "client_send srv xid (RqRead fh off cnt) s = (Some b, s1)" "decode_read b = Some (False, d)"
    and "fetch_file calls srv fh cnt (xid + 1) (off + of_nat (length d)) s1 = (Some rest, s2)"
  shows "fetch_file (Suc calls) srv fh cnt xid off s = (Some (d @ rest), s2)"
  using assms by simp

lemma take_then_drop: "take m (drop c xs) @ drop (c + m) xs = drop c xs"
  using append_take_drop_id [of m "drop c xs"] by (simp add: add.commute)

lemma nfs_spec_determined: "nfs_spec h v rq b \<Longrightarrow> spec_reply h v rq = Some b' \<Longrightarrow> b = b'"
  by (induction rule: nfs_spec.cases) auto

context ro_fs_stable
begin

lemma client_send_spec:
  assumes "srv_fs srv = fs" "inv s" "handle_ok (srv_handle srv)" "request_ok rq" "length (request_args rq) < 2 ^ 62"
    and "spec_reply (srv_handle srv) (view s) rq = Some (u32_to_be_bytes 0 @ b)"
  shows "\<exists>s'. client_send srv xid rq s = (Some b, s') \<and> no_more_open inv view live s s'"
proof -
  from message_spec [OF assms(1-5), of False False xid] obtain b' s' where
    m: "handle_message srv False False (request_call xid rq) s = Some (Some (success_reply xid b'), s')"
      "nfs_spec (srv_handle srv) (view s) rq b'" "no_more_open inv view live s s'" by blast
  from nfs_spec_determined [OF m(2) assms(6)] m show ?thesis by (simp add: client_send_def)
qed

lemma send_read:
  assumes "srv_fs srv = fs" "inv s" "handle_ok (srv_handle srv)" "view_data (view s) i = Some d"
  shows "\<exists>b s'. client_send srv xid (RqRead (handle_encode (srv_handle srv) i) off cnt) s = (Some b, s') \<and>
    decode_read b = Some (length d \<le> unat off + length (take (min (unat cnt) 1048576) (drop (unat off) d)),
      take (min (unat cnt) 1048576) (drop (unat off) d)) \<and> no_more_open inv view live s s'"
proof -
  let ?rq = "RqRead (handle_encode (srv_handle srv) i) off cnt"
  let ?out = "take (min (unat cnt) 1048576) (drop (unat off) d)"
  let ?b = "post_op (view s) i @ u32_to_be_bytes (of_nat (length ?out)) @
    u32_to_be_bytes (of_bool (length d \<le> unat off + length ?out)) @ enc_opaque_var ?out"
  have hl: "length (handle_encode (srv_handle srv) i) = 24" using fh3.length_encode [OF assms(3)] by simp
  then have rq: "request_ok ?rq" "length (request_args ?rq) < 2 ^ 62"
    by (simp_all add: args_read_def enc_opaque_var_def enc_opaque_fixed_def)
  have "spec_reply (srv_handle srv) (view s) ?rq = Some (u32_to_be_bytes 0 @ ?b)"
    using assms(4) fh3.resolve_encode [OF assms(3)] by (simp add: spec_read_def Let_def)
  from client_send_spec [OF assms(1-3) rq this, of xid] obtain s' where
    "client_send srv xid ?rq s = (Some ?b, s')" "no_more_open inv view live s s'" by blast
  moreover have "length ?out < 2 ^ 32" by simp
  ultimately show ?thesis using decode_read_reply by blast
qed

lemma fetch_file_spec:
  assumes "srv_fs srv = fs" "handle_ok (srv_handle srv)" "0 < cnt" "view_data v i = Some d" "length d < 2 ^ 63"
  shows "inv s \<Longrightarrow> view s = v \<Longrightarrow> unat off \<le> length d \<Longrightarrow> length d - unat off < calls \<Longrightarrow>
    \<exists>s'. fetch_file calls srv (handle_encode (srv_handle srv) i) cnt xid off s = (Some (drop (unat off) d), s') \<and>
      no_more_open inv view live s s'"
proof (induction calls arbitrary: xid off s)
  case (Suc calls)
  let ?out = "take (min (unat cnt) 1048576) (drop (unat off) d)"
  have d: "view_data (view s) i = Some d" using assms(4) Suc.prems(2) by simp
  from send_read [OF assms(1) Suc.prems(1) assms(2) d, of xid off cnt] obtain b s1 where
    b: "client_send srv xid (RqRead (handle_encode (srv_handle srv) i) off cnt) s = (Some b, s1)"
      "decode_read b = Some (length d \<le> unat off + length ?out, ?out)" "no_more_open inv view live s s1" by blast
  show ?case
  proof (cases "length d \<le> unat off + length ?out")
    case True
    then have "length (drop (unat off) d) \<le> min (unat cnt) 1048576" using Suc.prems(3)
      unfolding length_take length_drop by linarith
    then have out: "?out = drop (unat off) d" by simp
    from b True have "fetch_file (Suc calls) srv (handle_encode (srv_handle srv) i) cnt xid off s = (Some ?out, s1)"
      by simp
    with b(3) show ?thesis unfolding out by blast
  next
    case False
    have "0 < unat cnt" using assms(3) by (simp add: word_less_nat_alt)
    then have n: "length ?out = min (unat cnt) 1048576" "0 < length ?out" using False by auto
    have off: "unat (off + of_nat (length ?out)) = unat off + length ?out"
      using False assms(5) by (simp add: unat_word_ariths unat_of_nat)
    have s1: "inv s1" "view s1 = v" using b(3) Suc.prems(2) by (simp_all add: no_more_open_def)
    have "unat (off + of_nat (length ?out)) \<le> length d" "length d - unat (off + of_nat (length ?out)) < calls"
      unfolding off using False Suc.prems(4) n(2) by linarith+
    from Suc.IH [OF s1 this, of "xid + 1"] obtain s2 where
      rest: "fetch_file calls srv (handle_encode (srv_handle srv) i) cnt (xid + 1) (off + of_nat (length ?out)) s1 =
        (Some (drop (unat (off + of_nat (length ?out))) d), s2)" "no_more_open inv view live s1 s2" by blast
    have "?out @ drop (unat (off + of_nat (length ?out))) d = drop (unat off) d"
      unfolding off unfolding n(1) by (rule take_then_drop)
    moreover from False have "(length d \<le> unat off + length ?out) = False" by blast
    from fetch_file_step [OF b(1) b(2) [unfolded this] rest(1)]
    have "fetch_file (Suc calls) srv (handle_encode (srv_handle srv) i) cnt xid off s =
        (Some (?out @ drop (unat (off + of_nat (length ?out))) d), s2)" .
    ultimately show ?thesis using no_more_open_trans [OF b(3) rest(2)] by auto
  qed
qed simp

lemma send_readdir:
  assumes "srv_fs srv = fs" "inv s" "handle_ok (srv_handle srv)" "view_list (view s) dir = Some es"
    and "todo = drop (unat cookie) (full_listing (view s) dir es)"
    and "\<forall>e \<in> set todo. 128 + length (spec_entry (srv_handle srv) (view s) is_plus e) \<le> unat cnt"
  shows "\<exists>b m s'.
    client_send srv xid (RqReaddir is_plus (handle_encode (srv_handle srv) dir) cookie (replicate 8 0) cnt cnt) s =
      (Some b, s') \<and>
    decode_readdir is_plus b = Some (map listed_of (take m todo), m = length todo) \<and>
    m \<le> length todo \<and> (todo \<noteq> [] \<longrightarrow> 0 < m) \<and> no_more_open inv view live s s'"
proof -
  let ?h = "srv_handle srv"
  let ?rq = "RqReaddir is_plus (handle_encode ?h dir) cookie (replicate 8 0) cnt cnt"
  let ?sz = "\<lambda>e. length (spec_entry ?h (view s) is_plus e)"
  let ?now = "fitting ?sz (unat cnt - 128) todo"
  let ?b = "post_op (view s) dir @ enc_opaque_fixed (cookieverf ?h) @ concat (map (spec_entry ?h (view s) is_plus) ?now) @
    u32_to_be_bytes 0 @ u32_to_be_bytes (of_bool (length ?now = length todo))"
  have hl: "length (handle_encode ?h dir) = 24" using fh3.length_encode [OF assms(3)] by simp
  then have rq: "request_ok ?rq" "length (request_args ?rq) < 2 ^ 62"
    by (simp_all add: args_readdir_def enc_opaque_var_def enc_opaque_fixed_def)
  have ne: "?now \<noteq> []" if "todo \<noteq> []"
  proof (rule fitting_ne [OF that])
    from assms(6) that have "128 + ?sz (hd todo) \<le> unat cnt" by simp
    then show "?sz (hd todo) \<le> unat cnt - 128" by linarith
  qed
  then have "\<not> (?now = [] \<and> todo \<noteq> [])" by blast
  then have "spec_readdir ?h (view s) is_plus dir es cookie cnt = u32_to_be_bytes 0 @ ?b"
    unfolding spec_readdir_def Let_def assms(5) [symmetric] by (rule if_not_P)
  then have "spec_reply ?h (view s) ?rq = Some (u32_to_be_bytes 0 @ ?b)"
    using assms(4) fh3.resolve_encode [OF assms(3), of dir] by (simp only: spec_reply.simps option.simps)
  from client_send_spec [OF assms(1-3) rq this, of xid] obtain s' where
    s': "client_send srv xid ?rq s = (Some ?b, s')" "no_more_open inv view live s s'" by blast
  have "length (en_name e) < 2 ^ 32" if "e \<in> set ?now" for e
  proof -
    have "e \<in> set todo" using that fitting_take in_set_takeD by metis
    with assms(6) name_in_entry [of e ?h "view s" is_plus] unat_u32_bound [of cnt] show ?thesis by fastforce
  qed
  then have d: "decode_readdir is_plus ?b = Some (map listed_of ?now, length ?now = length todo)"
    by (intro decode_readdir_spec assms(3)) blast
  have "?now = take (length ?now) todo" by (rule fitting_take)
  with s' d ne fitting_le [of ?sz "unat cnt - 128" todo] show ?thesis
    by (intro exI [of _ ?b] exI [of _ "length ?now"] exI [of _ s']) auto
qed

lemma cookie_unat:
  assumes "length L < 2 ^ 64" "\<And>k. k < length L \<Longrightarrow> en_cookie (L ! k) = of_nat (k + 1)"
    and "0 < m" "c + m \<le> length L"
  shows "unat (en_cookie (last (take m (drop c L)))) = c + m"
proof -
  have "last (take m (drop c L)) = L ! (c + m - 1)"
    using assms(3,4) by (simp add: last_conv_nth min_absorb2)
  then have "en_cookie (last (take m (drop c L))) = of_nat (c + m)" using assms(2-4) by simp
  then show ?thesis using assms(1,4) by (simp only: unat_of_nat) simp
qed

lemma list_directory_spec:
  assumes "srv_fs srv = fs" "handle_ok (srv_handle srv)" "view_list v dir = Some es" "L = full_listing v dir es"
    and "\<forall>e \<in> set L. 128 + length (spec_entry (srv_handle srv) v is_plus e) \<le> unat cnt"
  shows "inv s \<Longrightarrow> view s = v \<Longrightarrow> unat cookie \<le> length L \<Longrightarrow> length L - unat cookie < calls \<Longrightarrow>
    \<exists>s'. list_directory calls srv is_plus (handle_encode (srv_handle srv) dir) cnt xid cookie s =
        (Some (map listed_of (drop (unat cookie) L)), s') \<and> no_more_open inv view live s s'"
proof (induction calls arbitrary: xid cookie s)
  case (Suc calls)
  let ?todo = "drop (unat cookie) L" and ?fh = "handle_encode (srv_handle srv) dir"
  have es: "view_list (view s) dir = Some es" "?todo = drop (unat cookie) (full_listing (view s) dir es)"
    using assms(3,4) Suc.prems(2) by simp_all
  have fit: "\<forall>e \<in> set ?todo. 128 + length (spec_entry (srv_handle srv) (view s) is_plus e) \<le> unat cnt"
    using assms(5) Suc.prems(2) by (auto dest: in_set_dropD)
  from send_readdir [OF assms(1) Suc.prems(1) assms(2) es fit, of xid] obtain b m s1 where
    b: "client_send srv xid (RqReaddir is_plus ?fh cookie (replicate 8 0) cnt cnt) s = (Some b, s1)"
      "decode_readdir is_plus b = Some (map listed_of (take m ?todo), m = length ?todo)"
      "m \<le> length ?todo" "?todo \<noteq> [] \<longrightarrow> 0 < m" "no_more_open inv view live s s1" by blast
  show ?case
  proof (cases "m = length ?todo")
    case True
    with b have "list_directory (Suc calls) srv is_plus ?fh cnt xid cookie s = (Some (map listed_of ?todo), s1)"
      by simp
    with b(5) show ?thesis by blast
  next
    case False
    then have m: "0 < m" "unat cookie + m \<le> length L" "take m ?todo \<noteq> []" using b(3,4) by auto
    have "length es < 2 ^ 63" using list_short [OF Suc.prems(1)] es(1) by simp
    then have L: "length L < 2 ^ 64" unfolding assms(4) by simp
    have cookies: "\<And>k. k < length L \<Longrightarrow> en_cookie (L ! k) = of_nat (k + 1)"
      unfolding assms(4) by (rule cookie_full_listing)
    let ?next = "en_cookie (last (take m ?todo))"
    have u: "unat ?next = unat cookie + m" by (rule cookie_unat [OF L cookies m(1,2)])
    have s1: "inv s1" "view s1 = v" using b(5) Suc.prems(2) by (simp_all add: no_more_open_def)
    have "unat ?next \<le> length L" "length L - unat ?next < calls"
      unfolding u using m(1,2) Suc.prems(4) by linarith+
    from Suc.IH [OF s1 this, of "xid + 1"] obtain s2 where
      rest: "list_directory calls srv is_plus ?fh cnt (xid + 1) ?next s1 = (Some (map listed_of (drop (unat ?next) L)), s2)"
        "no_more_open inv view live s1 s2" by blast
    have nx: "snd (snd (last (map listed_of (take m ?todo)))) = ?next"
      using m(3) by (simp add: last_map listed_of_def)
    have "map listed_of (take m ?todo) @ map listed_of (drop (unat ?next) L) = map listed_of ?todo"
      unfolding u map_append [symmetric] take_then_drop ..
    moreover have "list_directory (Suc calls) srv is_plus ?fh cnt xid cookie s =
        (Some (map listed_of (take m ?todo) @ map listed_of (drop (unat ?next) L)), s2)"
      using False b(1,2) rest(1) m(3) nx by simp
    ultimately show ?thesis using no_more_open_trans [OF b(5) rest(2)] by auto
  qed
qed simp

end

section \<open>Properties\<close>

text \<open>
  C2: A client that reads to the end has the file. On a filesystem that keeps its contract, while
  other workers call it between any two calls of this one and leave this one's handles alone, a
  client that sends \<open>READ\<close> calls of any size, each from where the last reply ended, and
  decodes the replies until one says the end, gets exactly the bytes of the file, after at most one
  call more than the file has bytes; what the filesystem shows is unchanged and no handle opened
  for the client is left open.
\<close>

theorem client_fetches_file:
  assumes "ro_fs_stable (srv_fs srv) I view live" "I s" "list_all (harmless I view live) others"
    and "handle_ok (srv_handle srv)" "view_data (view s) ino = Some d" "length d < 2 ^ 63" "0 < cnt"
    and "length d < calls"
  shows "\<exists>x. fetch_file calls (shared_server srv) (handle_encode (srv_handle srv) ino) cnt xid 0
      (shared_start others s) = (Some d, x) \<and>
    I (sh_fs x) \<and> view (sh_fs x) = view s \<and> (\<forall>h. h \<in> sh_own x \<longrightarrow> live (sh_fs x) h = None)"
proof -
  have stable: "ro_fs_stable (interleaved (srv_fs srv)) (sh_inv I view live) (sh_view view) (sh_live live)"
    using assms(1) by (rule ro_fs_stable.interleaved_stable)
  from ro_fs_stable.fetch_file_spec [OF stable, of "shared_server srv" cnt "view s" ino d "shared_start others s" 0 calls xid]
    assms(2-8) obtain x where
    "fetch_file calls (shared_server srv) (handle_encode (srv_handle srv) ino) cnt xid 0 (shared_start others s) = (Some d, x)"
    and n: "no_more_open (sh_inv I view live) (sh_view view) (sh_live live) (shared_start others s) x" by auto
  with no_more_shared [OF n] show ?thesis by blast
qed

theorem client_fetches_file_witness:
  "\<exists>x. fetch_file 14 (shared_server demo_server) (handle_encode demo_handle (Ino 5)) 4 77 0
      (shared_start demo_others mem_fs_new) = (Some (ascii (''I am nested.'' @ [CHR 0x0A])), x) \<and>
    mem_inv (sh_fs x) \<and> mem_view 0 0 (sh_fs x) = mem_view 0 0 mem_fs_new \<and>
    (\<forall>h. h \<in> sh_own x \<longrightarrow> open_files (sh_fs x) h = None)"
proof -
  have stable: "ro_fs_stable (srv_fs demo_server) mem_inv (mem_view 0 0) open_files"
    by (simp add: demo_server_def memfs_stable.ro_fs_stable_axioms)
  have h: "srv_handle demo_server = demo_handle" by (simp add: demo_server_def)
  have d: "view_data (mem_view 0 0 mem_fs_new) (Ino 5) = Some (ascii (''I am nested.'' @ [CHR 0x0A]))"
    by (simp only: mem_view_data mem_fs_new_nodes)
  have "handle_ok (srv_handle demo_server)" by (simp add: h)
  from client_fetches_file [OF stable mem_fs_new_inv demo_others_harmless this d, of 4 14 77] show ?thesis
    unfolding h by (simp add: ascii_def)
qed

text \<open>
  C3: A client that lists to the end has the directory. Under the same conditions a client that sends
  \<open>READDIR\<close> or \<open>READDIRPLUS\<close> calls with room for at least any one entry, each from the cookie of the
  last entry it decoded, until a reply says the end, gets \<open>.\<close>, \<open>..\<close> and every entry of the
  directory, with its inode, its name and its cookie, in order, none twice and none lost, after
  at most one call more than there are entries.
\<close>

theorem client_lists_directory:
  assumes "ro_fs_stable (srv_fs srv) I view live" "I s" "list_all (harmless I view live) others"
    and "handle_ok (srv_handle srv)" "view_list (view s) dir = Some es"
    and "\<forall>e \<in> set (full_listing (view s) dir es).
      128 + length (spec_entry (srv_handle srv) (view s) is_plus e) \<le> unat cnt"
    and "length es + 2 < calls"
  shows "\<exists>x. list_directory calls (shared_server srv) is_plus (handle_encode (srv_handle srv) dir) cnt xid 0
      (shared_start others s) = (Some (map listed_of (full_listing (view s) dir es)), x) \<and>
    I (sh_fs x) \<and> view (sh_fs x) = view s \<and> (\<forall>h. h \<in> sh_own x \<longrightarrow> live (sh_fs x) h = None)"
proof -
  have stable: "ro_fs_stable (interleaved (srv_fs srv)) (sh_inv I view live) (sh_view view) (sh_live live)"
    using assms(1) by (rule ro_fs_stable.interleaved_stable)
  from ro_fs_stable.list_directory_spec [OF stable, of "shared_server srv" "view s" dir es _ is_plus cnt
      "shared_start others s" 0 calls xid, OF _ _ _ refl] assms(2-7) obtain x where
    "list_directory calls (shared_server srv) is_plus (handle_encode (srv_handle srv) dir) cnt xid 0
      (shared_start others s) = (Some (map listed_of (full_listing (view s) dir es)), x)"
    and n: "no_more_open (sh_inv I view live) (sh_view view) (sh_live live) (shared_start others s) x" by auto
  with no_more_shared [OF n] show ?thesis by blast
qed

lemma length_spec_entry:
  assumes "handle_ok h"
  shows "length (spec_entry h v is_plus e) \<le> length (en_name e) + 147"
proof -
  have pad: "(4 - n mod 4) mod 4 \<le> (3 :: nat)" for n
    using mod_less_divisor [of 4 "4 - n mod 4"] by linarith
  show ?thesis
    using pad [of "length (en_name e)"] fh3.length_encode [OF assms, of "en_ino e"]
    by (simp add: spec_entry_def enc_opaque_var_def enc_opaque_fixed_def split: option.split)
qed

theorem client_lists_directory_witness:
  "\<exists>x. list_directory 6 (shared_server demo_server) True (handle_encode demo_handle ROOT_INO) 300 9 0
      (shared_start demo_others mem_fs_new) =
      (Some (map listed_of (full_listing (mem_view 0 0 mem_fs_new) ROOT_INO (map (mem_entry mem_fs_new)
         [(ascii ''hello.txt'', Ino 2), (ascii ''numbers.txt'', Ino 3), (ascii ''subdir'', Ino 4)]))), x) \<and>
    mem_inv (sh_fs x) \<and> mem_view 0 0 (sh_fs x) = mem_view 0 0 mem_fs_new \<and>
    (\<forall>h. h \<in> sh_own x \<longrightarrow> open_files (sh_fs x) h = None)"
proof -
  let ?es = "map (mem_entry mem_fs_new)
         [(ascii ''hello.txt'', Ino 2), (ascii ''numbers.txt'', Ino 3), (ascii ''subdir'', Ino 4)]"
  have stable: "ro_fs_stable (srv_fs demo_server) mem_inv (mem_view 0 0) open_files"
    by (simp add: demo_server_def memfs_stable.ro_fs_stable_axioms)
  have h: "srv_handle demo_server = demo_handle" "handle_ok (srv_handle demo_server)" by (simp_all add: demo_server_def)
  have l: "view_list (mem_view 0 0 mem_fs_new) ROOT_INO = Some ?es"
    unfolding mem_view_list using mem_fs_new_nodes(1) by (simp add: ROOT_INO_def)
  have short: "\<forall>e \<in> set (full_listing v ROOT_INO ?es). length (en_name e) \<le> 11" for v
    by (simp add: full_listing_def dot_entry_def dotdot_entry_def offered_def mem_entry_def ascii_def)
  have "\<forall>e \<in> set (full_listing (mem_view 0 0 mem_fs_new) ROOT_INO ?es).
      128 + length (spec_entry (srv_handle demo_server) (mem_view 0 0 mem_fs_new) True e) \<le> unat (300 :: u32)"
  proof
    fix e assume "e \<in> set (full_listing (mem_view 0 0 mem_fs_new) ROOT_INO ?es)"
    with short have "length (en_name e) \<le> 11" by blast
    with length_spec_entry [OF h(2), of "mem_view 0 0 mem_fs_new" True e]
    show "128 + length (spec_entry (srv_handle demo_server) (mem_view 0 0 mem_fs_new) True e) \<le> unat (300 :: u32)"
      by simp
  qed
  from client_lists_directory [OF stable mem_fs_new_inv demo_others_harmless h(2) l this, of 6 9] show ?thesis
    unfolding h(1) by simp
qed

end
