(* ===== verification/Nfs_Panics.thy ===== *)
theory Nfs_Panics
  imports Nfs_Session
begin

text \<open>
  A filesystem that panics. The methods of \<open>ReadOnlyFs\<close> are the embedder's code and may panic; a
  worker of \<open>src/backend/nfs/server.rs\<close> runs in its own thread, which then unwinds: nothing after the
  call is done, no reply is written and the socket is dropped. \<open>cut_off\<close> is a filesystem whose
  calls stop: with a budget of \<open>n\<close> calls the \<open>n\<close>-th panics, leaving what it works on as it found
  it, and from then on the state stays. A request served through it ends in the state that
  the calls before the panic made, with a budget of 0 exactly when there was a panic; its reply is
  one that is never sent.
\<close>

section \<open>Calls that stop\<close>

definition until_panic :: "'a \<Rightarrow> ('s \<Rightarrow> 'a \<times> 's) \<Rightarrow> 's \<times> nat \<Rightarrow> 'a \<times> 's \<times> nat" where
  "until_panic unused f x =
     (case x of (s, n) \<Rightarrow>
        if n \<le> 1 then (unused, s, 0) else (case f s of (r, s) \<Rightarrow> (r, s, n - 1)))"

definition cut_off :: "'s read_only_fs \<Rightarrow> ('s \<times> nat) read_only_fs" where
  "cut_off fs =
     \<lparr>fs_lookup = (\<lambda>p nm. until_panic (Inl NotFound) (fs_lookup fs p nm)),
      fs_getattr = (\<lambda>i. until_panic (Inl NotFound) (fs_getattr fs i)),
      fs_readdir = (\<lambda>i off. until_panic (Inl NotFound) (fs_readdir fs i off)),
      fs_open = (\<lambda>i. until_panic (Inl NotFound) (fs_open fs i)),
      fs_read_at = (\<lambda>fh off buf. until_panic (Inl NotFound, []) (fs_read_at fs fh off buf)),
      fs_release = (\<lambda>fh. until_panic (Inl NotFound) (fs_release fs fh)),
      fs_forget = (\<lambda>i k x. snd (until_panic () (\<lambda>s. ((), fs_forget fs i k s)) x)),
      fs_listxattr = (\<lambda>i. until_panic (Inl NotFound) (fs_listxattr fs i)),
      fs_getxattr = (\<lambda>i nm. until_panic (Inl NotFound) (fs_getxattr fs i nm)),
      fs_statfs = until_panic (Inl NotFound) (fs_statfs fs)\<rparr>"

definition cut_server :: "'s server \<Rightarrow> ('s \<times> nat) server" where
  "cut_server srv =
     \<lparr>srv_fs = cut_off (srv_fs srv), srv_handle = srv_handle srv, srv_export = srv_export srv\<rparr>"

lemma cut_off_sel [simp]:
  "fs_lookup (cut_off fs) p nm = until_panic (Inl NotFound) (fs_lookup fs p nm)"
  "fs_getattr (cut_off fs) i = until_panic (Inl NotFound) (fs_getattr fs i)"
  "fs_readdir (cut_off fs) i off = until_panic (Inl NotFound) (fs_readdir fs i off)"
  "fs_open (cut_off fs) i = until_panic (Inl NotFound) (fs_open fs i)"
  "fs_read_at (cut_off fs) fh off buf = until_panic (Inl NotFound, []) (fs_read_at fs fh off buf)"
  "fs_release (cut_off fs) fh = until_panic (Inl NotFound) (fs_release fs fh)"
  "fs_statfs (cut_off fs) = until_panic (Inl NotFound) (fs_statfs fs)"
  by (simp_all add: cut_off_def)

lemma cut_server_sel [simp]:
  "srv_fs (cut_server srv) = cut_off (srv_fs srv)" "srv_handle (cut_server srv) = srv_handle srv"
  "srv_export (cut_server srv) = srv_export srv"
  by (simp_all add: cut_server_def)

lemma until_panicE:
  assumes "until_panic unused f (s, n) = (r, s', n')"
  obtains (panic) "r = unused" "s' = s" "n' = 0" | (call) "f s = (r, s')" "n' = n - 1"
  using assms by (auto simp: until_panic_def split: if_splits prod.splits)

section \<open>What a panic leaves behind\<close>

text \<open>The state shows the same, and all but \<open>n\<close> of the open handles were open before.\<close>

definition leaks ::
  "('s \<Rightarrow> bool) \<Rightarrow> ('s \<Rightarrow> fs_view) \<Rightarrow> ('s \<Rightarrow> file_handle \<Rightarrow> ino option) \<Rightarrow> nat \<Rightarrow> 's \<Rightarrow> 's \<Rightarrow> bool" where
  "leaks I view live n s s' \<longleftrightarrow> I s' \<and> view s' = view s \<and>
     (\<exists>L. finite L \<and> card L \<le> n \<and> live s' |` (- L) \<subseteq>\<^sub>m live s)"

lemma leaks_none: "leaks I view live 0 s s' \<longleftrightarrow> no_more_open I view live s s'"
  by (auto simp: leaks_def no_more_open_def restrict_map_def)

lemma leaks_mono: "leaks I view live m s s' \<Longrightarrow> m \<le> n \<Longrightarrow> leaks I view live n s s'"
  unfolding leaks_def by (meson order_trans)

lemma leaks_trans:
  assumes "leaks I view live m s s1" "leaks I view live n s1 s2"
  shows "leaks I view live (m + n) s s2"
proof -
  obtain L1 L2 where l: "finite L1" "card L1 \<le> m" "live s1 |` (- L1) \<subseteq>\<^sub>m live s"
    "finite L2" "card L2 \<le> n" "live s2 |` (- L2) \<subseteq>\<^sub>m live s1" using assms unfolding leaks_def by blast
  have "live s h = Some i" if "(live s2 |` (- (L1 \<union> L2))) h = Some i" for h i
  proof -
    from that have h: "live s2 h = Some i" "h \<notin> L1" "h \<notin> L2" by (auto simp: restrict_map_def split: if_splits)
    with l(6) have "live s1 h = Some i" by (force simp: map_le_def restrict_map_def dom_def)
    with l(3) h(2) show ?thesis by (force simp: map_le_def restrict_map_def dom_def)
  qed
  then have "live s2 |` (- (L1 \<union> L2)) \<subseteq>\<^sub>m live s" unfolding map_le_def by (metis domD)
  moreover have "card (L1 \<union> L2) \<le> m + n" using card_Un_le [of L1 L2] l(2,5) by linarith
  ultimately have "\<exists>L. finite L \<and> card L \<le> m + n \<and> live s2 |` (- L) \<subseteq>\<^sub>m live s"
    using l(1,4) by (intro exI [of _ "L1 \<union> L2"]) simp
  with assms show ?thesis by (simp add: leaks_def)
qed

lemma leaks_held: "holding I view live s0 fh s \<Longrightarrow> leaks I view live (Suc 0) s0 s"
  unfolding leaks_def holding_def
  by (intro conjI exI [of _ "{fh}"]) (auto simp: map_le_def restrict_map_def)

lemma leaks_one: "no_more_open I view live s0 s \<Longrightarrow> leaks I view live (Suc 0) s0 s"
  by (rule leaks_mono [of _ _ _ 0]) (simp_all add: leaks_none)

context ro_fs_stable
begin

lemma looks_leak_nothing:
  assumes "leaks inv view live n s0 s"
  shows "fs_lookup fs p nm s = (rl, s') \<Longrightarrow> leaks inv view live n s0 s'"
    and "fs_getattr fs i s = (ra, s') \<Longrightarrow> leaks inv view live n s0 s'"
    and "fs_readdir fs i off s = (rd, s') \<Longrightarrow> leaks inv view live n s0 s'"
    and "fs_statfs fs s = (rf, s') \<Longrightarrow> leaks inv view live n s0 s'"
  using assms lookup_eq [of s] getattr_eq [of s] readdir_keeps [of s] statfs_keeps [of s]
  unfolding leaks_def by metis+

end

sublocale ro_fs_stable \<subseteq> cut: request_keeps "cut_off fs" "\<lambda>(s, n). unchanged inv view live s0 s"
    "\<lambda>(s, n). leaks inv view live (Suc 0) s0 s" "\<lambda>fh (s, n). holding inv view live s0 fh s" for s0
proof (unfold_locales, goal_cases)
  case (9 x)
  then show ?case by (auto intro: leaks_one unchanged_no_more)
next
  case (10 x i e x')
  then show ?case using request.open_fails
    by (auto elim!: until_panicE intro: leaks_one unchanged_no_more)
next
  case (13 fh x ru x')
  then show ?case using request.releases leaks_held
    by (auto elim!: until_panicE intro: leaks_one)
qed (auto elim!: until_panicE dest: calls_unchanged request.opens request.reads looks_leak_nothing)

context ro_fs_stable
begin

lemma panicking_message_leaks:
  assumes "srv_fs srv = fs" "inv s" "handle_message (cut_server srv) m m' body (s, n) = Some (rep, s', n')"
  shows "leaks inv view live (Suc 0) s s'"
proof -
  have "srv_fs (cut_server srv) = cut_off fs" using assms(1) by simp
  then have "case (s', n') of (s', n) \<Rightarrow> leaks inv view live (Suc 0) s s'"
    by (rule cut.handle_message_ends [OF _ _ assms(3)]) (simp add: unchanged_refl assms(2))
  then show ?thesis by simp
qed

end

text \<open>
  A \<open>READ\<close> whose second call panics has opened its file and not released it: the bound is reached.
\<close>

lemma panicking_read_leaks:
  assumes "handle_ok (srv_handle srv)" "fs_open (srv_fs srv) i s = (Inr fh, s1)"
  shows "\<exists>rep. handle_message (cut_server srv) m m'
      (request_call xid (RqRead (handle_encode (srv_handle srv) i) off cnt)) (s, 2) = Some (Some rep, s1, 0)"
proof -
  let ?rq = "RqRead (handle_encode (srv_handle srv) i) off cnt"
  let ?ctx = "\<lparr>ctx_fs = cut_off (srv_fs srv), ctx_handle = srv_handle srv, ctx_fsid = 1\<rparr>"
  have hl: "length (handle_encode (srv_handle srv) i) = 24" using fh3.length_encode [OF assms(1)] by simp
  then have "length (request_args ?rq) < 2 ^ 62"
    by (simp add: args_read_def enc_opaque_var_def enc_opaque_fixed_def)
  from client_call_header [OF this, of xid NFS_PROG 6] obtain r where r:
    "read_call_header (reader_new (request_call xid ?rq)) =
      (Call \<lparr>ch_xid = xid, ch_prog = NFS_PROG, ch_vers = 3, ch_proc = 6\<rparr>, r)"
    "reader_ok r" "reader_rest r = args_read (handle_encode (srv_handle srv) i) off cnt @ []"
    by (auto simp: request_call_def)
  have "\<exists>w. nfs_read r ?ctx (s, 2) = (Success w, s1, 0)"
    using nfs_read_args [OF r(2,3), of ?ctx i "(s, 2)"] hl fh3.resolve_encode [OF assms(1), of i] assms(2)
    by (simp add: until_panic_def read_at_buf_def release_logging_def best_effort_eq)
  then obtain w where "nfs_dispatch 6 r ?ctx (s, 2) = Some (Success w, s1, 0)" by (auto simp: nfs_dispatch_def)
  with nfs_message [of "request_call xid ?rq" xid 6 r "cut_server srv" "(s, 2)" w] r(1) show ?thesis by auto
qed

end
