(* ===== verification/Nfs_System.thy ===== *)
theory Nfs_System
  imports Nfs_Panics
begin

text \<open>
  The server as a whole: the accept loop \<open>run\<close> of \<open>src/backend/nfs/server.rs\<close>, the threads it
  spawns, the join handles it keeps of them, the two flags other threads write and the filesystem
  all workers share. A worker moves through the positions of \<open>serve_connection\<close> one at a time: the
  check of the flag, the read of a message, its handling, the write of the reply. A step is one
  move of one worker, one iteration of the accept loop, the loop's exit, one \<open>join\<close> after it, the
  return of \<open>run\<close>, a panic of the filesystem in a worker's thread, or a write of a flag; steps of
  different threads come in any order. A write may never come back: the peer can stop
  reading, and no write timeout is set. \<open>stalls\<close> says which writes those are, and a worker in one
  of them has no step. Within one message a worker's calls of the filesystem are one step here;
  that calls of other workers in between do no harm is shown for \<open>shared_server\<close>.
\<close>

section \<open>One worker\<close>

text \<open>Where a worker is in the loop of \<open>serve_connection\<close>; \<open>Ended\<close> is a thread that is over.\<close>

datatype worker = AtCheck | InRead | InHandle bytes | InWrite bytes | Ended

text \<open>The next move of a worker, given what it loads of the flags.\<close>

fun work_next ::
  "'s server \<Rightarrow> observed \<Rightarrow> worker \<times> conn \<Rightarrow> 's \<Rightarrow> ((worker \<times> conn) \<times> 's) option" where
  "work_next srv obs (AtCheck, c) s = Some ((if obs_stop obs then Ended else InRead, c), s)"
| "work_next srv obs (InRead, c) s =
     (case read_message c of
        (Inr (Some body), c) \<Rightarrow> Some ((InHandle body, c), s)
      | (Inr None, c) \<Rightarrow> Some ((Ended, c), s)
      | (Inl e, c) \<Rightarrow> Some ((if retryable e then AtCheck else Ended, c), s))"
| "work_next srv obs (InHandle body, c) s =
     (case handle_message srv (obs_mount obs) (obs_mount' obs) body s of
        None \<Rightarrow> None
      | Some (None, s) \<Rightarrow> Some ((Ended, c), s)
      | Some (Some reply, s) \<Rightarrow> Some ((InWrite reply, c), s))"
| "work_next srv obs (InWrite reply, c) s =
     (case write_message reply c of
        (Inl _, c) \<Rightarrow> Some ((Ended, c), s)
      | (Inr _, c) \<Rightarrow> Some ((AtCheck, c), s))"
| "work_next srv obs (Ended, c) s = None"

text \<open>The moves of one iteration of the loop: from the check until the next check or the end.\<close>

fun work_moves ::
  "'s server \<Rightarrow> observed \<Rightarrow> nat \<Rightarrow> worker \<times> conn \<Rightarrow> 's \<Rightarrow> ((worker \<times> conn) \<times> 's) option" where
  "work_moves srv obs 0 w s = Some (w, s)"
| "work_moves srv obs (Suc n) w s =
     (case work_next srv obs w s of None \<Rightarrow> None | Some (w, s) \<Rightarrow> work_moves srv obs n w s)"

lemma serve_iter_moves:
  assumes "serve_iter srv obs c s = Some (st, c', s')"
  shows "\<exists>n. 0 < n \<and> n \<le> 4 \<and>
    work_moves srv obs n (AtCheck, c) s = Some ((if st = Closed then Ended else AtCheck, c'), s')"
proof -
  consider "work_moves srv obs 1 (AtCheck, c) s = Some ((if st = Closed then Ended else AtCheck, c'), s')"
    | "work_moves srv obs 2 (AtCheck, c) s = Some ((if st = Closed then Ended else AtCheck, c'), s')"
    | "work_moves srv obs 3 (AtCheck, c) s = Some ((if st = Closed then Ended else AtCheck, c'), s')"
    | "work_moves srv obs 4 (AtCheck, c) s = Some ((if st = Closed then Ended else AtCheck, c'), s')"
    using assms unfolding serve_iter_def
    by (auto simp: eval_nat_numeral split: if_splits prod.splits sum.splits option.splits)
  then show ?thesis by cases (auto intro: exI [of _ 1] exI [of _ 2] exI [of _ 3] exI [of _ 4])
qed

lemma work_next_total: "w \<noteq> Ended \<Longrightarrow> \<exists>t s'. work_next srv obs (w, c) s = Some (t, s')"
proof (cases w)
  case (InHandle body)
  with handle_message_total [of srv "obs_mount obs" "obs_mount' obs" body s] show ?thesis
    by (auto split: option.splits)
qed (auto split: prod.split sum.split option.split)

section \<open>The accept loop and its workers\<close>

definition MAX_CONNECTIONS :: usize where
  "MAX_CONNECTIONS = 16"

text \<open>Where \<open>run\<close> is: in its loop, in the joins after it, or done.\<close>

datatype run_phase = Accepting | Joining | Returned

text \<open>
  \<open>sy_threads\<close> is every thread \<open>run\<close> has spawned, ended or not, in that order; \<open>sy_workers\<close> is
  the vector of join handles, each the number of a thread.
\<close>

record 's system =
  sy_fs :: 's
  sy_stop :: bool
  sy_mount :: bool
  sy_threads :: "(worker \<times> conn) list"
  sy_workers :: "nat list"
  sy_phase :: run_phase
  sy_panics :: nat

definition system_start :: "bool \<Rightarrow> 's \<Rightarrow> 's system" where
  "system_start serve_mount s =
     \<lparr>sy_fs = s, sy_stop = False, sy_mount = serve_mount, sy_threads = [], sy_workers = [],
      sy_phase = Accepting, sy_panics = 0\<rparr>"

definition is_finished :: "(worker \<times> conn) list \<Rightarrow> nat \<Rightarrow> bool" where
  "is_finished threads i \<longleftrightarrow> i < length threads \<and> fst (threads ! i) = Ended"

text \<open>
  One iteration of the loop, with what \<open>accept_conn\<close> returns: the handles of finished threads are
  dropped first; with no slot free, or on any error of \<open>accept_conn\<close>, the loop sleeps; a
  connection is given to a new thread, which starts at the head of its loop.
\<close>

definition accept_iter ::
  "io_error + conn \<Rightarrow> (worker \<times> conn) list \<Rightarrow> nat list \<Rightarrow> (worker \<times> conn) list \<times> nat list" where
  "accept_iter accept_conn threads workers =
     (let workers = filter (\<lambda>w. \<not> is_finished threads w) workers
      in if length workers \<ge> MAX_CONNECTIONS then (threads, workers)
         else (case accept_conn of
                 Inr stream \<Rightarrow> (threads @ [(AtCheck, stream)], workers @ [length threads])
               | Inl _ \<Rightarrow> (threads, workers)))"

text \<open>A worker that waits in a write the peer never takes.\<close>

definition parked :: "(nat \<Rightarrow> conn \<Rightarrow> bytes \<Rightarrow> bool) \<Rightarrow> (worker \<times> conn) list \<Rightarrow> nat \<Rightarrow> bool" where
  "parked stalls threads i \<longleftrightarrow> i < length threads \<and>
     (case threads ! i of (InWrite reply, c) \<Rightarrow> stalls i c reply | _ \<Rightarrow> False)"

text \<open>
  The guards of \<open>handle_message\<close> may load \<open>serve_mount\<close> twice, and the flag is only ever
  cleared: the second load sees what the first saw, or a cleared flag. When a call of the filesystem
  panics, the request ends after the calls before it (\<open>cut_off\<close>) and what the panicking call leaves
  of its own state is \<open>torn\<close>; the thread unwinds and drops its socket, and \<open>is_finished\<close> and \<open>join\<close>,
  whose result \<open>run\<close> ignores, treat it as any thread that has ended. \<open>sy_panics\<close> counts.
  \<open>join\<close> takes the handles in their order and waits for the thread of each.
\<close>

inductive server_step ::
  "'s server \<Rightarrow> (nat \<Rightarrow> conn \<Rightarrow> bytes \<Rightarrow> bool) \<Rightarrow> ('s \<Rightarrow> 's \<Rightarrow> bool) \<Rightarrow> 's system \<Rightarrow> 's system \<Rightarrow> bool"
  for srv stalls torn where
  accept: "sy_phase y = Accepting \<Longrightarrow> \<not> sy_stop y \<Longrightarrow>
    accept_iter accept_conn (sy_threads y) (sy_workers y) = (ts, ws) \<Longrightarrow>
    server_step srv stalls torn y (y\<lparr>sy_threads := ts, sy_workers := ws\<rparr>)"
| leave: "sy_phase y = Accepting \<Longrightarrow> sy_stop y \<Longrightarrow> server_step srv stalls torn y (y\<lparr>sy_phase := Joining\<rparr>)"
| join: "sy_phase y = Joining \<Longrightarrow> sy_workers y = w # ws \<Longrightarrow> is_finished (sy_threads y) w \<Longrightarrow>
    server_step srv stalls torn y (y\<lparr>sy_workers := ws\<rparr>)"
| returned: "sy_phase y = Joining \<Longrightarrow> sy_workers y = [] \<Longrightarrow>
    server_step srv stalls torn y (y\<lparr>sy_phase := Returned\<rparr>)"
| work: "i < length (sy_threads y) \<Longrightarrow> \<not> parked stalls (sy_threads y) i \<Longrightarrow> m' = sy_mount y \<or> \<not> m' \<Longrightarrow>
    work_next srv \<lparr>obs_stop = sy_stop y, obs_mount = sy_mount y, obs_mount' = m'\<rparr> (sy_threads y ! i) (sy_fs y) =
      Some (t, s') \<Longrightarrow>
    server_step srv stalls torn y (y\<lparr>sy_threads := (sy_threads y)[i := t], sy_fs := s'\<rparr>)"
| panic: "i < length (sy_threads y) \<Longrightarrow> sy_threads y ! i = (InHandle body, c) \<Longrightarrow>
    m' = sy_mount y \<or> \<not> m' \<Longrightarrow>
    handle_message (cut_server srv) (sy_mount y) m' body (sy_fs y, Suc k) = Some (rep, s1, 0) \<Longrightarrow> torn s1 s' \<Longrightarrow>
    server_step srv stalls torn y
      (y\<lparr>sy_threads := (sy_threads y)[i := (Ended, c)], sy_fs := s', sy_panics := Suc (sy_panics y)\<rparr>)"
| stop_set: "\<not> sy_stop y \<Longrightarrow> server_step srv stalls torn y (y\<lparr>sy_stop := True\<rparr>)"
| mount_cleared: "sy_mount y \<Longrightarrow> server_step srv stalls torn y (y\<lparr>sy_mount := False\<rparr>)"

inductive server_run ::
  "'s server \<Rightarrow> (nat \<Rightarrow> conn \<Rightarrow> bytes \<Rightarrow> bool) \<Rightarrow> ('s \<Rightarrow> 's \<Rightarrow> bool) \<Rightarrow> nat \<Rightarrow> 's system \<Rightarrow> 's system \<Rightarrow> bool"
  for srv stalls torn where
  here: "server_run srv stalls torn 0 y y"
| more: "server_step srv stalls torn y y1 \<Longrightarrow> server_run srv stalls torn n y1 y2 \<Longrightarrow>
    server_run srv stalls torn (Suc n) y y2"

inductive_cases server_stepE: "server_step srv stalls torn y y'"

section \<open>What holds in every reachable state\<close>

text \<open>
  Handles are of threads that exist, no two of the same, at most sixteen; a thread that has
  not ended has its handle, and \<open>run\<close> returns with none left.
\<close>

definition workers_ok :: "'s system \<Rightarrow> bool" where
  "workers_ok y \<longleftrightarrow> length (sy_workers y) \<le> MAX_CONNECTIONS \<and> distinct (sy_workers y) \<and>
     (\<forall>i\<in>set (sy_workers y). i < length (sy_threads y)) \<and>
     (\<forall>i<length (sy_threads y). \<not> is_finished (sy_threads y) i \<longrightarrow> i \<in> set (sy_workers y)) \<and>
     (sy_phase y = Returned \<longrightarrow> sy_workers y = [])"

lemma is_finished_append: "i < length ts \<Longrightarrow> is_finished (ts @ us) i = is_finished ts i"
  by (simp add: is_finished_def nth_append)

lemma is_finished_update:
  "is_finished ts i \<Longrightarrow> fst (ts ! j) \<noteq> Ended \<Longrightarrow> is_finished (ts[j := t]) i"
  by (cases "i = j") (auto simp: is_finished_def)

lemma not_finished_update: "\<not> is_finished (ts[j := t]) i \<Longrightarrow> fst (ts ! j) \<noteq> Ended \<Longrightarrow> \<not> is_finished ts i"
  using is_finished_update by blast

lemma accept_iter_ok:
  assumes "workers_ok y" "accept_iter a (sy_threads y) (sy_workers y) = (ts, ws)" "sy_phase y \<noteq> Returned"
  shows "workers_ok (y\<lparr>sy_threads := ts, sy_workers := ws\<rparr>)"
proof -
  let ?k = "filter (\<lambda>w. \<not> is_finished (sy_threads y) w) (sy_workers y)"
  have k: "length ?k \<le> MAX_CONNECTIONS"
    using assms(1) order_trans [OF length_filter_le] by (auto simp: workers_ok_def)
  consider "ts = sy_threads y" "ws = ?k"
    | stream where "ts = sy_threads y @ [(AtCheck, stream)]" "ws = ?k @ [length (sy_threads y)]" "length ?k < MAX_CONNECTIONS"
    using assms(2) by (auto simp: accept_iter_def Let_def split: if_splits sum.splits)
  then show ?thesis
  proof cases
    case 1
    with k assms(1,3) show ?thesis by (auto simp: workers_ok_def)
  next
    case 2
    with assms(1,3) show ?thesis by (auto simp: workers_ok_def is_finished_append less_Suc_eq)
  qed
qed

lemma accept_iter_reuses:
  assumes "workers_ok y" "w \<in> set (sy_workers y)" "is_finished (sy_threads y) w"
  shows "fst (accept_iter (Inr c) (sy_threads y) (sy_workers y)) = sy_threads y @ [(AtCheck, c)]"
proof -
  have "length (filter (\<lambda>w. \<not> is_finished (sy_threads y) w) (sy_workers y)) < length (sy_workers y)"
    by (rule length_filter_less [OF assms(2)]) (simp add: assms(3))
  also have "\<dots> \<le> MAX_CONNECTIONS" using assms(1) by (simp add: workers_ok_def)
  finally show ?thesis by (simp add: accept_iter_def Let_def)
qed

lemma work_next_live: "work_next srv obs t s = Some r \<Longrightarrow> fst t \<noteq> Ended"
  by (cases t) auto

lemma server_step_workers:
  assumes "server_step srv stalls torn y y'" "workers_ok y"
  shows "workers_ok y'"
  using assms(1)
proof cases
  case (accept accept_conn ts ws)
  with accept_iter_ok [OF assms(2)] show ?thesis by simp
next
  case (work i m' t s')
  with assms(2) not_finished_update [of "sy_threads y" i] work_next_live [OF work(5)] show ?thesis
    by (auto simp: workers_ok_def)
next
  case (panic i body c m' k rep s1 s')
  with assms(2) not_finished_update [of "sy_threads y" i] show ?thesis by (auto simp: workers_ok_def)
qed (use assms(2) in \<open>auto simp: workers_ok_def\<close>)

lemma server_run_workers: "server_run srv stalls torn n y y' \<Longrightarrow> workers_ok y \<Longrightarrow> workers_ok y'"
  by (induction rule: server_run.induct) (auto dest: server_step_workers)

lemma workers_ok_start: "workers_ok (system_start serve_mount s)"
  by (simp add: workers_ok_def system_start_def)

lemma workers_ok_returned:
  assumes "workers_ok y"
  shows "sy_phase y = Returned \<longrightarrow> (\<forall>t\<in>set (sy_threads y). fst t = Ended)"
proof (intro impI ballI)
  fix t assume "sy_phase y = Returned" "t \<in> set (sy_threads y)"
  then obtain i where i: "i < length (sy_threads y)" "t = sy_threads y ! i" by (auto simp: in_set_conv_nth)
  with assms \<open>sy_phase y = Returned\<close> have "is_finished (sy_threads y) i" by (auto simp: workers_ok_def)
  with i show "fst t = Ended" by (simp add: is_finished_def)
qed

text \<open>The threads that have not ended.\<close>

definition unfinished :: "'s system \<Rightarrow> nat set" where
  "unfinished y = {i. i < length (sy_threads y) \<and> \<not> is_finished (sy_threads y) i}"

lemma unfinished_workers:
  assumes "workers_ok y"
  shows "unfinished y \<subseteq> set (sy_workers y)" "card (unfinished y) \<le> 16" "finite (unfinished y)"
proof -
  show sub: "unfinished y \<subseteq> set (sy_workers y)" using assms by (auto simp: workers_ok_def unfinished_def)
  have "card (unfinished y) \<le> card (set (sy_workers y))" using sub by (simp add: card_mono)
  then show "card (unfinished y) \<le> 16"
    using card_length [of "sy_workers y"] assms by (simp add: workers_ok_def MAX_CONNECTIONS_def)
  show "finite (unfinished y)" using sub finite_subset by auto
qed

context ro_fs_stable
begin

lemma work_next_no_more:
  assumes "srv_fs srv = fs" "inv s" "work_next srv obs t s = Some (t', s')"
  shows "no_more_open inv view live s s'"
  using assms(3) no_more_open_refl [of inv s, OF assms(2)] handle_message_no_more [OF assms(1,2)]
  by (cases "(srv, obs, t, s)" rule: work_next.cases) (auto split: prod.splits sum.splits option.splits)

lemma server_step_fs:
  assumes "server_step srv stalls torn y y'" "srv_fs srv = fs" "inv (sy_fs y)"
    and "\<And>a b. inv a \<Longrightarrow> torn a b \<Longrightarrow> unchanged inv view live a b"
  shows "\<exists>n. sy_panics y' = sy_panics y + n \<and> leaks inv view live n (sy_fs y) (sy_fs y')"
  using assms(1)
proof cases
  case (work i m' t s')
  from work_next_no_more [OF assms(2,3) work(5)] work(1) show ?thesis
    by (intro exI [of _ 0]) (simp add: leaks_none)
next
  case (panic i body c m' k rep s1 s')
  from panicking_message_leaks [OF assms(2,3) panic(5)] have l: "leaks inv view live (Suc 0) (sy_fs y) s1" .
  then have "unchanged inv view live s1 s'" using assms(4) panic(6) by (simp add: leaks_def)
  with l panic(1) show ?thesis by (intro exI [of _ "Suc 0"]) (simp add: leaks_def unchanged_def)
qed (use no_more_open_refl [of inv, OF assms(3)] in \<open>auto simp: leaks_none intro: exI [of _ 0]\<close>)

lemma server_run_fs:
  assumes "server_run srv stalls torn n y y'" "srv_fs srv = fs" "inv (sy_fs y)"
    and "\<And>a b. inv a \<Longrightarrow> torn a b \<Longrightarrow> unchanged inv view live a b"
  shows "\<exists>k. sy_panics y' = sy_panics y + k \<and> leaks inv view live k (sy_fs y) (sy_fs y')"
  using assms(1,3)
proof (induction rule: server_run.induct)
  case (more y y1 n y2)
  from server_step_fs [OF more(1) assms(2) more(4) assms(4)] obtain a where
    a: "sy_panics y1 = sy_panics y + a" "leaks inv view live a (sy_fs y) (sy_fs y1)" by blast
  then have "inv (sy_fs y1)" by (simp add: leaks_def)
  from more(3) [OF this] obtain b where
    b: "sy_panics y2 = sy_panics y1 + b" "leaks inv view live b (sy_fs y1) (sy_fs y2)" by blast
  from a(1) b(1) leaks_trans [OF a(2) b(2)] show ?case by (intro exI [of _ "a + b"]) simp
qed (auto simp: leaks_none no_more_open_refl intro: exI [of _ 0])

end

section \<open>Shutdown\<close>

text \<open>How many moves a worker has left once the stop flag is set.\<close>

primrec moves_left :: "worker \<Rightarrow> nat" where
  "moves_left Ended = 0"
| "moves_left AtCheck = 1"
| "moves_left (InWrite _) = 2"
| "moves_left (InHandle _) = 3"
| "moves_left InRead = 4"

definition threads_left :: "(worker \<times> conn) list \<Rightarrow> nat" where
  "threads_left ts = (\<Sum>t\<leftarrow>ts. moves_left (fst t))"

definition shutdown_left :: "'s system \<Rightarrow> nat" where
  "shutdown_left y = threads_left (sy_threads y) + length (sy_workers y) +
     (case sy_phase y of Accepting \<Rightarrow> 2 | Joining \<Rightarrow> 1 | Returned \<Rightarrow> 0) + (if sy_mount y then 1 else 0)"

lemma work_next_moves:
  "work_next srv obs t s = Some (t', s') \<Longrightarrow> obs_stop obs \<Longrightarrow> moves_left (fst t') < moves_left (fst t)"
  by (cases "(srv, obs, t, s)" rule: work_next.cases) (auto split: prod.splits sum.splits option.splits if_splits)

lemma threads_left_update:
  assumes "i < length ts" "moves_left (fst t) < moves_left (fst (ts ! i))"
  shows "threads_left (ts[i := t]) < threads_left ts"
proof -
  have "threads_left ts = threads_left (take i ts @ ts ! i # drop (Suc i) ts)"
    using id_take_nth_drop [OF assms(1)] by simp
  then show ?thesis using assms by (simp add: threads_left_def upd_conv_take_nth_drop)
qed

lemma threads_left_bound: "threads_left (sy_threads y) \<le> 4 * card (unfinished y)"
proof -
  let ?f = "\<lambda>i. moves_left (fst (sy_threads y ! i))"
  have "threads_left (sy_threads y) = sum ?f {..<length (sy_threads y)}"
    by (simp add: threads_left_def sum_list_sum_nth atLeast0LessThan)
  also have "\<dots> = sum ?f (unfinished y)"
    by (rule sum.mono_neutral_right) (auto simp: unfinished_def is_finished_def)
  also have "\<dots> \<le> sum (\<lambda>_. 4) (unfinished y)"
  proof (rule sum_mono)
    show "?f i \<le> 4" for i by (cases "fst (sy_threads y ! i)") simp_all
  qed
  finally show ?thesis by simp
qed

lemma server_step_shuts:
  assumes "server_step srv stalls torn y y'" "sy_stop y"
  shows "sy_stop y' \<and> shutdown_left y' < shutdown_left y"
  using assms(1)
proof cases
  case (work i m' t s')
  with threads_left_update [OF work(2) work_next_moves [OF work(5)]] assms(2) show ?thesis
    by (simp add: shutdown_left_def)
next
  case (panic i body c m' k rep s1 s')
  with threads_left_update [OF panic(2), of "(Ended, c)"] assms(2) show ?thesis
    by (simp add: shutdown_left_def)
qed (use assms(2) in \<open>auto simp: shutdown_left_def\<close>)

lemma server_run_shuts:
  "server_run srv stalls torn k y y' \<Longrightarrow> sy_stop y \<Longrightarrow> sy_stop y' \<and> k + shutdown_left y' \<le> shutdown_left y"
  by (induction rule: server_run.induct) (auto dest: server_step_shuts)

text \<open>Only the thread whose join \<open>run\<close> waits for can hold it up, and only in a write.\<close>

lemma stopped_not_stuck:
  assumes "sy_stop y" "workers_ok y" "\<not> (\<exists>y'. server_step srv stalls torn y y')"
  shows "sy_phase y = Returned \<or>
    sy_phase y = Joining \<and> sy_workers y \<noteq> [] \<and> parked stalls (sy_threads y) (hd (sy_workers y))"
proof (cases "sy_phase y")
  case Accepting
  with assms(1,3) show ?thesis by (auto intro: server_step.leave)
next
  case Joining
  with assms(3) obtain w ws where w: "sy_workers y = w # ws" by (metis neq_Nil_conv server_step.returned)
  with assms(2) have lt: "w < length (sy_threads y)" by (simp add: workers_ok_def)
  obtain k c where t: "sy_threads y ! w = (k, c)" by fastforce
  from assms(3) Joining w have "\<not> is_finished (sy_threads y) w" by (metis server_step.join)
  with lt t have "k \<noteq> Ended" by (simp add: is_finished_def)
  from work_next_total [OF this, of srv _ c "sy_fs y"] assms(3) lt t
  have "parked stalls (sy_threads y) w" by (metis server_step.work)
  with Joining w show ?thesis by simp
qed simp

text \<open>A worker in a write that is never taken stays there, and its handle is never joined.\<close>

lemma parked_update: "parked stalls ts i \<Longrightarrow> j \<noteq> i \<Longrightarrow> parked stalls (ts[j := t]) i"
  by (simp add: parked_def)

lemma parked_not_finished: "parked stalls ts i \<Longrightarrow> i < length ts \<and> \<not> is_finished ts i"
  by (auto simp: parked_def is_finished_def split: prod.splits worker.splits)

lemma server_step_parked:
  assumes "server_step srv stalls torn y y'" "parked stalls (sy_threads y) i"
  shows "parked stalls (sy_threads y') i"
  using assms(1)
proof cases
  case (accept accept_conn ts ws)
  with assms(2) show ?thesis
    by (auto simp: accept_iter_def Let_def parked_def nth_append split: if_splits sum.splits)
next
  case (work j m' t s')
  then have "j \<noteq> i" using assms(2) by auto
  from parked_update [OF assms(2) this] work(1) show ?thesis by simp
next
  case (panic j body c m' k rep s1 s')
  then have "j \<noteq> i" using assms(2) by (auto simp: parked_def)
  from parked_update [OF assms(2) this] panic(1) show ?thesis by simp
qed (use assms(2) in auto)

lemma server_run_parked:
  "server_run srv stalls torn n y y' \<Longrightarrow> parked stalls (sy_threads y) i \<Longrightarrow> parked stalls (sy_threads y') i"
  by (induction rule: server_run.induct) (auto dest: server_step_parked)


text \<open>
  Two runs of the example server, each of one connection whose message is a \<open>READ\<close>, and then the
  flag is set: in the first the filesystem panics after the file was opened, in the second the reply
  is being written.
\<close>

definition demo_body :: bytes where
  "demo_body = request_call 1 (RqRead (handle_encode demo_handle (Ino 5)) 0 100)"

definition demo_conn :: conn where
  "demo_conn = \<lparr>inbox = [Data (frame demo_body)], sent = [], send_limit = None\<rparr>"

definition demo_system :: "worker \<Rightarrow> conn \<Rightarrow> mem_fs \<Rightarrow> nat \<Rightarrow> bool \<Rightarrow> mem_fs system" where
  "demo_system w c s k stop =
     \<lparr>sy_fs = s, sy_stop = stop, sy_mount = True, sy_threads = [(w, c)], sy_workers = [0],
      sy_phase = Accepting, sy_panics = k\<rparr>"

lemma demo_conn_read: obtains c where "read_message demo_conn = (Inr (Some demo_body), c)"
proof -
  have "length demo_body \<le> unat MAX_FRAGMENT_LEN"
    by (simp add: demo_body_def request_call_def client_call_def enc_call_def args_read_def enc_opaque_var_def
        enc_opaque_fixed_def fh3.length_encode MAX_FRAGMENT_LEN_def)
  with read_message_frame [of demo_conn demo_body "[]"] that show thesis
    by (auto simp: demo_conn_def frame_def)
qed

text \<open>The moves of the worker, each a step; \<open>demo_runs\<close> puts them together with the flag.\<close>

lemma demo_move:
  assumes "work_next demo_server \<lparr>obs_stop = False, obs_mount = True, obs_mount' = True\<rparr> (w, c) s = Some ((w', c'), s')"
    and "\<And>reply. w \<noteq> InWrite reply"
  shows "server_step demo_server stalls (=) (demo_system w c s k False) (demo_system w' c' s' k False)"
proof -
  have "\<not> parked stalls (sy_threads (demo_system w c s k False)) 0"
    using assms(2) by (auto simp: parked_def demo_system_def split: worker.split)
  from server_step.work [OF _ this, of True demo_server "(w', c')" s' "(=)"] assms(1) show ?thesis
    by (simp add: demo_system_def)
qed

lemma demo_runs:
  assumes "read_message demo_conn = (Inr (Some demo_body), c)"
    and "server_step demo_server stalls (=) (demo_system (InHandle demo_body) c mem_fs_new 0 False) (demo_system w c s k False)"
  shows "server_run demo_server stalls (=) 5 (system_start True mem_fs_new) (demo_system w c s k True)"
proof -
  have a: "server_step demo_server stalls (=) (system_start True mem_fs_new) (demo_system AtCheck demo_conn mem_fs_new 0 False)"
    using server_step.accept [of "system_start True mem_fs_new" "Inr demo_conn" "[(AtCheck, demo_conn)]" "[0]"]
    by (simp add: system_start_def demo_system_def accept_iter_def MAX_CONNECTIONS_def)
  have b: "server_step demo_server stalls (=) (demo_system AtCheck demo_conn mem_fs_new 0 False)
      (demo_system InRead demo_conn mem_fs_new 0 False)"
    by (rule demo_move) simp_all
  have d: "server_step demo_server stalls (=) (demo_system InRead demo_conn mem_fs_new 0 False)
      (demo_system (InHandle demo_body) c mem_fs_new 0 False)"
    by (rule demo_move) (simp_all add: assms(1))
  have e: "server_step demo_server stalls (=) (demo_system w c s k False) (demo_system w c s k True)"
    using server_step.stop_set [of "demo_system w c s k False"] by (simp add: demo_system_def)
  show ?thesis
    using server_run.more [OF a server_run.more [OF b server_run.more [OF d server_run.more [OF assms(2)
      server_run.more [OF e server_run.here]]]]] by (simp add: eval_nat_numeral)
qed

lemma demo_panicked:
  "\<exists>c. server_run demo_server stalls (=) 5 (system_start True mem_fs_new)
     (demo_system Ended c (snd (mem_open (Ino 5) mem_fs_new)) 1 True)"
proof -
  obtain c where c: "read_message demo_conn = (Inr (Some demo_body), c)" by (rule demo_conn_read)
  obtain fh where "fs_open (srv_fs demo_server) (Ino 5) mem_fs_new = (Inr fh, snd (mem_open (Ino 5) mem_fs_new))"
    using mem_fs_new_nodes mem_inv_lock [OF mem_fs_new_inv]
    by (auto simp: demo_server_def mem_open_def mem_node_def Let_def)
  from panicking_read_leaks [OF _ this, of True True 1 0 100] obtain rep where
    "handle_message (cut_server demo_server) True True demo_body (mem_fs_new, Suc 1) =
      Some (Some rep, snd (mem_open (Ino 5) mem_fs_new), 0)"
    by (auto simp: demo_server_def demo_body_def numeral_2_eq_2)
  with server_step.panic [of 0 "demo_system (InHandle demo_body) c mem_fs_new 0 False" demo_body c True demo_server 1
      "Some rep" _ "(=)"]
  have "server_step demo_server stalls (=) (demo_system (InHandle demo_body) c mem_fs_new 0 False)
      (demo_system Ended c (snd (mem_open (Ino 5) mem_fs_new)) 1 False)"
    by (simp add: demo_system_def)
  from demo_runs [OF c this] show ?thesis by blast
qed

lemma demo_stalled:
  "\<exists>reply c s. server_run demo_server stalls (=) 5 (system_start True mem_fs_new)
     (demo_system (InWrite reply) c s 0 True)"
proof -
  obtain c where c: "read_message demo_conn = (Inr (Some demo_body), c)" by (rule demo_conn_read)
  have "length (request_args (RqRead (handle_encode demo_handle (Ino 5)) 0 100)) < 2 ^ 62"
    by (simp add: args_read_def enc_opaque_var_def enc_opaque_fixed_def fh3.length_encode)
  from client_call_header [OF this, of 1 NFS_PROG 6] obtain r where
    r: "read_call_header (reader_new demo_body) =
      (Call \<lparr>ch_xid = 1, ch_prog = NFS_PROG, ch_vers = 3, ch_proc = 6\<rparr>, r)"
    by (auto simp: demo_body_def request_call_def)
  obtain rep s where h: "handle_message demo_server True True demo_body mem_fs_new = Some (rep, s)"
    using handle_message_total by fastforce
  have "rep \<noteq> None"
    using h r by (auto simp: handle_message_def Let_def NFS_PROG_def MOUNT_PROG_def split: option.splits)
  then obtain reply where "rep = Some reply" by blast
  with h have "server_step demo_server stalls (=) (demo_system (InHandle demo_body) c mem_fs_new 0 False)
      (demo_system (InWrite reply) c s 0 False)"
    by (intro demo_move) simp_all
  from demo_runs [OF c this] show ?thesis by blast
qed

section \<open>Properties\<close>

text \<open>
  C11: The server keeps its invariant in every state it can reach. Starting with no worker, in any
  interleaving of the accept loop, the workers and the writers of the flags, whatever bytes peers
  send and whenever they connect, whether or not they read the replies, and also when calls of the
  filesystem panic: at most sixteen threads are unfinished, \<open>run\<close> holds the join handle of each
  of them, it has returned only if every thread it ever spawned has ended, the filesystem shows what
  it showed at the start, of the handles that were not open then at most one per panic is open, and so none
  without panics, and while a handle is of a thread that ended, by panic or not, the next
  connection gets a thread.
\<close>

theorem server_system_invariant:
  assumes "ro_fs_stable (srv_fs srv) I view live" "I s" "\<forall>a b. I a \<longrightarrow> torn a b \<longrightarrow> unchanged I view live a b"
    and "server_run srv stalls torn n (system_start serve_mount s) y"
  shows "card (unfinished y) \<le> 16 \<and> unfinished y \<subseteq> set (sy_workers y) \<and>
    (sy_phase y = Returned \<longrightarrow> (\<forall>t\<in>set (sy_threads y). fst t = Ended)) \<and>
    leaks I view live (sy_panics y) s (sy_fs y) \<and>
    (w \<in> set (sy_workers y) \<and> is_finished (sy_threads y) w \<longrightarrow>
      fst (accept_iter (Inr c) (sy_threads y) (sy_workers y)) = sy_threads y @ [(AtCheck, c)])"
proof -
  have "I (sy_fs (system_start serve_mount s))" using assms(2) by (simp add: system_start_def)
  from ro_fs_stable.server_run_fs [OF assms(1,4) refl this] assms(3)
  have fs: "leaks I view live (sy_panics y) s (sy_fs y)" by (auto simp: system_start_def)
  from server_run_workers [OF assms(4) workers_ok_start] have ok: "workers_ok y" .
  then have returned: "sy_phase y = Returned \<longrightarrow> (\<forall>t\<in>set (sy_threads y). fst t = Ended)"
    by (rule workers_ok_returned)
  from accept_iter_reuses [OF ok]
  have "w \<in> set (sy_workers y) \<and> is_finished (sy_threads y) w \<longrightarrow>
      fst (accept_iter (Inr c) (sy_threads y) (sy_workers y)) = sy_threads y @ [(AtCheck, c)]" by blast
  with fs returned unfinished_workers [OF ok] show ?thesis by blast
qed

theorem server_system_invariant_witness:
  "\<exists>c. let y = demo_system Ended c (snd (mem_open (Ino 5) mem_fs_new)) 1 True in
    card (unfinished y) \<le> 16 \<and> leaks mem_inv (mem_view 0 0) open_files 1 mem_fs_new (sy_fs y) \<and>
    fst (accept_iter (Inr demo_conn) (sy_threads y) (sy_workers y)) = sy_threads y @ [(AtCheck, demo_conn)]"
proof -
  have st: "ro_fs_stable (srv_fs demo_server) mem_inv (mem_view 0 0) open_files"
    by (simp add: demo_server_def memfs_stable.ro_fs_stable_axioms)
  have torn: "\<forall>a b. mem_inv a \<longrightarrow> a = b \<longrightarrow> unchanged mem_inv (mem_view 0 0) open_files a b"
    by (simp add: unchanged_def)
  obtain c where c: "server_run demo_server (\<lambda>_ _ _. False) (=) 5 (system_start True mem_fs_new)
      (demo_system Ended c (snd (mem_open (Ino 5) mem_fs_new)) 1 True)"
    using demo_panicked by blast
  from server_system_invariant [OF st mem_fs_new_inv torn c, of 0 demo_conn] show ?thesis
    by (auto simp: demo_system_def is_finished_def)
qed

text \<open>
  C10: What stopping the server does. For every filesystem, also one that panics, from every
  reachable state in which the stop flag is set, no run is longer than 83 steps, whatever the order
  of the threads and wherever each of them is; a run that cannot go on has ended
  with \<open>run\<close> returned and every thread ended, or \<open>run\<close> waits in \<open>join\<close> for a worker that
  writes a reply its peer never takes, so that without such peers the server always ends. With one
  such worker \<open>run\<close> never returns: no timeout bounds a write, and nothing else ends the worker.
\<close>

theorem server_shuts_down:
  assumes "server_run srv stalls torn n (system_start serve_mount s) y" "sy_stop y"
    and "server_run srv stalls torn k y y'"
  shows "k \<le> 83 \<and>
    ((\<exists>y2. server_step srv stalls torn y' y2) \<or>
     sy_phase y' = Returned \<and> (\<forall>t\<in>set (sy_threads y'). fst t = Ended) \<or>
     sy_phase y' = Joining \<and> sy_workers y' \<noteq> [] \<and> parked stalls (sy_threads y') (hd (sy_workers y'))) \<and>
    (parked stalls (sy_threads y) i \<longrightarrow> sy_phase y' \<noteq> Returned)"
proof -
  from server_run_workers [OF assms(1) workers_ok_start] have y: "workers_ok y" .
  from server_run_workers [OF assms(3) y] have y': "workers_ok y'" .
  then have returned: "sy_phase y' = Returned \<longrightarrow> (\<forall>t\<in>set (sy_threads y'). fst t = Ended)"
    by (rule workers_ok_returned)
  from server_run_shuts [OF assms(3,2)] have run: "sy_stop y'" "k + shutdown_left y' \<le> shutdown_left y" by simp_all
  have "shutdown_left y \<le> 83"
    using threads_left_bound [of y] unfinished_workers(2) [OF y] y
    by (simp add: shutdown_left_def workers_ok_def MAX_CONNECTIONS_def split: run_phase.split)
  with run(2) have "k \<le> 83" by simp
  moreover have "sy_phase y' \<noteq> Returned" if "parked stalls (sy_threads y) i"
    using parked_not_finished [OF server_run_parked [OF assms(3) that]] returned
    by (auto simp: is_finished_def)
  ultimately show ?thesis using stopped_not_stuck [OF run(1) y', of srv] returned by blast
qed

theorem server_shuts_down_witness:
  "\<exists>reply c s. \<forall>k y'. server_run demo_server (\<lambda>_ _ _. True) (=) k (demo_system (InWrite reply) c s 0 True) y' \<longrightarrow>
    k \<le> 83 \<and> sy_phase y' \<noteq> Returned"
proof -
  obtain reply c s where r: "server_run demo_server (\<lambda>_ _ _. True) (=) 5 (system_start True mem_fs_new)
      (demo_system (InWrite reply) c s 0 True)"
    using demo_stalled by blast
  have "sy_stop (demo_system (InWrite reply) c s 0 True)"
    and "parked (\<lambda>_ _ _. True) (sy_threads (demo_system (InWrite reply) c s 0 True)) 0"
    by (simp_all add: demo_system_def parked_def)
  with server_shuts_down [OF r] show ?thesis by blast
qed

end
