(* ===== verification/Nfs_Transport.thy ===== *)
theory Nfs_Transport
  imports Nfs_System
begin

text \<open>
  The two socket traits of \<open>src/backend/nfs/transport.rs\<close>, their implementations for TCP and Unix
  sockets, and what the server does with them: \<open>run\<close> makes its listener non-blocking, and a worker
  makes its connection blocking again and sets a read timeout. A socket of the standard library
  is the two settings these calls change; what the operating system does, whether a connection
  is pending, whether an accepted socket inherits the listener's flag and whether a setting
  fails, is a record. The contract of a transport is that neither an accept nor a read can park
  its loop: an accept never waits, and a read of an idle connection ends with the timeout, no sooner
  and no later. That is what lets an accept and a read be steps of \<open>server_step\<close> that always
  come to an end. The traits have no write timeout, so the contract says nothing of writes.
\<close>

section \<open>Sockets of the standard library\<close>

record socket =
  sk_nonblocking :: bool
  sk_read_timeout :: "duration option"

record 'a net =
  net_pending :: "(io_error + 'a) option"
  net_inherits :: bool
  net_fail_nonblocking :: "io_error option"
  net_fail_timeout :: "io_error option"

definition std_set_nonblocking :: "'a net \<Rightarrow> socket \<Rightarrow> bool \<Rightarrow> (io_error + unit) \<times> socket" where
  "std_set_nonblocking net sk b =
     (case net_fail_nonblocking net of
        Some e \<Rightarrow> (Inl e, sk)
      | None \<Rightarrow> (Inr (), sk\<lparr>sk_nonblocking := b\<rparr>))"

text \<open>\<open>set_read_timeout\<close> refuses a timeout of zero.\<close>

definition std_set_read_timeout :: "'a net \<Rightarrow> socket \<Rightarrow> duration option \<Rightarrow> (io_error + unit) \<times> socket" where
  "std_set_read_timeout net sk t =
     (if t = Some duration_default then (Inl (io_error_from_kind EkInvalidInput), sk)
      else (case net_fail_timeout net of
              Some e \<Rightarrow> (Inl e, sk)
            | None \<Rightarrow> (Inr (), sk\<lparr>sk_read_timeout := t\<rparr>)))"

text \<open>\<open>None\<close> is an accept that waits for a connection.\<close>

definition std_accept :: "'a net \<Rightarrow> socket \<Rightarrow> (io_error + socket \<times> 'a) option" where
  "std_accept net l =
     (case net_pending net of
        None \<Rightarrow> if sk_nonblocking l then Some (Inl (io_error_from_kind EkWouldBlock)) else None
      | Some (Inl e) \<Rightarrow> Some (Inl e)
      | Some (Inr addr) \<Rightarrow>
          Some (Inr (\<lparr>sk_nonblocking = net_inherits net \<and> sk_nonblocking l, sk_read_timeout = None\<rparr>, addr)))"

text \<open>How long a read of a connection with nothing to read takes; the timeout is ignored on a non-blocking socket.\<close>

datatype read_wait = AtOnce | After duration | Forever

definition idle_read :: "socket \<Rightarrow> read_wait" where
  "idle_read sk =
     (if sk_nonblocking sk then AtOnce
      else (case sk_read_timeout sk of Some t \<Rightarrow> After t | None \<Rightarrow> Forever))"

section \<open>The traits\<close>

record ('l, 'c) listener =
  ls_set_nonblocking :: "'l \<Rightarrow> bool \<Rightarrow> (io_error + unit) \<times> 'l"
  ls_accept_conn :: "'l \<Rightarrow> (io_error + 'c) option"

record 'c connection =
  cn_set_nonblocking :: "'c \<Rightarrow> bool \<Rightarrow> (io_error + unit) \<times> 'c"
  cn_set_read_timeout :: "'c \<Rightarrow> duration option \<Rightarrow> (io_error + unit) \<times> 'c"

text \<open>Addresses: a host and a port, or the path of a Unix socket if it has one.\<close>

type_synonym tcp_addr = "string \<times> u16"
type_synonym unix_addr = "os_string option"

definition tcp_listener :: "tcp_addr net \<Rightarrow> (socket, socket) listener" where
  "tcp_listener net =
     \<lparr>ls_set_nonblocking = std_set_nonblocking net,
      ls_accept_conn = (\<lambda>l. map_option (map_sum id (\<lambda>(stream, addr). stream)) (std_accept net l))\<rparr>"

definition tcp_stream :: "tcp_addr net \<Rightarrow> socket connection" where
  "tcp_stream net =
     \<lparr>cn_set_nonblocking = std_set_nonblocking net, cn_set_read_timeout = std_set_read_timeout net\<rparr>"

definition unix_listener :: "unix_addr net \<Rightarrow> (socket, socket) listener" where
  "unix_listener net =
     \<lparr>ls_set_nonblocking = std_set_nonblocking net,
      ls_accept_conn = (\<lambda>l. map_option (map_sum id (\<lambda>(stream, addr). stream)) (std_accept net l))\<rparr>"

definition unix_stream :: "unix_addr net \<Rightarrow> socket connection" where
  "unix_stream net =
     \<lparr>cn_set_nonblocking = std_set_nonblocking net, cn_set_read_timeout = std_set_read_timeout net\<rparr>"

section \<open>The server's use of them\<close>

definition ACCEPT_POLL_INTERVAL :: duration where
  "ACCEPT_POLL_INTERVAL = \<lparr>dur_secs = 0, dur_nanos = 50000000\<rparr>"

text \<open>The results of both settings are ignored.\<close>

definition run_setup :: "('l, 'c) listener \<Rightarrow> 'l \<Rightarrow> 'l" where
  "run_setup ls l = snd (ls_set_nonblocking ls l True)"

definition worker_setup :: "'c connection \<Rightarrow> 'c \<Rightarrow> 'c" where
  "worker_setup cn stream =
     (let stream = snd (cn_set_nonblocking cn stream False);
          stream = snd (cn_set_read_timeout cn stream (Some ACCEPT_POLL_INTERVAL))
      in stream)"

section \<open>The contract of a transport\<close>

locale transport_contract =
  fixes ls :: "('l, 'c) listener" and cn :: "'c connection" and idle :: "'c \<Rightarrow> read_wait" and works :: bool
  assumes polls: "works \<Longrightarrow> ls_set_nonblocking ls l True = (r, l') \<Longrightarrow> ls_accept_conn ls l' \<noteq> None"
    and waits: "works \<Longrightarrow> t \<noteq> duration_default \<Longrightarrow> cn_set_nonblocking cn c False = (r1, c1) \<Longrightarrow>
      cn_set_read_timeout cn c1 (Some t) = (r2, c2) \<Longrightarrow> idle c2 = After t"
begin

lemma accept_never_waits: "works \<Longrightarrow> ls_accept_conn ls (run_setup ls l) \<noteq> None"
  using polls [of l "fst (ls_set_nonblocking ls l True)"] by (simp add: run_setup_def)

lemma worker_read_bounded: "works \<Longrightarrow> idle (worker_setup cn c) = After ACCEPT_POLL_INTERVAL"
  using waits [of ACCEPT_POLL_INTERVAL c "fst (cn_set_nonblocking cn c False)"]
  by (simp add: worker_setup_def Let_def ACCEPT_POLL_INTERVAL_def duration_default_def)
    (metis prod.collapse)

end

definition net_works :: "'a net \<Rightarrow> bool" where
  "net_works net \<longleftrightarrow> net_fail_nonblocking net = None \<and> net_fail_timeout net = None"

lemma std_sockets_wait:
  assumes "net_works net" "t \<noteq> duration_default" "std_set_nonblocking net c False = (r1, c1)"
    and "std_set_read_timeout net c1 (Some t) = (r2, c2)"
  shows "idle_read c2 = After t"
  using assms by (auto simp: net_works_def std_set_nonblocking_def std_set_read_timeout_def idle_read_def)

lemma std_accept_polls:
  assumes "net_works net" "std_set_nonblocking net l True = (r, l')"
  shows "std_accept net l' \<noteq> None"
  using assms by (auto simp: net_works_def std_set_nonblocking_def std_accept_def split: option.split sum.split)

interpretation tcp: transport_contract "tcp_listener net" "tcp_stream net" idle_read "net_works net" for net
  by unfold_locales (simp_all add: tcp_listener_def tcp_stream_def std_accept_polls std_sockets_wait)

interpretation unix_socket: transport_contract "unix_listener net" "unix_stream net" idle_read "net_works net" for net
  by unfold_locales (simp_all add: unix_listener_def unix_stream_def std_accept_polls std_sockets_wait)

text \<open>
  What clearing the flag is for: where an accepted socket inherits it, a worker that only set the
  timeout would not wait at all.
\<close>

lemma inherited_flag_disarms_timeout:
  assumes "net_pending net = Some (Inr a)" "net_inherits net" "net_works net"
  shows "\<exists>sk. ls_accept_conn (tcp_listener net) (run_setup (tcp_listener net) l) = Some (Inr sk) \<and>
    idle_read (snd (cn_set_read_timeout (tcp_stream net) sk (Some ACCEPT_POLL_INTERVAL))) = AtOnce \<and>
    idle_read (worker_setup (tcp_stream net) sk) = After ACCEPT_POLL_INTERVAL"
proof -
  let ?sk = "\<lparr>sk_nonblocking = True, sk_read_timeout = None\<rparr>"
  have "ls_accept_conn (tcp_listener net) (run_setup (tcp_listener net) l) = Some (Inr ?sk)"
    using assms by (simp add: tcp_listener_def run_setup_def std_accept_def std_set_nonblocking_def net_works_def)
  moreover have "idle_read (snd (cn_set_read_timeout (tcp_stream net) ?sk (Some ACCEPT_POLL_INTERVAL))) = AtOnce"
    using assms(3) by (simp add: tcp_stream_def std_set_read_timeout_def net_works_def idle_read_def
        ACCEPT_POLL_INTERVAL_def duration_default_def)
  ultimately show ?thesis using tcp.worker_read_bounded [OF assms(3)] by blast
qed

end
