(* ===== verification/Example_Programs.thy ===== *)
theory Example_Programs
  imports Cfapi_Mount
begin

text \<open>
  The two programs of \<open>src/examples\<close>. \<open>memfs_main\<close> is \<open>main\<close> of \<open>memfs.rs\<close>: it mounts, waits for a
  key and unmounts. A failure is returned by \<open>?\<close>, and a \<open>Mount\<close> that is still in scope is then
  dropped, so the drop is written out where the source returns. \<open>probe_main\<close> is \<open>main\<close> of \<open>probe.rs\<close>.
  What they print is the list of lines; the opener crate, standard input, the file system and the
  backends are parameters.
\<close>

section \<open>memfs\<close>

datatype out_line = Stdout string | Stderr string

text \<open>The errors \<open>main\<close> boxes: a message, an error of the crate or one of standard input.\<close>

datatype main_error = MsgError string | FsMainError fs_error | IoMainError io_error

record 'w console =
  con_open :: "string \<Rightarrow> 'w \<Rightarrow> (string + unit) \<times> 'w"
  con_read_line :: "'w \<Rightarrow> (io_error + nat) \<times> 'w"

definition nl :: string where "nl = [CHR 0x0A]"

definition memfs_usage :: string where
  "memfs_usage = ''usage: memfs <mountpoint> [--open]'' @ nl @
     ''hint: mkdir -p /tmp/anymount-demo && cargo run --example memfs -- /tmp/anymount-demo''"

definition memfs_banner :: "bool \<Rightarrow> string \<Rightarrow> 'h mount \<Rightarrow> out_line list" where
  "memfs_banner macos mountpoint m =
     [Stdout (''mounted at '' @ mount_mountpoint m)] @
     (if macos then
        [Stdout (''transport: '' @ (if mount_uses_local_socket m then ''AF_UNIX socket'' else ''loopback TCP''))]
      else []) @
     [Stdout (''try:  ls -lR '' @ mountpoint),
      Stdout (''      cat '' @ mountpoint @ ''/hello.txt''),
      Stdout (''      sha256sum '' @ mountpoint @ ''/numbers.txt'')]"

text \<open>What is printed once mounted, and the file manager if it was asked for.\<close>

definition memfs_show ::
  "bool \<Rightarrow> 'w console \<Rightarrow> string \<Rightarrow> bool \<Rightarrow> 'h mount \<Rightarrow> 'w \<Rightarrow> out_line list \<times> 'w" where
  "memfs_show macos con mountpoint win m w =
     (let out = memfs_banner macos mountpoint m
      in if win then
           (case con_open con (mount_mountpoint m) w of
              (Inl e, w) \<Rightarrow> (out @ [Stderr (''could not open a file manager window: '' @ e)], w)
            | (Inr _, w) \<Rightarrow> (out, w))
         else (out, w))"

text \<open>The part of \<open>main\<close> that holds the mount.\<close>

definition memfs_mounted ::
  "bool \<Rightarrow> ('h, 'w) mounted \<Rightarrow> 'w console \<Rightarrow> string \<Rightarrow> bool \<Rightarrow> 'h mount \<Rightarrow> 'w \<Rightarrow>
     (main_error + unit) \<times> out_line list \<times> 'w" where
  "memfs_mounted macos md con mountpoint win m w =
     (case memfs_show macos con mountpoint win m w of
        (out, w) \<Rightarrow>
          (let out = out @ [Stdout (nl @ ''press Enter to unmount...'')]
           in case con_read_line con w of
                (Inl e, w) \<Rightarrow> (case mount_drop md m w of (_, w) \<Rightarrow> (Inl (IoMainError e), out, w))
              | (Inr _, w) \<Rightarrow>
                  (case mount_unmount md m w of
                     (Inl e, w) \<Rightarrow> (Inl (FsMainError e), out, w)
                   | (Inr _, w) \<Rightarrow> (Inr (), out @ [Stdout ''unmounted''], w))))"

definition memfs_main ::
  "bool \<Rightarrow> build \<Rightarrow> ('h, 'w) mounted \<Rightarrow> ('h, 'w) mounter \<Rightarrow> 'w console \<Rightarrow> string list \<Rightarrow> 'w \<Rightarrow>
     (main_error + unit) \<times> out_line list \<times> 'w" where
  "memfs_main macos cfg md mnt con args w =
     (case args of
        [] \<Rightarrow> (Inl (MsgError memfs_usage), [], w)
      | mountpoint # args \<Rightarrow>
          (let win = list_ex (\<lambda>a. a = ''--open'') args
           in case builder_mount cfg md mnt (set_fs_name (chars ''anymount-memfs'') (builder_new mountpoint)) w of
                (Inl e, w) \<Rightarrow> (Inl (FsMainError e), [], w)
              | (Inr m, w) \<Rightarrow> memfs_mounted macos md con mountpoint win m w))"

section \<open>probe\<close>

fun hex_digits :: "nat \<Rightarrow> string" where
  "hex_digits n =
     (let d = (\<lambda>k. if k < 10 then char_of (48 + k) else char_of (87 + k))
      in if n < 16 then [d n] else hex_digits (n div 16) @ [d (n mod 16)])"

declare hex_digits.simps [simp del]

definition show_bool :: "bool \<Rightarrow> string" where
  "show_bool b = (if b then ''true'' else ''false'')"

definition probe_main ::
  "string \<Rightarrow> string \<Rightarrow> build \<Rightarrow> (string \<Rightarrow> bool) \<Rightarrow> platform_info option \<Rightarrow> out_line list" where
  "probe_main os arch cfg exists cfapi_info =
     [Stdout ''anymount backend probe'',
      Stdout (''  target: '' @ os @ '' / '' @ arch),
      Stdout (''  a backend is compiled in: '' @ show_bool (any_backend_available cfg))] @
     (if cfg_fuse cfg then
        (let helper = exists ''/usr/bin/fusermount3'' \<or> exists ''/bin/fusermount3''
         in [Stdout (nl @ ''FUSE:''), Stdout (''  fusermount3 present: '' @ show_bool helper)] @
            (if \<not> helper then [Stdout ''  hint: install fuse3 (Debian/Ubuntu: apt install fuse3)''] else []))
      else []) @
     (if cfg_nfs cfg then
        [Stdout (nl @ ''NFS: backend compiled in (mounts via the built-in mount_nfs client)'')]
      else []) @
     (if cfg_cfapi cfg then
        (case cfapi_info of
           Some info \<Rightarrow>
             [Stdout (nl @ ''Cloud Files (cfapi) available:''),
              Stdout (''  build '' @ decimal (unat (pi_build info)) @ ''.'' @ decimal (unat (pi_revision info))),
              Stdout (''  integration 0x'' @ hex_digits (unat (pi_integration info)))]
         | None \<Rightarrow> [Stdout (nl @ ''Cloud Files (cfapi): unavailable (needs Windows 10 1709+)'')])
      else [])"

section \<open>Counting what main tears down\<close>

text \<open>An operation that does not touch the log of torn down handles.\<close>

definition unlogged :: "('w \<Rightarrow> 'a \<times> 'w) \<Rightarrow> 'w \<times> 'l \<Rightarrow> 'a \<times> 'w \<times> 'l" where
  "unlogged f = (\<lambda>(w, l). case f w of (a, w) \<Rightarrow> (a, w, l))"

definition con_unlogged :: "'w console \<Rightarrow> ('w \<times> 'l) console" where
  "con_unlogged con = \<lparr>con_open = (\<lambda>p. unlogged (con_open con p)), con_read_line = unlogged (con_read_line con)\<rparr>"

definition mnt_unlogged :: "('h, 'w) mounter \<Rightarrow> ('h, 'w \<times> 'l) mounter" where
  "mnt_unlogged mnt k b = unlogged (mnt k b)"

lemma unlogged_pair [simp]: "unlogged f (w, l) = (case f w of (a, w) \<Rightarrow> (a, w, l))"
  by (simp add: unlogged_def)

lemma con_unlogged_sel [simp]:
  "con_open (con_unlogged con) p = unlogged (con_open con p)"
  "con_read_line (con_unlogged con) = unlogged (con_read_line con)"
  by (simp_all add: con_unlogged_def)

lemma mount_new_counted: "mount_new (counted md) h p = mount_new md h p"
  by (simp add: mount_new_def counted_def)

lemma builder_mount_unlogged:
  "builder_mount cfg (counted md) (mnt_unlogged mnt) b (w, l) = (case builder_mount cfg md mnt b w of (r, w) \<Rightarrow> (r, w, l))"
  by (auto simp: builder_mount_def backend_mount_def auto_mount_def mnt_unlogged_def mount_new_counted Let_def
      split: backend.split prod.split sum.split)

lemma builder_mount_inner: "builder_mount cfg md mnt b w = (Inr m, w') \<Longrightarrow> \<exists>h. mt_inner m = Some h"
  by (auto simp: builder_mount_def backend_mount_def mount_new_def Let_def split: prod.splits sum.splits)

lemma torn_down_once:
  assumes "mt_inner m = Some h"
  shows "snd (snd (mount_drop (counted md) m (w, l))) = l @ [h]"
    "snd (snd (mount_unmount (counted md) m (w, l))) = l @ [h]"
  using assms by (simp_all add: mount_drop_def mount_unmount_def counted_def Let_def split: prod.split)

lemma memfs_show_unlogged:
  "memfs_show macos (con_unlogged con) mountpoint win m (w, l) =
     (case memfs_show macos con mountpoint win m w of (out, w) \<Rightarrow> (out, w, l))"
  by (simp add: memfs_show_def Let_def split: prod.split sum.split)

lemma memfs_mounted_unmounts:
  assumes "mt_inner m = Some h"
    and "memfs_mounted macos (counted md) (con_unlogged con) mountpoint win m (w, l) = (r, out, w', l')"
  shows "l' = l @ [h]"
proof -
  obtain out1 w1 where o: "memfs_show macos (con_unlogged con) mountpoint win m (w, l) = (out1, w1, l)"
    using memfs_show_unlogged [of macos con mountpoint win m w l] by (auto split: prod.splits)
  obtain rl w2 where rd: "con_read_line con w1 = (rl, w2)" by fastforce
  obtain w3 l3 where d: "snd (mount_drop (counted md) m (w2, l)) = (w3, l3)" by fastforce
  obtain ru w4 l4 where u: "mount_unmount (counted md) m (w2, l) = (ru, w4, l4)" by (metis prod.exhaust)
  from torn_down_once [OF assms(1), of md w2 l] d u have "l3 = l @ [h]" "l4 = l @ [h]" by simp_all
  with assms(2) o rd d u show ?thesis
    by (cases rl; cases ru) (auto simp: memfs_mounted_def Let_def split: prod.splits)
qed

section \<open>Properties\<close>

text \<open>
  C39: The example program never leaves its mount behind. Whatever its arguments are and
  whatever the backend, the file manager and standard input do, \<open>main\<close> tears down the handle of the
  mount it made exactly once, also when reading the key fails; without arguments, or when
  mounting fails, it tears down nothing and reports an error.
\<close>

theorem memfs_main_unmounts:
  "case memfs_main macos cfg (counted md) (mnt_unlogged mnt) (con_unlogged con) args (w, []) of
     (result, out, w', handles) \<Rightarrow>
       (case args of
          [] \<Rightarrow> handles = [] \<and> isl result
        | mountpoint # _ \<Rightarrow>
            (case fst (builder_mount cfg md mnt
                 (set_fs_name (chars ''anymount-memfs'') (builder_new mountpoint)) w) of
               Inl e \<Rightarrow> handles = [] \<and> result = Inl (FsMainError e)
             | Inr m \<Rightarrow> \<exists>h. mt_inner m = Some h \<and> handles = [h]))"
proof (cases args)
  case (Cons mountpoint rest)
  obtain rm w1 where bm: "builder_mount cfg md mnt
      (set_fs_name (chars ''anymount-memfs'') (builder_new mountpoint)) w = (rm, w1)" by fastforce
  show ?thesis
  proof (cases rm)
    case (Inr m)
    with bm builder_mount_inner obtain h where h: "mt_inner m = Some h" by fastforce
    from memfs_mounted_unmounts [OF h, of macos md con mountpoint _ w1 "[]"] show ?thesis
      using Cons bm Inr h by (auto simp: memfs_main_def builder_mount_unlogged Let_def split: prod.split)
  qed (use Cons bm in \<open>simp add: memfs_main_def builder_mount_unlogged Let_def\<close>)
qed (simp add: memfs_main_def)

end
