(* ===== verification/Spec2Isabelle.thy ===== *)
theory Spec2Isabelle
  imports Xdr Fs_Error Mem_Fs Handle3 Rpc Readdir Xdr_Grammar Nfs_Server Mount_Lifecycle Fuse_Session
    Cfapi_Backend Cfapi_Clients Cfapi_Mount Mount_Args Nfs_Mount Nfs_Lifecycle Shared_Fs Nfs_Clients
    Nfs_Session Nfs_Client Nfs_Panics Nfs_System Nfs_Transport Example_Programs
begin

text \<open>
  Verification of anymount, a Rust crate that mounts a read-only filesystem a program
  implements (the trait \<open>ReadOnlyFs\<close>): over FUSE on Linux, over an NFSv3 server inside the process
  on macOS, over the Cloud Files API on Windows.

  \<^bold>\<open>The program's parts and their interaction.\<close> A caller configures a \<open>MountBuilder\<close> and calls
  \<open>mount\<close>; \<open>backend::mount\<close> chooses a backend, the backend runs the shared preflight checks, starts to
  serve, and returns a handle that \<open>Mount\<close> tears down once. Every backend translates requests of
  its platform into calls of \<open>ReadOnlyFs\<close>; directory listings of all three go through one driver,
  \<open>readdir::emit\<close>. The NFS backend is the largest: bytes of a connection are cut into RPC messages
  (\<open>rpc.rs\<close>), routed by program (\<open>server.rs\<close>) to the MOUNT procedures (\<open>mount_proto.rs\<close>), which
  hand the root handle to whoever presents the export path, or to the NFS procedures
  (\<open>nfs_proto.rs\<close>), which recover the inode from an authenticated handle (\<open>handle.rs\<close>) and read
  and write XDR (\<open>xdr.rs\<close>). It mounts itself over a Unix socket (\<open>local.rs\<close>, \<open>mount_args.rs\<close>) or
  over loopback (\<open>tcp.rs\<close>), with \<open>mod.rs\<close> choosing and tearing down.

  \<^bold>\<open>Theories and the code they model\<close> (files under \<open>src/src/\<close> unless said otherwise).

  \<^item> \<open>Rust_Prelude\<close>: words for the integer types, byte strings, the standard library's big-endian
    conversions, saturating and checked arithmetic, UTF-8, decimal display; \<open>Anymount_Types\<close>: \<open>types.rs\<close>;
    \<open>Fs_Error\<close>: \<open>error.rs\<close>, its mappings to errno, \<open>nfsstat3\<close> and \<open>NTSTATUS\<close>.
  \<^item> \<open>Read_Only_Fs\<close>: \<open>fs.rs\<close>. An implementation is a record of functions over its own state, so every
    statement about a backend quantifies over all implementations. The locale \<open>ro_fs\<close> is the
    contract the trait documents; \<open>ro_fs_stable\<close>, \<open>ro_fs_dirs\<close> and \<open>ro_fs_full\<close> extend it to failing calls, to listing what is
    not a directory and to the rest of the trait; \<open>traced\<close> wraps an implementation with a log of the calls it gets.
    \<open>Mem_Fs\<close>: \<open>src/examples/memfs.rs\<close>, with the interpretation of the four locales on it. \<open>Shared_Fs\<close>: a filesystem
    as one of several workers sees it, with the others' calls between any two of its own; it keeps the first three contracts again.
  \<^item> \<open>Xdr\<close>: \<open>backend/nfs/xdr.rs\<close>; \<open>Xdr_Grammar\<close>: the types of the wire protocol, stated
    separately from the code that writes them; \<open>Handle3\<close>: \<open>backend/nfs/handle.rs\<close>; \<open>Rpc\<close>:
    \<open>backend/nfs/rpc.rs\<close>, a connection being the pieces in which its bytes arrive, the read errors between them,
    and the bytes sent; \<open>Readdir\<close>: \<open>backend/readdir.rs\<close>, with a sink over a state of its own.
  \<^item> \<open>Nfs_Proto\<close>: every procedure and the dispatch table of \<open>backend/nfs/nfs_proto.rs\<close>; \<open>Nfs_Replies\<close>: its
    replies against RFC 1813's result types; \<open>Nfs_Semantics\<close>: what the procedures do to the filesystem and
    return; \<open>Mount_Proto\<close>: \<open>backend/nfs/mount_proto.rs\<close>; \<open>Nfs_Server\<close>: \<open>backend/nfs/server.rs\<close>, the
    connection loop as a function of what it observes at each turn; \<open>Nfs_Clients\<close>: what a connection can do to
    the filesystem, proved once in the locales \<open>looks_keep\<close> and \<open>request_keeps\<close>, and one worker among others; \<open>Nfs_Session\<close>: requests, and their
    replies as a function of what the filesystem shows; \<open>Nfs_Client\<close>: a client that decodes them; \<open>Nfs_Panics\<close>: requests
    cut short by a panic of the filesystem; \<open>Nfs_System\<close>: the accept loop, the threads it
    spawns and joins, the flags and the shared filesystem as a step relation, a thread being at one of the calls of the
    connection loop and a write one that may never return; \<open>Nfs_Transport\<close>: \<open>backend/nfs/transport.rs\<close>, with the
    locale \<open>transport_contract\<close> and its interpretation for both kinds of socket.
  \<^item> \<open>Mount_Args\<close>: \<open>backend/nfs/mount_args.rs\<close>, against a decoder of the layout; \<open>Nfs_Mount\<close>:
    \<open>backend/nfs/mod.rs\<close>, \<open>local.rs\<close> and \<open>tcp.rs\<close>. The operating system is an environment, one
    function per call from everything done so far to its answer, so a statement for every environment covers every
    failure at every point. \<open>Nfs_Lifecycle\<close>: what follows for the mounts that are made.
  \<^item> \<open>Preflight\<close>: the builder of \<open>mount.rs\<close> and \<open>backend/preflight.rs\<close>; \<open>Mount_Lifecycle\<close>:
    \<open>backend/mod.rs\<close>, \<open>Mount\<close> of \<open>mount.rs\<close> and the probe of \<open>lib.rs\<close>, with the locales \<open>mounted_contract\<close> (teardown
    releases what a handle stands for) and \<open>backend_contract\<close> (\<open>mount\<close> ends holding exactly its handle,
    or nothing) and \<open>ledger_account\<close> (what is taken, given back, and refused when it is given back).
    \<open>Nfs_Mount\<close>, \<open>Nfs_Lifecycle\<close> and \<open>Cfapi_Mount\<close> interpret them on the calls of their platforms.
  \<^item> \<open>Fuse_Backend\<close>: \<open>backend/fuse.rs\<close>; \<open>Fuse_Session\<close>: sessions of requests and the abstract filesystem they
    refine, with the kernel's attributes, numbers and buffer rules stated apart from the adapter's conversions; \<open>Cfapi_Backend\<close>: the two callbacks of \<open>backend/cfapi.rs\<close>;
    \<open>Cfapi_Clients\<close>: what sequences of them do to the filesystem;
    \<open>Cfapi_Mount\<close>: its mounting, teardown and clearing of leftover placeholders.
  \<^item> \<open>Example_Programs\<close>: \<open>main\<close> of \<open>src/examples/memfs.rs\<close> and \<open>src/examples/probe.rs\<close>.

  \<^bold>\<open>What the theorems show.\<close>

  \<^item> Serving. Every NFS call returns, with a reply of the type RFC 1813 gives the procedure, for every
    filesystem implementation (C5, C6, C33); \<open>READ\<close> and Cloud Files fetches return exactly the file's bytes
    (C7, C13); directory replies stay within the client's limit, if it leaves room for an empty list, and make progress, and placeholders are
    complete (C21, C22, C23). A connection is answered as an abstract read-only filesystem, a function of what is shown,
    would answer it (C1); with a decoder of its own a client reads whole files and lists whole directories through it
    (C2, C3) and gets from the published path to a file's bytes, each reply determined byte for byte (C4, below), all while
    other workers call the same filesystem. Whatever a peer sends, and whatever the Cloud Files platform asks,
    changes nothing the filesystem shows and leaves no handle open (C8, C15); a FUSE session is one of an abstract read-only
    filesystem too (C9).
  \<^item> Safety. Foreign handles are refused without a filesystem call, handles resolve under their own secret only,
    mutations get fixed replies and never reach the filesystem, opened handles are released once, \<open>MNT\<close> authorizes
    exactly the holders of the export path (C16 to C20).
  \<^item> The server. In every reachable state the invariant of threads and filesystem holds, also when the
    filesystem panics (C11); a stopped server ends within a fixed number of steps unless a peer leaves a reply unread, and never ends if one does (C10). Framing round trips, the connection loop ends, credentials are
    skipped as reading them would (C34, C32, C40).
  \<^item> Lifecycle. Mounting and teardown account for every server, listening socket, socket file, directory, mount,
    registration and connection: whatever the platform answers, each is asked back, a call that fails gives nothing back, and what
    is left is what such a recorded call refused; options a backend cannot honor are refused, a forbidden fallback is
    never taken, a mount is torn down once, also by the example program (C12, C24 to C29, C36 to C39).
  \<^item> Defects and limits. A read timeout inside a message loses bytes (C35); a fetch whose file
    cannot be opened is not answered, though every other is (C31, C14); a refused local mount unmounts what is at
    the mountpoint (C30); a write has no timeout, so that a peer can hold up shutdown (C10); \<open>io::Error\<close> conversion drops contexts (\<open>io_error_drops_context\<close>).

  \<^bold>\<open>Bounds and fuel.\<close> Integers have the source's widths; \<open>usize\<close> is a natural number where it counts bytes in memory,
    and buffers are then assumed shorter than \<open>2 ^ 62\<close> or \<open>2 ^ 63\<close>, which a 64-bit address space cannot
    exceed. Loops that could run forever, \<open>emit_loop\<close> and \<open>stream_loop\<close>, are partial functions whose
    value \<open>None\<close> is not returning; that they return is proved (C5, C14). The connection loop takes one
    observation of the flags per turn; C32 gives a number of turns that suffices. The 83 steps of C10
    are four moves for each of sixteen threads, one join for each, and three steps for leaving the loop, the return and
    the other flag. Cookies of \<open>emit\<close> wrap as in a release build.

  \<^bold>\<open>Not modelled.\<close> \<open>backend/trace.rs\<close> (logging macros), \<open>Debug\<close> implementations, constructors for tests,
    the \<open>catch_unwind\<close> wrappers of the Cloud Files callbacks (a panic is modelled where a request
    is cut short by it, in the NFS server's threads) and memory safety of the raw pointers behind them. The random source, \<open>libc\<close>, the Win32 calls and the \<open>fuser\<close> and
    \<open>opener\<close> crates are parameters. Of timing there is how long a socket call waits, and no clock; in \<open>Rpc\<close> a
    send completes or fails, and that it may wait forever is part of \<open>Nfs_System\<close>. Workers
    interleave at the calls of \<open>ReadOnlyFs\<close> in \<open>Shared_Fs\<close>, and in \<open>Nfs_System\<close> at the flag check, the read, the handling and the
    write of each message; a call is one step of the implementation's state. The threads of \<open>Nfs_Mount\<close> are joined in one call that returns.
\<close>

section \<open>A client's session\<close>

lemma mount_message:
  assumes "read_call_header (reader_new msg) =
      (Call \<lparr>ch_xid = xid, ch_prog = MOUNT_PROG, ch_vers = 3, ch_proc = 1\<rparr>, r)"
    and "mnt r (srv_export srv) (srv_handle srv) = Success w" "writer_buf w = body"
  shows "handle_message srv True m' msg s = Some (Some (success_reply xid body), s)"
  using assms by (simp add: handle_message_def mount_dispatch_def success_reply_writer)

lemma mount_published_path:
  assumes "length secret = 16" "srv_export srv = export_from_secret secret" "list_all is_scalar name"
  shows "handle_message srv True m' (client_call xid MOUNT_PROG 1
      (enc_opaque_var (export_path_of (srv_export srv) (volume_label name)))) s =
    Some (Some (success_reply xid (u32_to_be_bytes MNT3_OK @
      enc_opaque_var (handle_encode (srv_handle srv) ROOT_INO) @ u32_to_be_bytes 1 @ u32_to_be_bytes 1)), s)"
proof -
  let ?p = "export_path_of (export_from_secret secret) (volume_label name)"
  from export_path_ok [OF assms(1,3)] have p: "utf8_valid ?p" "length ?p \<le> 1024" by blast+
  have "length (enc_opaque_var ?p) < 2 ^ 62" using length_enc_opaque_var [of ?p] p(2) by simp
  from client_call_header [OF this, of xid MOUNT_PROG 1] obtain r where r:
    "read_call_header (reader_new (client_call xid MOUNT_PROG 1 (enc_opaque_var ?p))) =
      (Call \<lparr>ch_xid = xid, ch_prog = MOUNT_PROG, ch_vers = 3, ch_proc = 1\<rparr>, r)"
    "reader_ok r" "reader_rest r = enc_opaque_var ?p" .
  have yes: "carries (export_hex (export_from_secret secret)) ?p"
    unfolding carries_def export_path_segment by auto
  have "reader_rest r = enc_opaque_var ?p @ []" using r(3) by simp
  from mnt_outcome [OF assms(1) r(2) this p(2,1), of "srv_handle srv"] obtain w where w:
    "mnt r (export_from_secret secret) (srv_handle srv) = Success w"
    "writer_buf w = u32_to_be_bytes MNT3_OK @ enc_opaque_var (handle_encode (srv_handle srv) ROOT_INO) @
        u32_to_be_bytes 1 @ u32_to_be_bytes 1"
    unfolding if_P [OF yes] by blast
  have "mnt r (srv_export srv) (srv_handle srv) = Success w" using w(1) assms(2) by simp
  from mount_message [OF r(1) this refl, of m' s] w show ?thesis unfolding assms(2) by simp
qed

lemma lookup_message:
  assumes "ro_fs (srv_fs srv) I view live" "I s" "handle_ok (srv_handle srv)"
    and "view_lookup (view s) dir fname = Some a" "length fname \<le> 1024"
  shows "\<exists>s'. handle_message srv m m' (client_call xid NFS_PROG 3
      (args_lookup (handle_encode (srv_handle srv) dir) fname)) s =
    Some (Some (success_reply xid (u32_to_be_bytes 0 @ enc_opaque_var (handle_encode (srv_handle srv) (attr_ino a)) @
      enc_post_op_attr (Some a) 1 @ post_op (view s) dir)), s') \<and>
    I s' \<and> view s' = view s \<and> live s' = live s"
proof -
  let ?ctx = "\<lparr>ctx_fs = srv_fs srv, ctx_handle = srv_handle srv, ctx_fsid = 1\<rparr>"
  let ?args = "args_lookup (handle_encode (srv_handle srv) dir) fname"
  have hl: "length (handle_encode (srv_handle srv) dir) = 24"
    using fh3.length_encode [OF assms(3)] by simp
  have "length ?args < 2 ^ 62"
    using length_enc_opaque_var [of "handle_encode (srv_handle srv) dir"] length_enc_opaque_var [of fname] hl assms(5)
    by (simp add: args_lookup_def)
  from client_call_header [OF this, of xid NFS_PROG 3] obtain r where r:
    "read_call_header (reader_new (client_call xid NFS_PROG 3 ?args)) =
      (Call \<lparr>ch_xid = xid, ch_prog = NFS_PROG, ch_vers = 3, ch_proc = 3\<rparr>, r)"
    "reader_ok r" "reader_rest r = ?args" .
  obtain rl s1 where lk: "fs_lookup (srv_fs srv) dir fname s = (rl, s1)" by fastforce
  from ro_fs.lookup_eq [OF assms(1,2) lk] assms(4)
  have s1: "rl = Inr a" "I s1" "view s1 = view s" "live s1 = live s" by (auto split: sum.splits)
  obtain ra s2 where ga: "fs_getattr (srv_fs srv) dir s1 = (ra, s2)" by fastforce
  from ro_fs.getattr_eq [OF assms(1) s1(2) ga] s1 have s2: "I s2" "view s2 = view s" "live s2 = live s" by auto
  have po: "post_op_of ?ctx dir s1 = post_op (view s) dir"
    using ro_fs.post_op_shown [OF assms(1), of ?ctx s1 dir] s1(2,3) by simp
  have lk': "fs_lookup (ctx_fs ?ctx) dir fname s = (Inr a, s1)" using lk s1(1) by simp
  from nfs_lookup_outcome [of ?ctx r dir fname s a s1, OF _ r(2) _ assms(5) lk'] assms(3) r(3) obtain w fh where
    out: "nfs_lookup r ?ctx s = (Success w, s2)" "handle_resolve (srv_handle srv) fh = Some (attr_ino a)"
      "writer_buf w = u32_to_be_bytes 0 @ enc_opaque_var fh @ enc_post_op_attr (Some a) 1 @ post_op (view s) dir"
    using ga po by auto
  from out(2) have fh: "fh = handle_encode (srv_handle srv) (attr_ino a)" using fh3.resolve_iff [OF assms(3)] by blast
  have "nfs_dispatch 3 r ?ctx s = Some (Success w, s2)" using out(1) by (simp add: nfs_dispatch_def)
  from nfs_message [OF r(1) this out(3), of m m'] s2 show ?thesis unfolding fh by blast
qed

lemma read_message_answer:
  assumes "ro_fs (srv_fs srv) I view live" "I s" "handle_ok (srv_handle srv)" "view_data (view s) ino = Some d"
  shows "\<exists>a fh s'. handle_message srv m m' (client_call xid NFS_PROG 6
      (args_read (handle_encode (srv_handle srv) ino) off count)) s =
    Some (Some (success_reply xid (u32_to_be_bytes 0 @ enc_post_op_attr (Some a) 1 @
      u32_to_be_bytes (of_nat (length (take (min (unat count) 1048576) (drop (unat off) d)))) @
      u32_to_be_bytes (of_bool (length d \<le> unat off + length (take (min (unat count) 1048576) (drop (unat off) d)))) @
      enc_opaque_var (take (min (unat count) 1048576) (drop (unat off) d)))), s') \<and>
    view_attr (view s) ino = Some a \<and> I s' \<and> view s' = view s \<and> live s' = (live s)(fh := None)"
proof -
  let ?ctx = "\<lparr>ctx_fs = srv_fs srv, ctx_handle = srv_handle srv, ctx_fsid = 1\<rparr>"
  let ?args = "args_read (handle_encode (srv_handle srv) ino) off count"
  have hl: "length (handle_encode (srv_handle srv) ino) = 24"
    using fh3.length_encode [OF assms(3)] by simp
  have "length ?args < 2 ^ 62"
    using length_enc_opaque_var [of "handle_encode (srv_handle srv) ino"] hl by (simp add: args_read_def)
  from client_call_header [OF this, of xid NFS_PROG 6] obtain r where r:
    "read_call_header (reader_new (client_call xid NFS_PROG 6 ?args)) =
      (Call \<lparr>ch_xid = xid, ch_prog = NFS_PROG, ch_vers = 3, ch_proc = 6\<rparr>, r)"
    "reader_ok r" "reader_rest r = ?args" .
  from nfs_read_outcome [of ?ctx I view live s ino d r off count, OF _ assms(2) _ assms(4) r(2)] assms(1,3) r(3)
  obtain w a fh s' where
    out: "nfs_read r ?ctx s = (Success w, s')" "view_attr (view s) ino = Some a"
      "writer_buf w = u32_to_be_bytes 0 @ enc_post_op_attr (Some a) 1 @
        u32_to_be_bytes (of_nat (length (take (min (unat count) 1048576) (drop (unat off) d)))) @
        u32_to_be_bytes (of_bool (length d \<le> unat off + length (take (min (unat count) 1048576) (drop (unat off) d)))) @
        enc_opaque_var (take (min (unat count) 1048576) (drop (unat off) d))"
      "I s'" "view s' = view s" "live s' = (live s)(fh := None)" by auto
  have "nfs_dispatch 6 r ?ctx s = Some (Success w, s')" using out(1) by (simp add: nfs_dispatch_def)
  from nfs_message [OF r(1) this out(3)] out(2,4-6) show ?thesis by blast
qed

lemma client_session:
  assumes "ro_fs (srv_fs srv) I view live" "I s" "handle_ok (srv_handle srv)"
    and "length secret = 16" "srv_export srv = export_from_secret secret" "list_all is_scalar name"
    and "view_lookup (view s) ROOT_INO fname = Some a" "length fname \<le> 1024"
    and "view_data (view s) (attr_ino a) = Some d"
    and "root = handle_encode (srv_handle srv) ROOT_INO" "fh = handle_encode (srv_handle srv) (attr_ino a)"
    and "out = take (min (unat count) 1048576) (drop (unat off) d)"
  shows "\<exists>h s1 s2.
    handle_message srv True True (client_call x1 MOUNT_PROG 1
        (enc_opaque_var (export_path_of (srv_export srv) (volume_label name)))) s =
      Some (Some (success_reply x1 (u32_to_be_bytes 0 @ enc_opaque_var root @
        u32_to_be_bytes 1 @ u32_to_be_bytes 1)), s) \<and>
    handle_message srv False False (client_call x2 NFS_PROG 3 (args_lookup root fname)) s =
      Some (Some (success_reply x2 (u32_to_be_bytes 0 @ enc_opaque_var fh @
        enc_post_op_attr (Some a) 1 @ post_op (view s) ROOT_INO)), s1) \<and>
    handle_message srv False False (client_call x3 NFS_PROG 6 (args_read fh off count)) s1 =
      Some (Some (success_reply x3 (u32_to_be_bytes 0 @ enc_post_op_attr (Some a) 1 @
        u32_to_be_bytes (of_nat (length out)) @ u32_to_be_bytes (of_bool (length d \<le> unat off + length out)) @
        enc_opaque_var out)), s2) \<and>
    I s2 \<and> view s2 = view s \<and> live s2 = (live s)(h := None)"
proof -
  note mounted = mount_published_path [OF assms(4-6), of True x1 s]
  from lookup_message [OF assms(1-3,7,8), of False False x2] obtain s1 where looked:
    "handle_message srv False False (client_call x2 NFS_PROG 3 (args_lookup root fname)) s =
      Some (Some (success_reply x2 (u32_to_be_bytes 0 @ enc_opaque_var fh @
        enc_post_op_attr (Some a) 1 @ post_op (view s) ROOT_INO)), s1)"
    "I s1" "view s1 = view s" "live s1 = live s" unfolding assms(10,11) by blast
  have d: "view_data (view s1) (attr_ino a) = Some d" using assms(9) looked(3) by simp
  have a: "view_attr (view s1) (attr_ino a) = Some a"
    using ro_fs.lookup_attr [OF assms(1,2,7)] looked(3) by simp
  from read_message_answer [OF assms(1) looked(2) assms(3) d, of False False x3 off count]
  obtain h s2 where answered: "handle_message srv False False (client_call x3 NFS_PROG 6 (args_read fh off count)) s1 =
      Some (Some (success_reply x3 (u32_to_be_bytes 0 @ enc_post_op_attr (Some a) 1 @
        u32_to_be_bytes (of_nat (length out)) @ u32_to_be_bytes (of_bool (length d \<le> unat off + length out)) @
        enc_opaque_var out)), s2)"
    "I s2" "view s2 = view s1" "live s2 = (live s1)(h := None)" unfolding assms(11,12) using a by auto
  from answered(3,4) looked(3,4) have "view s2 = view s" "live s2 = (live s)(h := None)" by simp_all
  with mounted looked(1) answered(1,2) show ?thesis unfolding MNT3_OK_def assms(10) by blast
qed

text \<open>
  C4: A client reads what the filesystem holds, among others. On a filesystem that keeps its
  contract, while other workers call it between any two calls of this one and leave this one's handles
  alone, a client sends the server a \<open>MNT\<close> call with the published path, a \<open>LOOKUP\<close> of a
  name with the handle that call returned, and a \<open>READ\<close> with the handle of that reply, each as
  a whole RPC message. The three replies are determined byte for byte: the first carries the handle of
  the root and its one authentication flavor; the second the handle and the attributes of the
  file and the attributes of the root; the third the attributes of the file, the number of bytes that
  follow, whether they reach the end of the file, and the bytes of the file from the offset asked for,
  as many as the file has there, up to the count and 1048576. What the filesystem shows is
  unchanged and no handle opened for this client is left open.
\<close>

theorem client_mounts_and_reads:
  assumes "ro_fs (srv_fs srv) I view live" "I s" "list_all (harmless I view live) others"
    and "handle_ok (srv_handle srv)"
    and "length secret = 16" "srv_export srv = export_from_secret secret" "list_all is_scalar name"
    and "view_lookup (view s) ROOT_INO fname = Some a" "length fname \<le> 1024"
    and "view_data (view s) (attr_ino a) = Some d"
    and "root = handle_encode (srv_handle srv) ROOT_INO" "fh = handle_encode (srv_handle srv) (attr_ino a)"
    and "out = take (min (unat count) 1048576) (drop (unat off) d)"
  shows "\<exists>x1 x2.
    handle_message (shared_server srv) True True (client_call xid1 MOUNT_PROG 1
        (enc_opaque_var (export_path_of (srv_export srv) (volume_label name)))) (shared_start others s) =
      Some (Some (success_reply xid1 (u32_to_be_bytes 0 @ enc_opaque_var root @
        u32_to_be_bytes 1 @ u32_to_be_bytes 1)), shared_start others s) \<and>
    handle_message (shared_server srv) False False (client_call xid2 NFS_PROG 3 (args_lookup root fname))
        (shared_start others s) =
      Some (Some (success_reply xid2 (u32_to_be_bytes 0 @ enc_opaque_var fh @
        enc_post_op_attr (Some a) 1 @ post_op (view s) ROOT_INO)), x1) \<and>
    handle_message (shared_server srv) False False (client_call xid3 NFS_PROG 6 (args_read fh off count)) x1 =
      Some (Some (success_reply xid3 (u32_to_be_bytes 0 @ enc_post_op_attr (Some a) 1 @
        u32_to_be_bytes (of_nat (length out)) @ u32_to_be_bytes (of_bool (length d \<le> unat off + length out)) @
        enc_opaque_var out)), x2) \<and>
    I (sh_fs x2) \<and> view (sh_fs x2) = view s \<and> (\<forall>h. h \<in> sh_own x2 \<longrightarrow> live (sh_fs x2) h = None)"
proof -
  have "ro_fs (srv_fs (shared_server srv)) (sh_inv I view live) (sh_view view) (sh_live live)"
    using assms(1) by (simp add: ro_fs.interleaved_contract)
  from client_session [OF this, of "shared_start others s" secret name fname a d root fh out count off xid1 xid2 xid3]
    assms(2-13)
  obtain h x1 x2 where s:
    "handle_message (shared_server srv) True True (client_call xid1 MOUNT_PROG 1
        (enc_opaque_var (export_path_of (srv_export srv) (volume_label name)))) (shared_start others s) =
      Some (Some (success_reply xid1 (u32_to_be_bytes 0 @ enc_opaque_var root @
        u32_to_be_bytes 1 @ u32_to_be_bytes 1)), shared_start others s)"
    "handle_message (shared_server srv) False False (client_call xid2 NFS_PROG 3 (args_lookup root fname))
        (shared_start others s) =
      Some (Some (success_reply xid2 (u32_to_be_bytes 0 @ enc_opaque_var fh @
        enc_post_op_attr (Some a) 1 @ post_op (view s) ROOT_INO)), x1)"
    "handle_message (shared_server srv) False False (client_call xid3 NFS_PROG 6 (args_read fh off count)) x1 =
      Some (Some (success_reply xid3 (u32_to_be_bytes 0 @ enc_post_op_attr (Some a) 1 @
        u32_to_be_bytes (of_nat (length out)) @ u32_to_be_bytes (of_bool (length d \<le> unat off + length out)) @
        enc_opaque_var out)), x2)"
    and e: "sh_inv I view live x2" "sh_view view x2 = view s" "sh_live live x2 = Map.empty" by auto
  from e(3) have "sh_live live x2 \<subseteq>\<^sub>m Map.empty" by simp
  then have "\<forall>h. h \<in> sh_own x2 \<longrightarrow> live (sh_fs x2) h = None" using no_own_live by blast
  moreover from e(1,2) have "I (sh_fs x2)" "view (sh_fs x2) = view s" by (simp_all add: sh_inv_def sh_view_def)
  ultimately show ?thesis using s by blast
qed

theorem client_mounts_and_reads_witness:
  "\<exists>root fh a x1 x2.
    handle_message (shared_server demo_server) True True (client_call 1 MOUNT_PROG 1
        (enc_opaque_var (export_path_of (srv_export demo_server) (volume_label (chars ''demo'')))))
        (shared_start demo_others mem_fs_new) =
      Some (Some (success_reply 1 (u32_to_be_bytes 0 @ enc_opaque_var root @
        u32_to_be_bytes 1 @ u32_to_be_bytes 1)), shared_start demo_others mem_fs_new) \<and>
    handle_message (shared_server demo_server) False False
        (client_call 2 NFS_PROG 3 (args_lookup root (ascii ''hello.txt''))) (shared_start demo_others mem_fs_new) =
      Some (Some (success_reply 2 (u32_to_be_bytes 0 @ enc_opaque_var fh @
        enc_post_op_attr (Some a) 1 @ post_op (mem_view 0 0 mem_fs_new) ROOT_INO)), x1) \<and>
    handle_message (shared_server demo_server) False False (client_call 3 NFS_PROG 6 (args_read fh 7 5)) x1 =
      Some (Some (success_reply 3 (u32_to_be_bytes 0 @ enc_post_op_attr (Some a) 1 @ u32_to_be_bytes 5 @
        u32_to_be_bytes 0 @ enc_opaque_var (ascii ''rom a''))), x2) \<and>
    mem_inv (sh_fs x2) \<and> mem_view 0 0 (sh_fs x2) = mem_view 0 0 mem_fs_new \<and>
    (\<forall>h. h \<in> sh_own x2 \<longrightarrow> open_files (sh_fs x2) h = None)"
proof -
  have fs: "ro_fs (srv_fs demo_server) mem_inv (mem_view 0 0) open_files"
    by (simp add: demo_server_def memfs.ro_fs_axioms)
  have nodes: "nodes mem_fs_new (Ino 2) = Some (FileNode (ascii (''Hello from anymount!'' @ [CHR 0x0A])))"
    by (simp add: mem_fs_new_def Let_def ROOT_INO_def)
  have "(ascii ''hello.txt'', Ino 2) \<in> set
      [(ascii ''hello.txt'', Ino 2), (ascii ''numbers.txt'', Ino 3), (ascii ''subdir'', Ino 4)]" by simp
  from mem_lookup_listed [OF mem_fs_new_inv mem_fs_new_nodes(1) this, of 0 0] obtain a where
    a: "view_lookup (mem_view 0 0 mem_fs_new) ROOT_INO (ascii ''hello.txt'') = Some a" "attr_ino a = Ino 2"
    by (auto simp: mem_view_lookup)
  from nodes a(2) have d: "view_data (mem_view 0 0 mem_fs_new) (attr_ino a) =
      Some (ascii (''Hello from anymount!'' @ [CHR 0x0A]))" by (simp add: mem_view_data)
  have ok: "handle_ok (srv_handle demo_server)" "length (replicate 16 (9 :: u8)) = 16"
    "srv_export demo_server = export_from_secret (replicate 16 9)" "list_all is_scalar (chars ''demo'')"
    "length (ascii ''hello.txt'') \<le> 1024"
    by (simp_all add: demo_server_def chars_def is_scalar_def ascii_def)
  have out: "ascii ''rom a'' = take (min (unat (5 :: u32)) 1048576)
      (drop (unat (7 :: u64)) (ascii (''Hello from anymount!'' @ [CHR 0x0A])))" by (simp add: ascii_def)
  from client_mounts_and_reads [OF fs mem_fs_new_inv demo_others_harmless ok(1-4) a(1) ok(5) d refl refl out,
      of 1 2 3] show ?thesis
    by (simp add: ascii_def) blast
qed

end
